(* ===== verification/Prelude.thy ===== *)
theory Prelude
  imports Complex_Main
begin

text \<open>
  Shared vocabulary of the development: the Python errors the orchestrator in
  \<^verbatim>\<open>src/main.py\<close> can raise, Python's \<open>%\<close> on integers (which raises on a zero
  divisor), numpy's \<open>np.mean\<close> (NaN, here \<open>None\<close>, on an empty list), the bounded
  \<open>collections.deque\<close>, a bind for results that may be an error, and the generic
  list lemmas the component theories share.
\<close>

named_theorems oprrl_eval
  "equations that evaluate the orchestrator model on concrete inputs"

section \<open>Python errors and Python arithmetic\<close>

datatype py_error = ZeroDivisionError | WrongEnvType

text \<open>\<open>a % b\<close> on non-negative Python integers: \<open>ZeroDivisionError\<close> when \<open>b = 0\<close>.\<close>

definition py_mod :: "nat \<Rightarrow> nat \<Rightarrow> py_error + nat" where
  "py_mod a b = (if b = 0 then Inl ZeroDivisionError else Inr (a mod b))"

text \<open>Sequencing of computations that may raise: the first error wins.\<close>

definition sbind :: "py_error + 'a \<Rightarrow> ('a \<Rightarrow> py_error + 'b) \<Rightarrow> py_error + 'b" where
  "sbind r f = (case r of Inl e \<Rightarrow> Inl e | Inr x \<Rightarrow> f x)"

section \<open>numpy's mean\<close>

text \<open>\<open>np.mean xs\<close>: the arithmetic mean; for the empty list numpy returns NaN, here \<open>None\<close>.\<close>

definition np_mean :: "real list \<Rightarrow> real option" where
  "np_mean xs = (if xs = [] then None else Some (sum_list xs / real (length xs)))"

text \<open>\<open>np.mean\<close> of a list of Python booleans: the share of \<open>True\<close>.\<close>

definition bool_rate :: "bool list \<Rightarrow> real option" where
  "bool_rate bs = np_mean (map (\<lambda>b. if b then 1 else 0) bs)"

section \<open>A deque with a maximal length\<close>

text \<open>
  \<open>d.append x\<close> on \<open>d = deque(maxlen=n)\<close>: the element goes to the right end and, when
  the deque was full, the leftmost element is evicted.
\<close>

definition deque_append :: "nat \<Rightarrow> 'a list \<Rightarrow> 'a \<Rightarrow> 'a list" where
  "deque_append maxlen xs x = drop (Suc (length xs) - maxlen) (xs @ [x])"

section \<open>Shared lemmas\<close>

lemma py_mod_Inr_iff [simp]: "py_mod a b = Inr m \<longleftrightarrow> 0 < b \<and> m = a mod b"
  by (auto simp: py_mod_def)

lemma py_mod_Inl_iff [simp]: "py_mod a b = Inl e \<longleftrightarrow> b = 0 \<and> e = ZeroDivisionError"
  by (auto simp: py_mod_def)

lemma py_mod_pos [simp]: "0 < b \<Longrightarrow> py_mod a b = Inr (a mod b)"
  by (simp add: py_mod_def)

lemma py_mod_zero [simp]: "py_mod a 0 = Inl ZeroDivisionError"
  by (simp add: py_mod_def)

lemma sbind_Inl [simp]: "sbind (Inl e) f = Inl e"
  by (simp add: sbind_def)

lemma sbind_Inr [simp]: "sbind (Inr x) f = f x"
  by (simp add: sbind_def)

lemma sbind_cong [fundef_cong]:
  "r = r' \<Longrightarrow> (\<And>x. r' = Inr x \<Longrightarrow> f x = f' x) \<Longrightarrow> sbind r f = sbind r' f'"
  by (cases r) (auto simp: sbind_def)

lemma sbind_eq_Inr: "sbind r f = Inr y \<longleftrightarrow> (\<exists>x. r = Inr x \<and> f x = Inr y)"
  by (cases r) (auto simp: sbind_def)

lemma np_mean_None_iff [simp]: "np_mean xs = None \<longleftrightarrow> xs = []"
  by (simp add: np_mean_def)

lemma np_mean_bounds:
  assumes "np_mean xs = Some m" and "\<forall>x\<in>set xs. lo \<le> x \<and> x \<le> hi"
  shows "lo \<le> m \<and> m \<le> hi"
proof -
  from assms(1) have ne: "xs \<noteq> []" and m: "m = sum_list xs / real (length xs)"
    by (auto simp: np_mean_def split: if_splits)
  have n: "0 < real (length xs)" using ne by simp
  have "real (length xs) * lo \<le> sum_list xs"
    using sum_list_mono [of xs "\<lambda>_. lo" "\<lambda>x. x"] assms(2) by (simp add: sum_list_triv)
  moreover have "sum_list xs \<le> real (length xs) * hi"
    using sum_list_mono [of xs "\<lambda>x. x" "\<lambda>_. hi"] assms(2) by (simp add: sum_list_triv)
  ultimately show ?thesis using n by (simp add: m field_simps)
qed

lemma length_deque_append_le: "length xs \<le> maxlen \<Longrightarrow> length (deque_append maxlen xs x) \<le> maxlen"
  by (simp add: deque_append_def)

lemma deque_append_last: "0 < maxlen \<Longrightarrow> last (deque_append maxlen xs x) = x"
  by (simp add: deque_append_def last_drop)

text \<open>A run of appends keeps exactly the newest \<open>maxlen\<close> elements of the history.\<close>

lemma foldl_deque_append:
  "length xs \<le> maxlen \<Longrightarrow>
   foldl (deque_append maxlen) xs hs = drop (length xs + length hs - maxlen) (xs @ hs)"
proof (induction hs arbitrary: xs)
  case Nil
  then show ?case by simp
next
  case (Cons h hs)
  let ?ys = "deque_append maxlen xs h"
  have len: "length ?ys \<le> maxlen" using Cons.prems by (rule length_deque_append_le)
  have "foldl (deque_append maxlen) xs (h # hs) = foldl (deque_append maxlen) ?ys hs"
    by simp
  also have "\<dots> = drop (length ?ys + length hs - maxlen) (?ys @ hs)"
    using len by (rule Cons.IH)
  also have "\<dots> = drop (length xs + length (h # hs) - maxlen) (xs @ h # hs)"
  proof -
    let ?k = "Suc (length xs) - maxlen"
    have k: "?k \<le> length (xs @ [h])" by simp
    have "?ys @ hs = drop ?k (xs @ h # hs)"
      using k by (cases maxlen) (simp_all add: deque_append_def)
    moreover have "length ?ys + length hs - maxlen + ?k = length xs + length (h # hs) - maxlen"
      using Cons.prems by (simp add: deque_append_def)
    ultimately show ?thesis by (simp only: drop_drop)
  qed
  finally show ?case .
qed

lemma count_list_append [simp]: "count_list (xs @ ys) x = count_list xs x + count_list ys x"
  by (induction xs) auto

lemma count_list_replicate [simp]: "count_list (replicate n y) x = (if x = y then n else 0)"
  by (induction n) auto

end
