(* ===== verification/ReplayMemory.thy ===== *)
theory ReplayMemory
  imports Prelude
begin

text \<open>
  The replay memory the orchestrator owns (\<^verbatim>\<open>self.agent_memory\<close>, a
  \<^verbatim>\<open>ReplayMemory\<close> imported from \<^verbatim>\<open>replay_memory.py\<close>, which is not part of
  the repository's sources). It is modelled from the interface the spec gives it:
  \<open>push\<close> stores a transition tuple, \<open>len\<close> counts them, and \<open>relabel_memory\<close>
  recomputes every stored reward from the current reward model while keeping state,
  action, next state and mask. Sampling is internal to the agent's update and is
  not modelled; the capacity argument \<open>replay_size\<close> is not described by the spec
  and the memory is an unbounded list here, so no property depends on eviction. The flag
  \<^verbatim>\<open>state_only\<close> that line 74 passes selects a reward that reads only the state;
  \<open>relabel_memory\<close> takes the reward as a function of state and action, which covers
  that case as a function that ignores its action argument.
\<close>

record ('s, 'a) transition =
  t_state :: 's
  t_action :: 'a
  t_reward :: real
  t_next_state :: 's
  t_mask :: real

type_synonym ('s, 'a) memory = "('s, 'a) transition list"

definition push :: "('s, 'a) memory \<Rightarrow> 's \<Rightarrow> 'a \<Rightarrow> real \<Rightarrow> 's \<Rightarrow> real \<Rightarrow> ('s, 'a) memory" where
  "push m s a r ns mk =
     m @ [\<lparr>t_state = s, t_action = a, t_reward = r, t_next_state = ns, t_mask = mk\<rparr>]"

definition relabel_memory :: "('s \<Rightarrow> 'a \<Rightarrow> real) \<Rightarrow> ('s, 'a) memory \<Rightarrow> ('s, 'a) memory" where
  "relabel_memory reward m = map (\<lambda>t. t\<lparr>t_reward := reward (t_state t) (t_action t)\<rparr>) m"

text \<open>The part of a transition that relabelling must keep.\<close>

definition keep_part :: "('s, 'a) transition \<Rightarrow> 's \<times> 'a \<times> 's \<times> real" where
  "keep_part t = (t_state t, t_action t, t_next_state t, t_mask t)"

lemma length_push [simp]: "length (push m s a r ns mk) = Suc (length m)"
  by (simp add: push_def)

lemma length_relabel_memory [simp]: "length (relabel_memory reward m) = length m"
  by (simp add: relabel_memory_def)

lemma relabel_memory_append:
  "relabel_memory reward (m @ m') = relabel_memory reward m @ relabel_memory reward m'"
  by (simp add: relabel_memory_def)

lemma relabel_memory_nth:
  "i < length m \<Longrightarrow>
   relabel_memory reward m ! i = (m ! i)\<lparr>t_reward := reward (t_state (m ! i)) (t_action (m ! i))\<rparr>"
  by (simp add: relabel_memory_def)

lemma relabel_memory_rewards:
  "\<forall>t \<in> set (relabel_memory reward m). t_reward t = reward (t_state t) (t_action t)"
  by (auto simp: relabel_memory_def)

lemma relabel_memory_keep_part:
  "map keep_part (relabel_memory reward m) = map keep_part m"
  by (simp add: relabel_memory_def keep_part_def)

lemma relabel_memory_masks [simp]: "map t_mask (relabel_memory reward m) = map t_mask m"
  by (simp add: relabel_memory_def)

lemma relabel_memory_idem:
  "relabel_memory reward (relabel_memory reward m) = relabel_memory reward m"
  by (simp add: relabel_memory_def)

lemma push_last: "last (push m s a r ns mk) =
  \<lparr>t_state = s, t_action = a, t_reward = r, t_next_state = ns, t_mask = mk\<rparr>"
  by (simp add: push_def)

end
