(* ===== verification/Interfaces.thy ===== *)
theory Interfaces
  imports ReplayMemory
begin

text \<open>
  The configuration the orchestrator reads, and the interfaces of the collaborators it
  drives but does not define: the environment adapter, the SAC agent and the reward
  network (their code, \<^verbatim>\<open>sac.py\<close>, \<^verbatim>\<open>reward_net.py\<close> and the simulators, is not
  in the repository's sources). Each collaborator is a state of its own type and the
  operations the orchestrator calls on it, collected in the record \<open>ext\<close>; every
  result of the orchestrator model is stated for an arbitrary \<open>ext\<close>, so the theorems
  hold for every agent, reward model and environment with these signatures.
  Two further datatypes make the orchestrator's effects observable: \<open>call\<close>, the
  calls on the collaborators in the order they are made, and \<open>log_entry\<close>, what is
  sent to the wandb logger.
\<close>

section \<open>Configuration\<close>

datatype env_type = RLBench | Mujoco | Metaworld

text \<open>The dispatch of \<^verbatim>\<open>OPRRL.__init__\<close> on \<^verbatim>\<open>config.experiment.env_type\<close>.\<close>

definition parse_env_type :: "string \<Rightarrow> py_error + env_type" where
  "parse_env_type t =
     (if t = ''rlbench'' then Inr RLBench
      else if t = ''mujoco'' then Inr Mujoco
      else if t = ''metaworld'' then Inr Metaworld
      else Inl WrongEnvType)"

text \<open>
  The hyper-parameters the orchestrator reads (\<^verbatim>\<open>config.experiment\<close>,
  \<^verbatim>\<open>config.sac\<close>, \<^verbatim>\<open>config.reward\<close>); counts are non-negative integers.
\<close>

record cfg =
  episode_len :: nat
  max_episodes :: nat
  change_flag_reward :: real
  env_type :: env_type
  batch_size :: nat
  updates_per_step :: nat
  start_episodes :: nat
  pretrain_episodes :: nat
  eval_enabled :: bool
  eval_per_episode :: nat
  eval_episodes :: nat
  learn_reward_frequency_1 :: nat
  num_to_rank_1 :: nat
  learn_reward_frequency :: nat
  num_to_rank :: nat
  max_rank_num :: nat
  wandb_log :: bool

section \<open>Observable effects\<close>

datatype upd_rule = MainRule | PretrainRule

datatype call =
    CRandomAction
  | CSelectAction bool
  | CUpdate upd_rule nat
  | CEnvReset
  | CEnvStep
  | CGetReward
  | CPush
  | CPushData bool
  | CRank nat
  | CLearnSoft
  | CRelabel
  | CResetCritic
  | CResetActor

text \<open>
  The dictionaries passed to \<^verbatim>\<open>self.logger.log\<close>: the three losses of an update,
  the per-episode record (returns, steps, success rate where one is computed, episode
  number) and the record of a reward-learning round.
\<close>

datatype log_entry =
    LogLoss real real real
  | LogEpisode real real nat "real option" nat
  | LogRank "real option" real nat nat

type_synonym losses = "real \<times> real \<times> real \<times> real \<times> real"

section \<open>The collaborators\<close>

text \<open>
  \<open>'s\<close> states, \<open>'a\<close> actions, \<open>'e\<close> the environment, \<open>'g\<close> the agent,
  \<open>'m\<close> the reward network. \<open>env_step\<close> returns the next state, the true reward,
  the done flag and \<^verbatim>\<open>info['success']\<close>.
\<close>

record ('s, 'a, 'e, 'g, 'm) ext =
  env_reset :: "'e \<Rightarrow> 's \<times> 'e"
  env_step :: "'e \<Rightarrow> 'a \<Rightarrow> ('s \<times> real \<times> bool \<times> bool) \<times> 'e"
  env_randn_action :: "'e \<Rightarrow> 'a \<times> 'e"
  env_sample :: "'e \<Rightarrow> 'a \<times> 'e"
  select_action :: "'g \<Rightarrow> 's \<Rightarrow> bool \<Rightarrow> 'a \<times> 'g"
  update_parameters :: "'g \<Rightarrow> ('s, 'a) memory \<Rightarrow> nat \<Rightarrow> nat \<Rightarrow> losses \<times> 'g"
  update_parameters_pretrain :: "'g \<Rightarrow> ('s, 'a) memory \<Rightarrow> nat \<Rightarrow> nat \<Rightarrow> losses \<times> 'g"
  reset_critic :: "'g \<Rightarrow> 'g"
  reset_actor :: "'g \<Rightarrow> 'g"
  push_data :: "'m \<Rightarrow> 's \<Rightarrow> 'a \<Rightarrow> real \<Rightarrow> bool \<Rightarrow> 'm"
  rank :: "'m \<Rightarrow> nat \<Rightarrow> real \<times> 'm"
  learn_reward_soft :: "'m \<Rightarrow> real \<times> 'm"
  get_reward :: "'m \<Rightarrow> 's \<Rightarrow> 'a \<Rightarrow> real"
  ranked_len :: "'m \<Rightarrow> nat"

section \<open>Label freshness of a call sequence\<close>

text \<open>
  The spec's second ordering guarantee: after a reward-model fit, the memory is
  relabelled before the agent reads it again. \<open>stale d cs\<close> is whether the labels are
  stale after the calls \<open>cs\<close>, starting from staleness \<open>d\<close>; \<open>fresh_updates d cs\<close>
  is whether no update in \<open>cs\<close> runs on stale labels.
\<close>

fun stale :: "bool \<Rightarrow> call list \<Rightarrow> bool" where
  "stale d [] = d"
| "stale d (CLearnSoft # cs) = stale True cs"
| "stale d (CRelabel # cs) = stale False cs"
| "stale d (_ # cs) = stale d cs"

fun fresh_updates :: "bool \<Rightarrow> call list \<Rightarrow> bool" where
  "fresh_updates d [] = True"
| "fresh_updates d (CLearnSoft # cs) = fresh_updates True cs"
| "fresh_updates d (CRelabel # cs) = fresh_updates False cs"
| "fresh_updates d (CUpdate r n # cs) = (\<not> d \<and> fresh_updates d cs)"
| "fresh_updates d (_ # cs) = fresh_updates d cs"

lemma stale_append [simp]: "stale d (xs @ ys) = stale (stale d xs) ys"
  by (induction d xs rule: stale.induct) auto

lemma fresh_updates_append [simp]:
  "fresh_updates d (xs @ ys) \<longleftrightarrow> fresh_updates d xs \<and> fresh_updates (stale d xs) ys"
  by (induction d xs rule: fresh_updates.induct) auto

lemma stale_replicate_learn [simp]: "stale d (replicate n CLearnSoft) = (d \<or> 0 < n)"
  by (induction n arbitrary: d) auto

lemma fresh_updates_replicate_learn [simp]: "fresh_updates d (replicate n CLearnSoft)"
  by (induction n arbitrary: d) auto

lemma stale_replicate_update [simp]: "stale d (replicate n (CUpdate r k)) = d"
  by (induction n) auto

lemma fresh_updates_replicate_update [simp]:
  "fresh_updates d (replicate n (CUpdate r k)) \<longleftrightarrow> n = 0 \<or> \<not> d"
  by (induction n) auto

section \<open>A concrete collaborator\<close>

text \<open>
  A small instance of the interfaces, used to run the model on concrete inputs: the
  environment counts the steps since its last reset and signals termination at the
  third step, the agent counts its updates, and the reward network is a pair
  (fits made, size of the ranked pool) whose accuracy passes 0.97 from the third fit.
\<close>

definition toy_ext :: "(nat, nat, nat, nat, nat \<times> nat) ext" where
  "toy_ext =
     \<lparr>env_reset = (\<lambda>e. (0, 0)),
      env_step = (\<lambda>e a. ((Suc e, 1, 3 \<le> Suc e, Suc e = 2), Suc e)),
      env_randn_action = (\<lambda>e. (0, e)),
      env_sample = (\<lambda>e. (1, e)),
      select_action = (\<lambda>g s ev. (s, g)),
      update_parameters = (\<lambda>g m b u. ((0, 0, 0, 0, 0), Suc g)),
      update_parameters_pretrain = (\<lambda>g m b u. ((1, 1, 1, 1, 1), Suc g)),
      reset_critic = (\<lambda>g. 0),
      reset_actor = (\<lambda>g. 0),
      push_data = (\<lambda>m s a r d. m),
      rank = (\<lambda>m k. (1 / 2, (fst m, snd m + k))),
      learn_reward_soft = (\<lambda>m. (if 2 \<le> fst m then 49 / 50 else 1 / 2, (Suc (fst m), snd m))),
      get_reward = (\<lambda>m s a. real (s + a)),
      ranked_len = snd\<rparr>"

text \<open>
  A configuration for the concrete runs: five-step episodes, one warm-up and one
  pretraining episode, two updates per step once the memory holds more than one
  transition, ranking every second episode before the switch and every third after it.
\<close>

definition toy_cfg :: cfg where
  "toy_cfg =
     \<lparr>episode_len = 5, max_episodes = 4, change_flag_reward = 2, env_type = Metaworld,
      batch_size = 1, updates_per_step = 2, start_episodes = 1, pretrain_episodes = 1,
      eval_enabled = True, eval_per_episode = 2, eval_episodes = 1,
      learn_reward_frequency_1 = 2, num_to_rank_1 = 1, learn_reward_frequency = 3,
      num_to_rank = 2, max_rank_num = 5, wandb_log = True\<rparr>"

lemmas toy_defs [oprrl_eval] = toy_ext_def toy_cfg_def

end
