(* ===== verification/Steps.thy ===== *)
theory Steps
  imports Interfaces
begin

text \<open>
  The orchestrator's state (the fields of \<^verbatim>\<open>OPRRL\<close> that \<^verbatim>\<open>train\<close> reads or
  writes) and the step session of an episode, \<^verbatim>\<open>while not done:\<close> in
  \<^verbatim>\<open>OPRRL.train\<close> (\<^verbatim>\<open>src/main.py\<close>, lines 161--223): choosing the action, the
  agent updates of the step, the environment step, the mask and the forced truncation,
  and the two pushes. The loop is a \<^theory_text>\<open>function\<close> whose termination is proved: the
  forced truncation at \<open>episode_len\<close> ends every episode, and \<open>episode_len = 0\<close>
  raises \<open>ZeroDivisionError\<close> at the first step.
\<close>

section \<open>State\<close>

record ('s, 'a, 'e, 'g, 'm) oprrl =
  env :: 'e
  agent :: 'g
  agent_memory :: "('s, 'a) memory"
  reward_network :: 'm
  total_numsteps :: nat
  updates :: nat
  rank_count :: nat
  rank_num :: nat
  i_episode :: nat
  e_reward_list :: "real list"
  e_reward_prime_list :: "real list"
  episode_len_list :: "nat list"
  calls :: "call list"
  logs :: "log_entry list"

text \<open>The episode-local variables of \<^verbatim>\<open>train\<close>.\<close>

record 's ep_locals =
  ep_state :: 's
  episode_reward :: real
  episode_reward_prime :: real
  episode_steps :: nat
  ep_done :: bool
  episode_flag :: bool
  episode_succ :: bool

section \<open>Operations of a step\<close>

text \<open>Lines 175--181: random actions during the warm-up episodes, the policy afterwards.\<close>

definition choose_action ::
  "('s, 'a, 'e, 'g, 'm) ext \<Rightarrow> cfg \<Rightarrow> 's \<Rightarrow> ('s, 'a, 'e, 'g, 'm) oprrl \<Rightarrow>
   'a \<times> ('s, 'a, 'e, 'g, 'm) oprrl" where
  "choose_action X c st s =
     (if i_episode s \<le> start_episodes c then
        (let (a, e') = (if env_type c = RLBench then env_randn_action X (env s)
                        else env_sample X (env s))
         in (a, s\<lparr>env := e', calls := calls s @ [CRandomAction]\<rparr>))
      else
        (let (a, g') = select_action X (agent s) st False
         in (a, s\<lparr>agent := g', calls := calls s @ [CSelectAction False]\<rparr>)))"

text \<open>Line 187: which update rule the agent uses in episode \<open>i\<close>.\<close>

definition update_rule :: "cfg \<Rightarrow> nat \<Rightarrow> upd_rule" where
  "update_rule c i =
     (if start_episodes c + pretrain_episodes c < i \<or> pretrain_episodes c = 0
      then MainRule else PretrainRule)"

text \<open>Lines 187--196: one agent update, counted and logged.\<close>

definition sac_update ::
  "('s, 'a, 'e, 'g, 'm) ext \<Rightarrow> cfg \<Rightarrow> upd_rule \<Rightarrow> ('s, 'a, 'e, 'g, 'm) oprrl \<Rightarrow>
   ('s, 'a, 'e, 'g, 'm) oprrl" where
  "sac_update X c r s =
     (let upd = (case r of MainRule \<Rightarrow> update_parameters X
                          | PretrainRule \<Rightarrow> update_parameters_pretrain X);
          ((c1, c2, pl, el, al), g') = upd (agent s) (agent_memory s) (batch_size c) (updates s)
      in s\<lparr>agent := g', updates := Suc (updates s),
           calls := calls s @ [CUpdate r (updates s)],
           logs := (if wandb_log c then logs s @ [LogLoss c1 c2 pl] else logs s)\<rparr>)"

text \<open>Lines 185--196: \<^verbatim>\<open>for i in range(updates_per_step)\<close>.\<close>

primrec sac_updates ::
  "('s, 'a, 'e, 'g, 'm) ext \<Rightarrow> cfg \<Rightarrow> nat \<Rightarrow> ('s, 'a, 'e, 'g, 'm) oprrl \<Rightarrow>
   ('s, 'a, 'e, 'g, 'm) oprrl" where
  "sac_updates X c 0 s = s"
| "sac_updates X c (Suc n) s =
     sac_updates X c n (sac_update X c (update_rule c (i_episode s)) s)"

text \<open>
  Lines 175--223: one iteration of the step loop. The mask of line 215 is computed
  before the forced truncation of line 217, whose \<open>%\<close> raises on \<open>episode_len = 0\<close>.
\<close>

definition step_once ::
  "('s, 'a, 'e, 'g, 'm) ext \<Rightarrow> cfg \<Rightarrow> ('s, 'a, 'e, 'g, 'm) oprrl \<Rightarrow> 's ep_locals \<Rightarrow>
   py_error + ('s, 'a, 'e, 'g, 'm) oprrl \<times> 's ep_locals" where
  "step_once X c s l =
     (let st = ep_state l;
          (a, s1) = choose_action X c st s;
          s2 = (if batch_size c < length (agent_memory s1)
                then sac_updates X c (updates_per_step c) s1 else s1);
          ((ns, r, d, info), e') = env_step X (env s2) a;
          rp = get_reward X (reward_network s2) st a;
          succ = (env_type c = Metaworld \<and> \<not> episode_flag l \<and> info);
          steps = Suc (episode_steps l);
          mk = (if steps = episode_len c then 1 else if d then 0 else (1::real))
      in sbind (py_mod steps (episode_len c)) (\<lambda>m.
           let d' = (m = 0 \<or> d)
           in Inr (s2\<lparr>env := e', total_numsteps := Suc (total_numsteps s2),
                      agent_memory := push (agent_memory s2) st a rp ns mk,
                      reward_network := push_data X (reward_network s2) st a r d',
                      calls := calls s2 @ [CEnvStep, CGetReward, CPush, CPushData d']\<rparr>,
                   l\<lparr>ep_state := ns, episode_reward := episode_reward l + r,
                      episode_reward_prime := episode_reward_prime l + rp,
                      episode_steps := steps, ep_done := d',
                      episode_flag := (episode_flag l \<or> succ),
                      episode_succ := (episode_succ l \<or> succ)\<rparr>)))"

lemmas step_defs [oprrl_eval] =
  choose_action_def update_rule_def sac_update_def step_once_def

text \<open>Lines 162--169: the start of an episode.\<close>

definition reset_episode ::
  "('s, 'a, 'e, 'g, 'm) ext \<Rightarrow> ('s, 'a, 'e, 'g, 'm) oprrl \<Rightarrow>
   ('s, 'a, 'e, 'g, 'm) oprrl \<times> 's ep_locals" where
  "reset_episode X s =
     (let (st, e') = env_reset X (env s)
      in (s\<lparr>env := e', calls := calls s @ [CEnvReset]\<rparr>,
          \<lparr>ep_state = st, episode_reward = 0, episode_reward_prime = 0, episode_steps = 0,
           ep_done = False, episode_flag = False, episode_succ = False\<rparr>))"

declare reset_episode_def [oprrl_eval]

text \<open>The orchestrator right after \<^verbatim>\<open>__init__\<close>, on the concrete collaborators.\<close>

definition toy_state :: "(nat, nat, nat, nat, nat \<times> nat) oprrl" where
  "toy_state =
     \<lparr>env = 0, agent = 0, agent_memory = [], reward_network = (0, 0), total_numsteps = 0,
      updates = 0, rank_count = 0, rank_num = 0, i_episode = 1, e_reward_list = [],
      e_reward_prime_list = [], episode_len_list = [], calls = [], logs = []\<rparr>"

declare toy_state_def [oprrl_eval]

section \<open>Facts about one step\<close>

lemma choose_action_shape:
  assumes "choose_action X c st s = (a, s')"
  shows "\<exists>e g. s' = s\<lparr>env := e, agent := g,
           calls := calls s @ [if i_episode s \<le> start_episodes c then CRandomAction
                               else CSelectAction False]\<rparr>"
proof (intro exI)
  show "s' = s\<lparr>env := env s', agent := agent s',
          calls := calls s @ [if i_episode s \<le> start_episodes c then CRandomAction
                              else CSelectAction False]\<rparr>"
    using assms unfolding choose_action_def
    by (cases "i_episode s \<le> start_episodes c") (auto split: prod.splits)
qed

lemma sac_update_shape:
  "\<exists>g lg. sac_update X c r s =
     s\<lparr>agent := g, updates := Suc (updates s), calls := calls s @ [CUpdate r (updates s)],
       logs := lg\<rparr>"
proof (intro exI)
  show "sac_update X c r s =
     s\<lparr>agent := agent (sac_update X c r s), updates := Suc (updates s),
       calls := calls s @ [CUpdate r (updates s)], logs := logs (sac_update X c r s)\<rparr>"
    unfolding sac_update_def Let_def by (auto split: prod.splits)
qed

lemma sac_updates_shape:
  "\<exists>g lg. sac_updates X c n s =
     s\<lparr>agent := g, updates := updates s + n,
       calls := calls s @ map (CUpdate (update_rule c (i_episode s))) [updates s ..< updates s + n],
       logs := lg\<rparr>"
proof (induction n arbitrary: s)
  case 0
  show ?case by (rule exI [of _ "agent s"], rule exI [of _ "logs s"]) simp
next
  case (Suc n)
  obtain g lg where u: "sac_update X c (update_rule c (i_episode s)) s =
     s\<lparr>agent := g, updates := Suc (updates s),
       calls := calls s @ [CUpdate (update_rule c (i_episode s)) (updates s)], logs := lg\<rparr>"
    using sac_update_shape by metis
  obtain g' lg' where v: "sac_updates X c n (sac_update X c (update_rule c (i_episode s)) s) =
     (sac_update X c (update_rule c (i_episode s)) s)\<lparr>agent := g',
       updates := updates (sac_update X c (update_rule c (i_episode s)) s) + n,
       calls := calls (sac_update X c (update_rule c (i_episode s)) s) @
         map (CUpdate (update_rule c (i_episode (sac_update X c (update_rule c (i_episode s)) s))))
           [updates (sac_update X c (update_rule c (i_episode s)) s) ..<
            updates (sac_update X c (update_rule c (i_episode s)) s) + n],
       logs := lg'\<rparr>"
    using Suc.IH by metis
  show ?case
  proof (intro exI)
    show "sac_updates X c (Suc n) s =
       s\<lparr>agent := g', updates := updates s + Suc n,
         calls := calls s @ map (CUpdate (update_rule c (i_episode s))) [updates s ..< updates s + Suc n],
         logs := lg'\<rparr>"
      by (simp only: sac_updates.simps v) (simp add: u upt_conv_Cons del: upt_Suc)
  qed
qed

lemma step_once_progress:
  assumes "step_once X c s l = Inr (s', l')"
  shows "0 < episode_len c \<and> episode_steps l' = Suc (episode_steps l) \<and>
         (ep_done l' \<or> Suc (episode_steps l) mod episode_len c \<noteq> 0)"
  using assms by (auto simp: step_once_def Let_def sbind_eq_Inr split: prod.splits)

lemma step_once_error:
  "episode_len c = 0 \<Longrightarrow> step_once X c s l = Inl ZeroDivisionError"
  by (simp add: step_once_def Let_def split: prod.splits)

lemma step_once_total:
  "0 < episode_len c \<Longrightarrow> \<exists>s' l'. step_once X c s l = Inr (s', l')"
  by (simp add: step_once_def Let_def split: prod.splits)

lemma step_once_decreases:
  assumes "step_once X c s l = Inr (s', l')"
  shows "(if ep_done l' then 0 else Suc (episode_len c - episode_steps l' mod episode_len c))
         < Suc (episode_len c - episode_steps l mod episode_len c)"
proof (cases "ep_done l'")
  case True
  then show ?thesis by simp
next
  case False
  from assms have p: "0 < episode_len c \<and> episode_steps l' = Suc (episode_steps l) \<and>
      (ep_done l' \<or> Suc (episode_steps l) mod episode_len c \<noteq> 0)"
    by (rule step_once_progress)
  with False have e: "episode_steps l' mod episode_len c = Suc (episode_steps l mod episode_len c)"
    by (auto simp: mod_Suc)
  have "episode_steps l mod episode_len c < episode_len c" using p by simp
  then show ?thesis using False unfolding e by simp
qed

text \<open>The calls a step makes besides fitting, relabelling, ranking and resets.\<close>

fun step_call :: "call \<Rightarrow> bool" where
  "step_call CLearnSoft = False"
| "step_call CRelabel = False"
| "step_call (CRank k) = False"
| "step_call CResetCritic = False"
| "step_call CResetActor = False"
| "step_call _ = True"

text \<open>The action calls of the training steps (the evaluation's \<open>CSelectAction True\<close> apart),
  and the one a step of episode \<open>i\<close> makes.\<close>

fun train_action :: "call \<Rightarrow> bool" where
  "train_action CRandomAction = True"
| "train_action (CSelectAction b) = (\<not> b)"
| "train_action _ = False"

abbreviation action_call :: "cfg \<Rightarrow> nat \<Rightarrow> call" where
  "action_call c i \<equiv> (if i \<le> start_episodes c then CRandomAction else CSelectAction False)"

lemma train_action_updates [simp]: "filter train_action (map (CUpdate r) ns) = []"
  by (induction ns) simp_all

text \<open>The agent-update calls.\<close>

fun is_update :: "call \<Rightarrow> bool" where
  "is_update (CUpdate r k) = True"
| "is_update _ = False"

lemma is_update_updates [simp]: "filter is_update (map (CUpdate r) ns) = map (CUpdate r) ns"
  by (induction ns) simp_all

lemma step_once_InrE:
  assumes "step_once X c s l = Inr (s', l')"
  obtains a s1 s2 ns r d info e' where
    "choose_action X c (ep_state l) s = (a, s1)"
    "s2 = (if batch_size c < length (agent_memory s1)
           then sac_updates X c (updates_per_step c) s1 else s1)"
    "env_step X (env s2) a = ((ns, r, d, info), e')"
    "0 < episode_len c"
    "s' = s2\<lparr>env := e', total_numsteps := Suc (total_numsteps s2),
       agent_memory := push (agent_memory s2) (ep_state l) a
         (get_reward X (reward_network s2) (ep_state l) a) ns
         (if Suc (episode_steps l) = episode_len c then 1 else if d then 0 else 1),
       reward_network := push_data X (reward_network s2) (ep_state l) a r
         (Suc (episode_steps l) mod episode_len c = 0 \<or> d),
       calls := calls s2 @ [CEnvStep, CGetReward, CPush,
         CPushData (Suc (episode_steps l) mod episode_len c = 0 \<or> d)]\<rparr>"
    "l' = l\<lparr>ep_state := ns, episode_reward := episode_reward l + r,
       episode_reward_prime := episode_reward_prime l +
         get_reward X (reward_network s2) (ep_state l) a,
       episode_steps := Suc (episode_steps l),
       ep_done := (Suc (episode_steps l) mod episode_len c = 0 \<or> d),
       episode_flag := (episode_flag l \<or> (env_type c = Metaworld \<and> \<not> episode_flag l \<and> info)),
       episode_succ := (episode_succ l \<or> (env_type c = Metaworld \<and> \<not> episode_flag l \<and> info))\<rparr>"
  using assms that by (auto simp: step_once_def Let_def sbind_eq_Inr split: prod.splits)

text \<open>What the action choice and the updates of a step leave of the state.\<close>

lemma step_pre_fields:
  assumes ca: "choose_action X c st s = (a, s1)"
    and s2: "s2 = (if batch_size c < length (agent_memory s1)
                   then sac_updates X c (updates_per_step c) s1 else s1)"
  shows "agent_memory s2 = agent_memory s \<and> reward_network s2 = reward_network s \<and>
    i_episode s2 = i_episode s \<and> rank_count s2 = rank_count s \<and> rank_num s2 = rank_num s \<and>
    total_numsteps s2 = total_numsteps s \<and> e_reward_list s2 = e_reward_list s \<and>
    e_reward_prime_list s2 = e_reward_prime_list s \<and> episode_len_list s2 = episode_len_list s \<and>
    updates s2 = updates s + (if batch_size c < length (agent_memory s) then updates_per_step c else 0) \<and>
    calls s2 = calls s @ [if i_episode s \<le> start_episodes c then CRandomAction
                          else CSelectAction False] @
      map (CUpdate (update_rule c (i_episode s)))
        [updates s ..< updates s + (if batch_size c < length (agent_memory s)
                                    then updates_per_step c else 0)]"
proof -
  obtain e g where s1: "s1 = s\<lparr>env := e, agent := g,
      calls := calls s @ [if i_episode s \<le> start_episodes c then CRandomAction
                          else CSelectAction False]\<rparr>"
    using choose_action_shape [OF ca] by blast
  obtain g' lg where u: "sac_updates X c (updates_per_step c) s1 =
     s1\<lparr>agent := g', updates := updates s1 + updates_per_step c,
       calls := calls s1 @ map (CUpdate (update_rule c (i_episode s1)))
                  [updates s1 ..< updates s1 + updates_per_step c], logs := lg\<rparr>"
    using sac_updates_shape [of X c "updates_per_step c" s1] by metis
  have f1: "i_episode s1 = i_episode s \<and> rank_count s1 = rank_count s \<and>
      rank_num s1 = rank_num s \<and> total_numsteps s1 = total_numsteps s \<and>
      agent_memory s1 = agent_memory s \<and> reward_network s1 = reward_network s \<and>
      updates s1 = updates s \<and> e_reward_list s1 = e_reward_list s \<and>
      e_reward_prime_list s1 = e_reward_prime_list s \<and> episode_len_list s1 = episode_len_list s \<and>
      calls s1 = calls s @ [if i_episode s \<le> start_episodes c then CRandomAction
                            else CSelectAction False]"
    by (simp add: s1)
  show ?thesis unfolding s2 by (auto simp: u f1)
qed

lemma step_once_frame:
  assumes "step_once X c s l = Inr (s', l')"
  shows "i_episode s' = i_episode s \<and> rank_count s' = rank_count s \<and> rank_num s' = rank_num s \<and>
         total_numsteps s' = Suc (total_numsteps s) \<and>
         length (agent_memory s') = Suc (length (agent_memory s)) \<and>
         e_reward_list s' = e_reward_list s \<and> e_reward_prime_list s' = e_reward_prime_list s \<and>
         episode_len_list s' = episode_len_list s \<and>
         episode_steps l' = Suc (episode_steps l) \<and>
         (\<exists>cs. calls s' = calls s @ cs \<and> list_all step_call cs \<and>
               filter train_action cs = [action_call c (i_episode s)] \<and>
               updates s' = updates s + length (filter is_update cs))"
proof -
  have "list_all step_call (map (CUpdate r) ns)" for r ns by (simp add: list_all_iff)
  with assms show ?thesis
    by (elim step_once_InrE) (auto dest!: step_pre_fields)
qed

lemma step_once_pushed:
  assumes "step_once X c s l = Inr (s', l')" and "episode_steps l < episode_len c"
  shows "\<exists>t. agent_memory s' = agent_memory s @ [t] \<and> t_state t = ep_state l \<and>
             t_next_state t = ep_state l' \<and>
             t_mask t = (if episode_steps l' < episode_len c \<and> ep_done l' then 0 else 1) \<and>
             episode_steps l' = Suc (episode_steps l) \<and> episode_steps l' \<le> episode_len c \<and>
             (episode_steps l' = episode_len c \<longrightarrow> ep_done l')"
  using assms(1)
proof (rule step_once_InrE)
  fix a s1 s2 ns r d info e'
  assume ca: "choose_action X c (ep_state l) s = (a, s1)"
    and s2: "s2 = (if batch_size c < length (agent_memory s1)
                   then sac_updates X c (updates_per_step c) s1 else s1)"
    and s': "s' = s2\<lparr>env := e', total_numsteps := Suc (total_numsteps s2),
       agent_memory := push (agent_memory s2) (ep_state l) a
         (get_reward X (reward_network s2) (ep_state l) a) ns
         (if Suc (episode_steps l) = episode_len c then 1 else if d then 0 else 1),
       reward_network := push_data X (reward_network s2) (ep_state l) a r
         (Suc (episode_steps l) mod episode_len c = 0 \<or> d),
       calls := calls s2 @ [CEnvStep, CGetReward, CPush,
         CPushData (Suc (episode_steps l) mod episode_len c = 0 \<or> d)]\<rparr>"
    and l': "l' = l\<lparr>ep_state := ns, episode_reward := episode_reward l + r,
       episode_reward_prime := episode_reward_prime l +
         get_reward X (reward_network s2) (ep_state l) a,
       episode_steps := Suc (episode_steps l),
       ep_done := (Suc (episode_steps l) mod episode_len c = 0 \<or> d),
       episode_flag := (episode_flag l \<or> (env_type c = Metaworld \<and> \<not> episode_flag l \<and> info)),
       episode_succ := (episode_succ l \<or> (env_type c = Metaworld \<and> \<not> episode_flag l \<and> info))\<rparr>"
  have mem: "agent_memory s2 = agent_memory s"
    using step_pre_fields [OF ca s2] by simp
  have lt: "Suc (episode_steps l) < episode_len c \<Longrightarrow> Suc (episode_steps l) mod episode_len c \<noteq> 0"
    by simp
  show ?thesis
    using assms(2) lt by (auto simp: s' l' mem push_def)
qed

section \<open>The step loop\<close>

function run_steps ::
  "('s, 'a, 'e, 'g, 'm) ext \<Rightarrow> cfg \<Rightarrow> ('s, 'a, 'e, 'g, 'm) oprrl \<Rightarrow> 's ep_locals \<Rightarrow>
   py_error + ('s, 'a, 'e, 'g, 'm) oprrl \<times> 's ep_locals" where
  "run_steps X c s l =
     (if ep_done l then Inr (s, l)
      else sbind (step_once X c s l) (\<lambda>(s', l'). run_steps X c s' l'))"
  by pat_completeness auto
termination
  by (relation "measure (\<lambda>(X, c, s, l). if ep_done l then 0
                   else Suc (episode_len c - episode_steps l mod episode_len c))")
     (auto dest: step_once_decreases)

declare run_steps.simps [simp del]

lemma run_steps_unfold:
  "run_steps X c s l =
     (if ep_done l then Inr (s, l)
      else sbind (step_once X c s l) (\<lambda>(s', l'). run_steps X c s' l'))"
  by (rule run_steps.simps)

lemma run_steps_stop [oprrl_eval]: "ep_done l \<Longrightarrow> run_steps X c s l = Inr (s, l)"
  by (simp add: run_steps_unfold [of X c s l])

lemma run_steps_continue [oprrl_eval]:
  "\<not> ep_done l \<Longrightarrow>
   run_steps X c s l = sbind (step_once X c s l) (\<lambda>(s', l'). run_steps X c s' l')"
  by (simp add: run_steps_unfold [of X c s l])

lemma run_steps_total:
  "0 < episode_len c \<Longrightarrow> \<exists>s' l'. run_steps X c s l = Inr (s', l')"
proof (induction X c s l rule: run_steps.induct)
  case (1 X c s l)
  show ?case
  proof (cases "ep_done l")
    case True
    then show ?thesis by (simp add: run_steps_unfold [of X c s l])
  next
    case False
    obtain s1 l1 where st: "step_once X c s l = Inr (s1, l1)"
      using step_once_total [OF "1.prems"] by blast
    have "\<exists>s' l'. run_steps X c s1 l1 = Inr (s', l')"
      using "1.IH" [OF False st] "1.prems" by simp
    then show ?thesis by (simp add: run_steps_unfold [of X c s l] False st)
  qed
qed

lemma run_steps_error:
  "episode_len c = 0 \<Longrightarrow> \<not> ep_done l \<Longrightarrow> run_steps X c s l = Inl ZeroDivisionError"
  by (simp add: run_steps_unfold [of X c s l] step_once_error)

lemma run_steps_done:
  "run_steps X c s l = Inr (s', l') \<Longrightarrow> ep_done l'"
proof (induction X c s l rule: run_steps.induct)
  case (1 X c s l)
  then show ?case
    by (cases "ep_done l")
       (auto simp: run_steps_unfold [of X c s l] sbind_eq_Inr)
qed

lemma run_steps_frame:
  "run_steps X c s l = Inr (s', l') \<Longrightarrow>
   i_episode s' = i_episode s \<and> rank_count s' = rank_count s \<and> rank_num s' = rank_num s \<and>
   total_numsteps s' = total_numsteps s + (episode_steps l' - episode_steps l) \<and>
   length (agent_memory s') = length (agent_memory s) + (episode_steps l' - episode_steps l) \<and>
   episode_steps l \<le> episode_steps l' \<and>
   e_reward_list s' = e_reward_list s \<and> e_reward_prime_list s' = e_reward_prime_list s \<and>
   episode_len_list s' = episode_len_list s \<and>
   (\<exists>cs. calls s' = calls s @ cs \<and> list_all step_call cs \<and>
         filter train_action cs = replicate (episode_steps l' - episode_steps l) (action_call c (i_episode s)) \<and>
         updates s' = updates s + length (filter is_update cs))"
proof (induction X c s l arbitrary: s' l' rule: run_steps.induct)
  case (1 X c s l)
  show ?case
  proof (cases "ep_done l")
    case True
    with "1.prems" show ?thesis by (auto simp: run_steps_unfold [of X c s l])
  next
    case False
    with "1.prems" obtain s1 l1 where st: "step_once X c s l = Inr (s1, l1)"
      and rs: "run_steps X c s1 l1 = Inr (s', l')"
      by (auto simp: run_steps_unfold [of X c s l] sbind_eq_Inr)
    from "1.IH" [OF False st _ rs] have ih: "i_episode s' = i_episode s1 \<and>
      rank_count s' = rank_count s1 \<and> rank_num s' = rank_num s1 \<and>
      total_numsteps s' = total_numsteps s1 + (episode_steps l' - episode_steps l1) \<and>
      length (agent_memory s') = length (agent_memory s1) + (episode_steps l' - episode_steps l1) \<and>
      episode_steps l1 \<le> episode_steps l' \<and>
      e_reward_list s' = e_reward_list s1 \<and> e_reward_prime_list s' = e_reward_prime_list s1 \<and>
      episode_len_list s' = episode_len_list s1 \<and>
      (\<exists>cs. calls s' = calls s1 @ cs \<and> list_all step_call cs \<and>
            filter train_action cs = replicate (episode_steps l' - episode_steps l1) (action_call c (i_episode s1)) \<and>
            updates s' = updates s1 + length (filter is_update cs))"
      by simp
    have "replicate (episode_steps l' - episode_steps l) a =
          a # replicate (episode_steps l' - episode_steps l1) a" for a :: call
    proof -
      have "episode_steps l' - episode_steps l = Suc (episode_steps l' - episode_steps l1)"
        using step_once_frame [OF st] ih by linarith
      then show ?thesis by simp
    qed
    with step_once_frame [OF st] ih show ?thesis by fastforce
  qed
qed


section \<open>Properties of the step session\<close>

text \<open>
  C1. Terminal mask. Over the steps of one episode started with fewer than
  \<open>episode_len\<close> steps taken, the memory grows by one transition per step; every
  transition but the last has mask 1, and the last has mask 0 exactly when the episode
  ended before the step budget, that is by the environment's own termination. An
  episode cut at \<open>episode_len\<close> steps ends with mask 1, so the value target keeps
  bootstrapping through the artificial truncation (line 215).
\<close>

theorem episode_masks:
  assumes "run_steps X c s l = Inr (s', l')" and "\<not> ep_done l"
    and "episode_steps l < episode_len c"
  shows "\<exists>ts. agent_memory s' = agent_memory s @ ts \<and>
             length ts = episode_steps l' - episode_steps l \<and>
             episode_steps l < episode_steps l' \<and> episode_steps l' \<le> episode_len c \<and>
             (\<forall>t\<in>set (butlast ts). t_mask t = 1) \<and>
             t_mask (last ts) = (if episode_steps l' < episode_len c then 0 else 1)"
  using assms
proof (induction X c s l arbitrary: s' l' rule: run_steps.induct)
  case (1 X c s l)
  from "1.prems"(1,2) obtain s1 l1 where st: "step_once X c s l = Inr (s1, l1)"
    and rs: "run_steps X c s1 l1 = Inr (s', l')"
    by (auto simp: run_steps_unfold [of X c s l] sbind_eq_Inr)
  from step_once_pushed [OF st "1.prems"(3)] obtain t where
    m: "agent_memory s1 = agent_memory s @ [t]" and
    mk: "t_mask t = (if episode_steps l1 < episode_len c \<and> ep_done l1 then 0 else 1)" and
    sl: "episode_steps l1 = Suc (episode_steps l)" and le: "episode_steps l1 \<le> episode_len c" and
    fin: "episode_steps l1 = episode_len c \<longrightarrow> ep_done l1"
    by blast
  show ?case
  proof (cases "ep_done l1")
    case True
    with rs have "s' = s1" and "l' = l1" by (simp_all add: run_steps_stop)
    then show ?thesis using m mk sl le True by (intro exI [of _ "[t]"]) auto
  next
    case False
    with fin le have lt: "episode_steps l1 < episode_len c" by auto
    from "1.IH" [OF "1.prems"(2) st _ rs False lt] obtain ts where
      ih: "agent_memory s' = agent_memory s1 @ ts \<and>
           length ts = episode_steps l' - episode_steps l1 \<and>
           episode_steps l1 < episode_steps l' \<and> episode_steps l' \<le> episode_len c \<and>
           (\<forall>t\<in>set (butlast ts). t_mask t = 1) \<and>
           t_mask (last ts) = (if episode_steps l' < episode_len c then 0 else 1)"
      by auto
    then have ne: "ts \<noteq> []" by auto
    show ?thesis
    proof (intro exI [of _ "t # ts"] conjI)
      show "\<forall>u\<in>set (butlast (t # ts)). t_mask u = 1"
        using ih ne mk False by auto
    qed (use ih ne m sl in auto)
  qed
qed

theorem episode_masks_witness:
  "\<exists>s' l'. run_steps toy_ext toy_cfg (fst (reset_episode toy_ext toy_state))
              (snd (reset_episode toy_ext toy_state)) = Inr (s', l') \<and>
     \<not> ep_done (snd (reset_episode toy_ext toy_state)) \<and>
     episode_steps (snd (reset_episode toy_ext toy_state)) < episode_len toy_cfg \<and>
     (\<exists>ts. agent_memory s' = agent_memory (fst (reset_episode toy_ext toy_state)) @ ts \<and>
        length ts = episode_steps l' - episode_steps (snd (reset_episode toy_ext toy_state)) \<and>
        episode_steps (snd (reset_episode toy_ext toy_state)) < episode_steps l' \<and>
        episode_steps l' \<le> episode_len toy_cfg \<and>
        (\<forall>t\<in>set (butlast ts). t_mask t = 1) \<and>
        t_mask (last ts) = (if episode_steps l' < episode_len toy_cfg then 0 else 1))"
proof -
  have h1: "\<not> ep_done (snd (reset_episode toy_ext toy_state))"
    and h2: "episode_steps (snd (reset_episode toy_ext toy_state)) < episode_len toy_cfg"
    by (simp_all add: oprrl_eval)
  have pos: "0 < episode_len toy_cfg" by (simp add: toy_cfg_def)
  then obtain s' l' where r: "run_steps toy_ext toy_cfg (fst (reset_episode toy_ext toy_state))
      (snd (reset_episode toy_ext toy_state)) = Inr (s', l')"
    using run_steps_total by blast
  show ?thesis using episode_masks [OF r h1 h2] r h1 h2 by blast
qed

text \<open>
  C2. Order of one step. A step first chooses its action (a random one in the
  warm-up episodes, the policy's afterwards), then makes \<open>updates_per_step\<close> agent
  updates if the memory holds more than \<open>batch_size\<close> transitions, each with the
  current update counter and under the rule of the episode, and only then steps the
  environment, scores the transition and pushes it to the memory and to the reward
  network's trajectory log: updates train on data collected before this step.
\<close>

theorem step_call_order:
  assumes "step_once X c s l = Inr (s', l')"
  shows "calls s' = calls s @
           [if i_episode s \<le> start_episodes c then CRandomAction else CSelectAction False] @
           map (CUpdate (update_rule c (i_episode s)))
             [updates s ..< updates s + (if batch_size c < length (agent_memory s)
                                         then updates_per_step c else 0)] @
           [CEnvStep, CGetReward, CPush, CPushData (ep_done l')]"
  using assms by (elim step_once_InrE) (auto dest!: step_pre_fields)

theorem step_call_order_witness:
  "\<exists>s' l'. step_once toy_ext toy_cfg (toy_state\<lparr>i_episode := 3,
       agent_memory := replicate 2 \<lparr>t_state = 0, t_action = 0, t_reward = 0, t_next_state = 0,
                                       t_mask = 1\<rparr>\<rparr>)
       (snd (reset_episode toy_ext toy_state)) = Inr (s', l') \<and>
     calls s' = [CSelectAction False, CUpdate MainRule 0, CUpdate MainRule 1,
                 CEnvStep, CGetReward, CPush, CPushData (ep_done l')]"
proof -
  let ?s = "toy_state\<lparr>i_episode := 3,
       agent_memory := replicate 2 \<lparr>t_state = 0, t_action = 0, t_reward = 0, t_next_state = 0,
                                       t_mask = 1\<rparr>\<rparr>"
  have pos: "0 < episode_len toy_cfg" by (simp add: toy_cfg_def)
  then obtain s' l' where r: "step_once toy_ext toy_cfg ?s (snd (reset_episode toy_ext toy_state)) = Inr (s', l')"
    using step_once_total by blast
  have "calls s' = [CSelectAction False, CUpdate MainRule 0, CUpdate MainRule 1,
                    CEnvStep, CGetReward, CPush, CPushData (ep_done l')]"
    using step_call_order [OF r] by (simp add: oprrl_eval upt_rec)
  with r show ?thesis by blast
qed

text \<open>
  C3. The step loop ends. From the start of an episode, the loop returns an episode
  that is done after between 1 and \<open>episode_len\<close> steps whenever \<open>episode_len > 0\<close>,
  whatever the environment does; with \<open>episode_len = 0\<close> the first step raises
  \<open>ZeroDivisionError\<close> at the truncation test of line 217.
\<close>

theorem step_loop_terminates:
  assumes "\<not> ep_done l" and "episode_steps l = 0"
  shows "(episode_len c = 0 \<longrightarrow> run_steps X c s l = Inl ZeroDivisionError) \<and>
         (0 < episode_len c \<longrightarrow>
           (\<exists>s' l'. run_steps X c s l = Inr (s', l') \<and> ep_done l' \<and>
                    total_numsteps s' = total_numsteps s + episode_steps l' \<and>
                    1 \<le> episode_steps l'))"
proof (intro conjI impI)
  assume "episode_len c = 0"
  then show "run_steps X c s l = Inl ZeroDivisionError" using assms(1) by (rule run_steps_error)
next
  assume pos: "0 < episode_len c"
  then obtain s' l' where r: "run_steps X c s l = Inr (s', l')" using run_steps_total by blast
  have "episode_steps l \<noteq> episode_steps l'"
  proof
    assume eq: "episode_steps l = episode_steps l'"
    from r assms(1) obtain s1 l1 where "step_once X c s l = Inr (s1, l1)"
      and "run_steps X c s1 l1 = Inr (s', l')"
      by (auto simp: run_steps_unfold [of X c s l] sbind_eq_Inr)
    then have "episode_steps l1 = Suc (episode_steps l)" and "episode_steps l1 \<le> episode_steps l'"
      using step_once_frame run_steps_frame by blast+
    with eq show False by simp
  qed
  then show "\<exists>s' l'. run_steps X c s l = Inr (s', l') \<and> ep_done l' \<and>
               total_numsteps s' = total_numsteps s + episode_steps l' \<and> 1 \<le> episode_steps l'"
    using r run_steps_done [OF r] run_steps_frame [OF r] assms(2) by auto
qed

theorem step_loop_terminates_witness:
  "\<not> ep_done (snd (reset_episode toy_ext toy_state)) \<and>
   episode_steps (snd (reset_episode toy_ext toy_state)) = 0 \<and>
   (\<exists>s' l'. run_steps toy_ext toy_cfg (fst (reset_episode toy_ext toy_state))
              (snd (reset_episode toy_ext toy_state)) = Inr (s', l') \<and> ep_done l' \<and>
       total_numsteps s' = total_numsteps (fst (reset_episode toy_ext toy_state)) + episode_steps l' \<and>
       1 \<le> episode_steps l')"
proof -
  have h1: "\<not> ep_done (snd (reset_episode toy_ext toy_state))"
    and h2: "episode_steps (snd (reset_episode toy_ext toy_state)) = 0"
    by (simp_all add: oprrl_eval)
  have pos: "0 < episode_len toy_cfg" by (simp add: toy_cfg_def)
  show ?thesis
    using step_loop_terminates [OF h1 h2, of toy_cfg toy_ext "fst (reset_episode toy_ext toy_state)"]
      h1 h2 pos by blast
qed

end
