(* ===== verification/Scheduler.thy ===== *)
theory Scheduler
  imports Interfaces
begin

text \<open>
  The frequency scheduler of \<^verbatim>\<open>OPRRL.train\<close> (\<^verbatim>\<open>src/main.py\<close>, lines 258--268),
  evaluated once per finished episode. The code keeps it in two locals,
  \<^verbatim>\<open>frequency_flag\<close> (1 or 2, here \<open>Exploratory\<close> or \<open>Converged\<close>) and
  \<^verbatim>\<open>reach_count\<close>, and sets the locals \<^verbatim>\<open>learn_frequency\<close> and
  \<^verbatim>\<open>num_to_rank\<close> from the configuration of the flag. The reachable states are an
  inductive predicate; their invariant, the one-way transition and the flip on the
  ninth qualifying episode are proved here.
\<close>

datatype freq_flag = Exploratory | Converged

text \<open>
  One evaluation: the result is the new flag, the new reach counter, and the
  \<open>(learn_frequency, num_to_rank)\<close> pair the episode uses. The two \<^verbatim>\<open>if\<close>s are
  sequential, so an episode that flips the flag already uses the converged
  configuration; a flag that is already \<open>Converged\<close> skips the first block, whose
  values the second block always overwrites (the \<open>0\<close>s never escape).
\<close>

definition frequency_block :: "cfg \<Rightarrow> real \<Rightarrow> freq_flag \<Rightarrow> nat \<Rightarrow> freq_flag \<times> nat \<times> nat \<times> nat" where
  "frequency_block c r f rc =
     (let (f1, rc1, lf1, n1) =
        (if f = Exploratory then
           (let rc' = (if change_flag_reward c < r then Suc rc else rc)
            in (if 8 < rc' then Converged else Exploratory, rc',
                learn_reward_frequency_1 c, num_to_rank_1 c))
         else (f, rc, 0, 0))
      in if f1 = Converged then (f1, rc1, learn_reward_frequency c, num_to_rank c)
         else (f1, rc1, lf1, n1))"

text \<open>The scheduler states reachable from the start of \<^verbatim>\<open>train\<close> (flag 1, count 0).\<close>

inductive sched_reach :: "cfg \<Rightarrow> freq_flag \<times> nat \<Rightarrow> bool" for c where
  start: "sched_reach c (Exploratory, 0)"
| step: "sched_reach c (f, rc) \<Longrightarrow> frequency_block c r f rc = (f', rc', lf, n) \<Longrightarrow>
         sched_reach c (f', rc')"

text \<open>The scheduler over the returns of successive episodes.\<close>

fun sched_run :: "cfg \<Rightarrow> real list \<Rightarrow> freq_flag \<times> nat \<Rightarrow> freq_flag \<times> nat" where
  "sched_run c [] st = st"
| "sched_run c (r # rs) (f, rc) =
     (case frequency_block c r f rc of (f', rc', _) \<Rightarrow> sched_run c rs (f', rc'))"

inductive_cases sched_reach_stepE: "sched_reach c (f', rc')"

definition sched_inv :: "freq_flag \<times> nat \<Rightarrow> bool" where
  "sched_inv st \<longleftrightarrow> (fst st = Exploratory \<and> snd st \<le> 8) \<or> (fst st = Converged \<and> snd st = 9)"

lemma frequency_block_Exploratory:
  "frequency_block c r Exploratory rc =
     (let rc' = (if change_flag_reward c < r then Suc rc else rc)
      in if 8 < rc' then (Converged, rc', learn_reward_frequency c, num_to_rank c)
         else (Exploratory, rc', learn_reward_frequency_1 c, num_to_rank_1 c))"
  by (simp add: frequency_block_def Let_def)

lemma frequency_block_Converged [simp]:
  "frequency_block c r Converged rc = (Converged, rc, learn_reward_frequency c, num_to_rank c)"
  by (simp add: frequency_block_def)

lemma frequency_block_inv:
  "sched_inv (f, rc) \<Longrightarrow> frequency_block c r f rc = (f', rc', lf, n) \<Longrightarrow> sched_inv (f', rc')"
  by (cases f) (auto simp: sched_inv_def frequency_block_Exploratory Let_def split: if_splits)

lemma sched_reach_inv: "sched_reach c st \<Longrightarrow> sched_inv st"
proof (induction rule: sched_reach.induct)
  case start
  then show ?case by (simp add: sched_inv_def)
next
  case (step f rc r f' rc' lf n)
  from step.IH step.hyps(2) show ?case by (rule frequency_block_inv)
qed

lemma sched_run_reach: "sched_reach c st \<Longrightarrow> sched_reach c (sched_run c rs st)"
proof (induction rs arbitrary: st)
  case Nil
  then show ?case by simp
next
  case (Cons r rs)
  obtain f rc where st: "st = (f, rc)" by fastforce
  obtain f' rc' lf n where fb: "frequency_block c r f rc = (f', rc', lf, n)"
    by (cases "frequency_block c r f rc") auto
  have "sched_reach c (f', rc')" using Cons.prems st fb by (auto intro: sched_reach.step)
  then show ?case using Cons.IH st fb by simp
qed


lemma sched_reach_Exploratory: "k \<le> 8 \<Longrightarrow> sched_reach c (Exploratory, k)"
proof (induction k)
  case 0
  show ?case by (rule sched_reach.start)
next
  case (Suc k)
  have "frequency_block c (change_flag_reward c + 1) Exploratory k =
        (Exploratory, Suc k, learn_reward_frequency_1 c, num_to_rank_1 c)"
    using Suc.prems by (simp add: frequency_block_Exploratory)
  with Suc show ?case by (auto intro: sched_reach.step)
qed

lemma sched_run_Converged [simp]: "sched_run c rs (Converged, rc) = (Converged, rc)"
  by (induction rs) auto

lemma sched_run_Exploratory:
  "k \<le> 8 \<Longrightarrow>
   sched_run c rs (Exploratory, k) =
     (let q = k + length (filter (\<lambda>r. change_flag_reward c < r) rs)
      in (if 9 \<le> q then Converged else Exploratory, min 9 q))"
proof (induction rs arbitrary: k)
  case Nil
  then show ?case by simp
next
  case (Cons r rs)
  show ?case
  proof (cases "change_flag_reward c < r")
    case True
    show ?thesis
    proof (cases "k = 8")
      case True
      with \<open>change_flag_reward c < r\<close> show ?thesis by (simp add: frequency_block_Exploratory)
    next
      case False
      with Cons.prems have "Suc k \<le> 8" by simp
      with Cons.IH [of "Suc k"] \<open>change_flag_reward c < r\<close> False Cons.prems show ?thesis
        by (simp add: frequency_block_Exploratory Let_def)
    qed
  next
    case False
    with Cons.IH [OF Cons.prems] Cons.prems show ?thesis
      by (simp add: frequency_block_Exploratory Let_def)
  qed
qed

section \<open>Properties of the scheduler\<close>

text \<open>
  C4. Reachable scheduler states. The states the scheduler reaches from the start of
  \<^verbatim>\<open>train\<close> are exactly the exploratory states with a reach counter of at most 8
  and the converged state with counter 9: the counter never passes 9, and the flag is
  \<open>Converged\<close> exactly when the counter has passed 8.
\<close>

theorem sched_reach_iff:
  "sched_reach c st \<longleftrightarrow> sched_inv st"
proof
  assume "sched_reach c st"
  then show "sched_inv st" by (rule sched_reach_inv)
next
  assume inv: "sched_inv st"
  show "sched_reach c st"
  proof (cases "fst st")
    case Exploratory
    with inv have "st = (Exploratory, snd st)" and "snd st \<le> 8"
      by (auto simp: sched_inv_def prod_eq_iff)
    then show ?thesis using sched_reach_Exploratory by metis
  next
    case Converged
    with inv have st: "st = (Converged, 9)" by (auto simp: sched_inv_def prod_eq_iff)
    have "frequency_block c (change_flag_reward c + 1) Exploratory 8 =
          (Converged, 9, learn_reward_frequency c, num_to_rank c)"
      by (simp add: frequency_block_Exploratory)
    then show ?thesis unfolding st
      using sched_reach_Exploratory [of 8 c] by (auto intro: sched_reach.step)
  qed
qed

theorem sched_reach_iff_witness:
  "sched_reach toy_cfg (Converged, 9) \<and> sched_inv (Converged, 9)"
proof -
  have "sched_inv (Converged, 9)" by (simp add: sched_inv_def)
  then show ?thesis using sched_reach_iff [of toy_cfg "(Converged, 9)"] by simp
qed

text \<open>
  C5. Phase monotonicity. From a reachable state, one evaluation of the scheduler never
  leaves \<open>Converged\<close> (and then leaves the counter alone), increments the counter by
  at most one, sets the flag to \<open>Converged\<close> exactly when the counter exceeds 8, and
  hands the episode the configuration of the new flag: \<open>(learn_reward_frequency,
  num_to_rank)\<close> when converged, \<open>(learn_reward_frequency_1, num_to_rank_1)\<close> while
  exploring.
\<close>

theorem sched_step_one_way:
  assumes "sched_reach c (f, rc)" and "frequency_block c r f rc = (f', rc', lf, n)"
  shows "(f = Converged \<longrightarrow> f' = Converged \<and> rc' = rc) \<and>
         rc \<le> rc' \<and> rc' \<le> Suc rc \<and>
         (f' = Converged \<longleftrightarrow> 8 < rc') \<and>
         (lf, n) = (if f' = Converged then (learn_reward_frequency c, num_to_rank c)
                    else (learn_reward_frequency_1 c, num_to_rank_1 c))"
proof -
  have inv: "sched_inv (f, rc)" using assms(1) by (rule sched_reach_inv)
  show ?thesis
  proof (cases f)
    case Exploratory
    with inv assms(2) show ?thesis
      by (auto simp: sched_inv_def frequency_block_Exploratory Let_def split: if_splits)
  next
    case Converged
    with inv assms(2) show ?thesis by (auto simp: sched_inv_def)
  qed
qed

theorem sched_step_one_way_witness:
  "sched_reach toy_cfg (Exploratory, 8) \<and>
   frequency_block toy_cfg 3 Exploratory 8 = (Converged, 9, 3, 2) \<and>
   (8::nat) \<le> 9 \<and> (9::nat) \<le> Suc 8 \<and> (Converged = Converged \<longleftrightarrow> (8::nat) < 9) \<and>
   ((3::nat), (2::nat)) = (learn_reward_frequency toy_cfg, num_to_rank toy_cfg)"
proof -
  have r: "sched_reach toy_cfg (Exploratory, 8)" by (rule sched_reach_Exploratory) simp
  have b: "frequency_block toy_cfg 3 Exploratory 8 = (Converged, 9, 3, 2)"
    by (simp add: frequency_block_Exploratory toy_cfg_def)
  show ?thesis using sched_step_one_way [OF r b] r b by simp
qed

text \<open>
  C6. The flip. Started as \<^verbatim>\<open>train\<close> starts it, after the episodes with returns
  \<open>rs\<close> the reach counter is the number of returns above \<open>change_flag_reward\<close>,
  capped at 9, and the flag is \<open>Converged\<close> exactly when there were at least nine: the
  flag flips on the episode that completes the ninth qualifying return and never
  flips back (spec section 8, scenario).
\<close>

theorem sched_run_flip:
  "sched_run c rs (Exploratory, 0) =
     (let q = length (filter (\<lambda>r. change_flag_reward c < r) rs)
      in (if 9 \<le> q then Converged else Exploratory, min 9 q))"
  using sched_run_Exploratory [of 0 c rs] by simp

theorem sched_run_flip_witness:
  "sched_run (toy_cfg\<lparr>change_flag_reward := 100\<rparr>)
      [101, 50, 101, 101, 101, 101, 101, 101, 101] (Exploratory, 0) = (Exploratory, 8) \<and>
   sched_run (toy_cfg\<lparr>change_flag_reward := 100\<rparr>)
      [101, 50, 101, 101, 101, 101, 101, 101, 101, 120] (Exploratory, 0) = (Converged, 9)"
  by (simp add: sched_run_flip)

end
