(* ===== verification/RewardLearning.thy ===== *)
theory RewardLearning
  imports Steps Scheduler
begin

text \<open>
  Reward learning in \<^verbatim>\<open>src/main.py\<close>: \<^verbatim>\<open>OPRRL.learn_reward\<close> (lines 133--150),
  the ranking round that \<^verbatim>\<open>train\<close> runs after an episode (lines 270--284) and the
  one-time pretrain-exit event (lines 288--297). Each fit of the reward network and
  each relabelling of the memory is recorded as a call, so that the number of fits,
  their order relative to relabelling and to agent updates, and the labels left in the
  memory can be stated. \<open>fit_seq\<close> is not code: it names the accuracies and the
  model produced by a number of successive fits, to state which fits a routine made.
\<close>

section \<open>Operations\<close>

text \<open>\<^verbatim>\<open>self.reward_network.learn_reward_soft()\<close>, one fit step.\<close>

definition learn_soft_once ::
  "('s, 'a, 'e, 'g, 'm) ext \<Rightarrow> ('s, 'a, 'e, 'g, 'm) oprrl \<Rightarrow> real \<times> ('s, 'a, 'e, 'g, 'm) oprrl" where
  "learn_soft_once X s =
     (let (acc, m') = learn_reward_soft X (reward_network s)
      in (acc, s\<lparr>reward_network := m', calls := calls s @ [CLearnSoft]\<rparr>))"

text \<open>
  Lines 137--141: up to \<open>n\<close> fits, collecting the accuracies, stopping after the first
  accuracy above 0.97 when \<open>early_break\<close> is set. Lines 289--290 are the same loop
  with \<open>n = 10\<close> and no early stop.
\<close>

fun soft_fits ::
  "('s, 'a, 'e, 'g, 'm) ext \<Rightarrow> nat \<Rightarrow> bool \<Rightarrow> ('s, 'a, 'e, 'g, 'm) oprrl \<Rightarrow>
   real list \<times> ('s, 'a, 'e, 'g, 'm) oprrl" where
  "soft_fits X 0 eb s = ([], s)"
| "soft_fits X (Suc n) eb s =
     (let (acc, s1) = learn_soft_once X s
      in if eb \<and> 97 / 100 < acc then ([acc], s1)
         else (let (accs, s2) = soft_fits X n eb s1 in (acc # accs, s2)))"

text \<open>Lines 148 and 291: \<^verbatim>\<open>self.agent_memory.relabel_memory(self.reward_network)\<close>.\<close>

definition relabel_step ::
  "('s, 'a, 'e, 'g, 'm) ext \<Rightarrow> ('s, 'a, 'e, 'g, 'm) oprrl \<Rightarrow> ('s, 'a, 'e, 'g, 'm) oprrl" where
  "relabel_step X s =
     s\<lparr>agent_memory := relabel_memory (get_reward X (reward_network s)) (agent_memory s),
       calls := calls s @ [CRelabel]\<rparr>"

text \<open>Lines 133--150: \<^verbatim>\<open>learn_reward(num_learn_reward, early_break, relabel_memory)\<close>.\<close>

definition learn_reward ::
  "('s, 'a, 'e, 'g, 'm) ext \<Rightarrow> nat \<Rightarrow> bool \<Rightarrow> bool \<Rightarrow> ('s, 'a, 'e, 'g, 'm) oprrl \<Rightarrow>
   real option \<times> ('s, 'a, 'e, 'g, 'm) oprrl" where
  "learn_reward X num eb rl s =
     (let (accs, s1) = (if 5 \<le> rank_count s then soft_fits X num eb s
                        else (let (acc, s') = learn_soft_once X s in ([acc], s')));
          s2 = (if rl then relabel_step X s1 else s1)
      in (np_mean accs, s2))"

text \<open>
  Lines 270--284: the ranking round of an episode, with the flag, the learning
  frequency and the ranking batch the scheduler chose. The test evaluates
  \<^verbatim>\<open>self.i_episode % learn_frequency\<close> first, which raises on a zero frequency.
\<close>

definition learn_block ::
  "('s, 'a, 'e, 'g, 'm) ext \<Rightarrow> cfg \<Rightarrow> freq_flag \<Rightarrow> nat \<Rightarrow> nat \<Rightarrow>
   ('s, 'a, 'e, 'g, 'm) oprrl \<Rightarrow> py_error + ('s, 'a, 'e, 'g, 'm) oprrl" where
  "learn_block X c f lf ntr s =
     sbind (py_mod (i_episode s) lf) (\<lambda>m.
       if m = 0 \<and> rank_num s \<le> max_rank_num c then
         (let (k_tau, m') = rank X (reward_network s) ntr;
              s1 = s\<lparr>reward_network := m', rank_count := Suc (rank_count s),
                     rank_num := ranked_len X m', calls := calls s @ [CRank ntr]\<rparr>;
              (acc, s2) = (case f of Exploratory \<Rightarrow> learn_reward X 8 False True s1
                                  | Converged \<Rightarrow> learn_reward X (rank_count s1) True True s1)
          in Inr (if wandb_log c
                  then s2\<lparr>logs := logs s2 @ [LogRank acc k_tau (rank_count s2) (rank_num s2)]\<rparr>
                  else s2))
       else Inr s)"

text \<open>Lines 295--296: 100 updates with the main rule, all with the same update index.\<close>

primrec update_burst ::
  "('s, 'a, 'e, 'g, 'm) ext \<Rightarrow> cfg \<Rightarrow> nat \<Rightarrow> ('s, 'a, 'e, 'g, 'm) oprrl \<Rightarrow>
   ('s, 'a, 'e, 'g, 'm) oprrl" where
  "update_burst X c 0 s = s"
| "update_burst X c (Suc n) s =
     update_burst X c n
       (let (_, g') = update_parameters X (agent s) (agent_memory s) (batch_size c) (updates s)
        in s\<lparr>agent := g', calls := calls s @ [CUpdate MainRule (updates s)]\<rparr>)"

text \<open>Lines 288--297: the pretrain-exit event.\<close>

definition pretrain_exit ::
  "('s, 'a, 'e, 'g, 'm) ext \<Rightarrow> cfg \<Rightarrow> ('s, 'a, 'e, 'g, 'm) oprrl \<Rightarrow> ('s, 'a, 'e, 'g, 'm) oprrl" where
  "pretrain_exit X c s =
     (if i_episode s = start_episodes c + pretrain_episodes c \<and> 0 < pretrain_episodes c then
        (let s1 = snd (soft_fits X 10 False s);
             s2 = relabel_step X s1;
             s3 = s2\<lparr>agent := reset_critic X (agent s2), calls := calls s2 @ [CResetCritic]\<rparr>;
             s4 = s3\<lparr>agent := reset_actor X (agent s3), calls := calls s3 @ [CResetActor]\<rparr>
         in update_burst X c 100 s4)
      else s)"

text \<open>The accuracies and the model after \<open>k\<close> successive fits from model \<open>m\<close>.\<close>

fun fit_seq :: "('s, 'a, 'e, 'g, 'm) ext \<Rightarrow> 'm \<Rightarrow> nat \<Rightarrow> real list \<times> 'm" where
  "fit_seq X m 0 = ([], m)"
| "fit_seq X m (Suc k) =
     (let (a, m1) = learn_reward_soft X m; (as, m2) = fit_seq X m1 k in (a # as, m2))"

text \<open>
  A reference for the fit loop that does not break: run all \<open>n\<close> fits of the sequence
  and keep the accuracies up to and including the first that passes the test, and the
  model after that many fits. \<open>fits_until P xs\<close> is that prefix of \<open>xs\<close>.
\<close>

fun fits_until :: "('a \<Rightarrow> bool) \<Rightarrow> 'a list \<Rightarrow> 'a list" where
  "fits_until P [] = []"
| "fits_until P (a # as) = (if P a then [a] else a # fits_until P as)"

definition soft_fits_ref ::
  "('s, 'a, 'e, 'g, 'm) ext \<Rightarrow> nat \<Rightarrow> bool \<Rightarrow> ('s, 'a, 'e, 'g, 'm) oprrl \<Rightarrow>
   real list \<times> ('s, 'a, 'e, 'g, 'm) oprrl" where
  "soft_fits_ref X n eb s =
     (let accs = fits_until (\<lambda>a. eb \<and> 97 / 100 < a) (fst (fit_seq X (reward_network s) n))
      in (accs, s\<lparr>reward_network := snd (fit_seq X (reward_network s) (length accs)),
                 calls := calls s @ replicate (length accs) CLearnSoft\<rparr>))"

lemmas reward_learning_defs [oprrl_eval] =
  learn_soft_once_def relabel_step_def learn_reward_def learn_block_def pretrain_exit_def

section \<open>Facts about the operations\<close>

lemma learn_soft_once_eq:
  "learn_soft_once X s =
     (fst (learn_reward_soft X (reward_network s)),
      s\<lparr>reward_network := snd (learn_reward_soft X (reward_network s)),
        calls := calls s @ [CLearnSoft]\<rparr>)"
  by (simp add: learn_soft_once_def split: prod.splits)

lemma fit_seq_Suc_eq [simp]:
  "fit_seq X m (Suc k) =
     (fst (learn_reward_soft X m) # fst (fit_seq X (snd (learn_reward_soft X m)) k),
      snd (fit_seq X (snd (learn_reward_soft X m)) k))"
  by (simp split: prod.splits)

declare fit_seq.simps(2) [simp del]

lemma length_fit_seq [simp]: "length (fst (fit_seq X m k)) = k"
  by (induction k arbitrary: m) simp_all

text \<open>What the fit loop does: the first \<open>k\<close> fits of the sequence, and when it stops.\<close>

lemma soft_fits_result:
  assumes "soft_fits X n eb s = (accs, s')"
  shows "accs = fst (fit_seq X (reward_network s) (length accs)) \<and>
         s' = s\<lparr>reward_network := snd (fit_seq X (reward_network s) (length accs)),
                calls := calls s @ replicate (length accs) CLearnSoft\<rparr> \<and>
         length accs \<le> n \<and> (\<not> eb \<longrightarrow> length accs = n) \<and> (0 < n \<longrightarrow> accs \<noteq> []) \<and>
         (eb \<longrightarrow> (\<forall>a\<in>set (butlast accs). a \<le> 97 / 100)) \<and>
         (length accs < n \<longrightarrow> eb \<and> 97 / 100 < last accs)"
  using assms
proof (induction n arbitrary: s accs s')
  case 0
  then show ?case by simp
next
  case (Suc n)
  let ?a = "fst (learn_reward_soft X (reward_network s))"
  let ?m1 = "snd (learn_reward_soft X (reward_network s))"
  let ?s1 = "s\<lparr>reward_network := ?m1, calls := calls s @ [CLearnSoft]\<rparr>"
  show ?case
  proof (cases "eb \<and> 97 / 100 < ?a")
    case True
    with Suc.prems have "accs = [?a]" and "s' = ?s1"
      by (simp_all add: learn_soft_once_eq)
    with True show ?thesis by simp
  next
    case False
    obtain accs1 s2 where r: "soft_fits X n eb ?s1 = (accs1, s2)" by fastforce
    have "soft_fits X (Suc n) eb s = (?a # accs1, s2)"
      using False r by (auto simp: learn_soft_once_eq)
    with Suc.prems have accs: "accs = ?a # accs1" and s': "s' = s2" by simp_all
    from Suc.IH [OF r] have ih:
      "accs1 = fst (fit_seq X ?m1 (length accs1)) \<and>
       s2 = ?s1\<lparr>reward_network := snd (fit_seq X ?m1 (length accs1)),
                calls := calls ?s1 @ replicate (length accs1) CLearnSoft\<rparr> \<and>
       length accs1 \<le> n \<and> (\<not> eb \<longrightarrow> length accs1 = n) \<and> (0 < n \<longrightarrow> accs1 \<noteq> []) \<and>
       (eb \<longrightarrow> (\<forall>a\<in>set (butlast accs1). a \<le> 97 / 100)) \<and>
       (length accs1 < n \<longrightarrow> eb \<and> 97 / 100 < last accs1)"
      by simp
    show ?thesis
      using ih False unfolding accs s'
      by (auto simp: replicate_append_same [symmetric])
  qed
qed


text \<open>What \<open>learn_reward\<close> does: \<open>k\<close> fits of the sequence, then the relabelling.\<close>

lemma learn_reward_result:
  assumes "learn_reward X num eb rl s = (acc, s')"
  shows "\<exists>k. acc = np_mean (fst (fit_seq X (reward_network s) k)) \<and>
           s' = (if rl then relabel_step X (s\<lparr>reward_network := snd (fit_seq X (reward_network s) k),
                                              calls := calls s @ replicate k CLearnSoft\<rparr>)
                 else s\<lparr>reward_network := snd (fit_seq X (reward_network s) k),
                        calls := calls s @ replicate k CLearnSoft\<rparr>) \<and>
           (rank_count s < 5 \<longrightarrow> k = 1) \<and>
           (5 \<le> rank_count s \<longrightarrow> k \<le> num \<and> (\<not> eb \<longrightarrow> k = num) \<and> (0 < num \<longrightarrow> 0 < k) \<and>
              (eb \<longrightarrow> (\<forall>a\<in>set (butlast (fst (fit_seq X (reward_network s) k))). a \<le> 97 / 100)) \<and>
              (k < num \<longrightarrow> eb \<and> 97 / 100 < last (fst (fit_seq X (reward_network s) k))))"
proof (cases "5 \<le> rank_count s")
  case True
  obtain accs s1 where r: "soft_fits X num eb s = (accs, s1)" by fastforce
  with assms True have acc: "acc = np_mean accs" and s': "s' = (if rl then relabel_step X s1 else s1)"
    by (auto simp: learn_reward_def)
  from soft_fits_result [OF r] have "accs = fst (fit_seq X (reward_network s) (length accs)) \<and>
         s1 = s\<lparr>reward_network := snd (fit_seq X (reward_network s) (length accs)),
                calls := calls s @ replicate (length accs) CLearnSoft\<rparr> \<and>
         length accs \<le> num \<and> (\<not> eb \<longrightarrow> length accs = num) \<and> (0 < num \<longrightarrow> accs \<noteq> []) \<and>
         (eb \<longrightarrow> (\<forall>a\<in>set (butlast accs). a \<le> 97 / 100)) \<and>
         (length accs < num \<longrightarrow> eb \<and> 97 / 100 < last accs)" .
  then show ?thesis using True unfolding acc s' by (intro exI [of _ "length accs"]) auto
next
  case False
  with assms have "acc = np_mean [fst (learn_reward_soft X (reward_network s))]"
    and "s' = (let s1 = s\<lparr>reward_network := snd (learn_reward_soft X (reward_network s)),
                         calls := calls s @ [CLearnSoft]\<rparr>
              in if rl then relabel_step X s1 else s1)"
    by (auto simp: learn_reward_def learn_soft_once_eq)
  then show ?thesis using False by (intro exI [of _ 1]) simp
qed

lemma update_burst_shape:
  "\<exists>g. update_burst X c n s =
     s\<lparr>agent := g, calls := calls s @ replicate n (CUpdate MainRule (updates s))\<rparr>"
proof (induction n arbitrary: s)
  case 0
  show ?case by (rule exI [of _ "agent s"]) simp
next
  case (Suc n)
  let ?s1 = "s\<lparr>agent := snd (update_parameters X (agent s) (agent_memory s) (batch_size c) (updates s)),
               calls := calls s @ [CUpdate MainRule (updates s)]\<rparr>"
  have eq: "update_burst X c (Suc n) s = update_burst X c n ?s1"
    by (simp split: prod.splits)
  obtain g where "update_burst X c n ?s1 =
      ?s1\<lparr>agent := g, calls := calls ?s1 @ replicate n (CUpdate MainRule (updates ?s1))\<rparr>"
    using Suc.IH by metis
  then show ?case unfolding eq by (intro exI [of _ g]) (simp add: replicate_append_same [symmetric])
qed

text \<open>What a ranking round that fires does.\<close>

lemma learn_block_fires:
  assumes "0 < lf" and "i_episode s mod lf = 0" and "rank_num s \<le> max_rank_num c"
  shows "\<exists>s'. learn_block X c f lf ntr s = Inr s' \<and>
     (\<exists>acc lg. learn_reward X (case f of Exploratory \<Rightarrow> 8 | Converged \<Rightarrow> Suc (rank_count s))
                 (f = Converged) True
                 (s\<lparr>reward_network := snd (rank X (reward_network s) ntr),
                    rank_count := Suc (rank_count s),
                    rank_num := ranked_len X (snd (rank X (reward_network s) ntr)),
                    calls := calls s @ [CRank ntr]\<rparr>) = (acc, s'\<lparr>logs := lg\<rparr>))"
proof -
  obtain k_tau m' where rk: "rank X (reward_network s) ntr = (k_tau, m')" by fastforce
  let ?s1 = "s\<lparr>reward_network := m', rank_count := Suc (rank_count s),
                    rank_num := ranked_len X m', calls := calls s @ [CRank ntr]\<rparr>"
  obtain acc s2 where lr: "learn_reward X (case f of Exploratory \<Rightarrow> 8 | Converged \<Rightarrow> Suc (rank_count s))
                 (f = Converged) True ?s1 = (acc, s2)" by fastforce
  have lr': "(case f of Exploratory \<Rightarrow> learn_reward X 8 False True ?s1
                     | Converged \<Rightarrow> learn_reward X (rank_count ?s1) True True ?s1) = (acc, s2)"
    using lr by (cases f) simp_all
  let ?s3 = "if wandb_log c
             then s2\<lparr>logs := logs s2 @ [LogRank acc k_tau (rank_count s2) (rank_num s2)]\<rparr>
             else s2"
  have A: "learn_block X c f lf ntr s = Inr ?s3"
    using assms by (simp add: learn_block_def rk Let_def lr')
  have B: "learn_reward X (case f of Exploratory \<Rightarrow> 8 | Converged \<Rightarrow> Suc (rank_count s))
                 (f = Converged) True
                 (s\<lparr>reward_network := snd (rank X (reward_network s) ntr),
                    rank_count := Suc (rank_count s),
                    rank_num := ranked_len X (snd (rank X (reward_network s) ntr)),
                    calls := calls s @ [CRank ntr]\<rparr>) = (acc, ?s3\<lparr>logs := logs s2\<rparr>)"
    using lr rk by simp
  show ?thesis using A B by blast
qed

lemma learn_block_skips:
  "0 < lf \<Longrightarrow> \<not> (i_episode s mod lf = 0 \<and> rank_num s \<le> max_rank_num c) \<Longrightarrow>
   learn_block X c f lf ntr s = Inr s"
  by (auto simp: learn_block_def)

lemma learn_block_error: "learn_block X c f 0 ntr s = Inl ZeroDivisionError"
  by (simp add: learn_block_def)

text \<open>A ranking round that fires: the counters, the calls with the number \<open>k\<close> of fits,
  and the fields it keeps.\<close>

lemma learn_block_fired:
  assumes "0 < lf" and "i_episode s mod lf = 0" and "rank_num s \<le> max_rank_num c"
  shows "\<exists>s' k. learn_block X c f lf ntr s = Inr s' \<and>
     rank_count s' = Suc (rank_count s) \<and>
     rank_num s' = ranked_len X (snd (rank X (reward_network s) ntr)) \<and>
     calls s' = calls s @ [CRank ntr] @ replicate k CLearnSoft @ [CRelabel] \<and>
     (f = Exploratory \<longrightarrow> k = (if 4 \<le> rank_count s then 8 else 1)) \<and>
     (f = Converged \<longrightarrow> 1 \<le> k \<and> k \<le> Suc (rank_count s)) \<and>
     i_episode s' = i_episode s \<and> total_numsteps s' = total_numsteps s \<and>
     length (agent_memory s') = length (agent_memory s) \<and> updates s' = updates s \<and>
     map t_mask (agent_memory s') = map t_mask (agent_memory s) \<and>
     e_reward_list s' = e_reward_list s \<and> e_reward_prime_list s' = e_reward_prime_list s \<and>
     episode_len_list s' = episode_len_list s"
proof -
  let ?s1 = "s\<lparr>reward_network := snd (rank X (reward_network s) ntr),
               rank_count := Suc (rank_count s),
               rank_num := ranked_len X (snd (rank X (reward_network s) ntr)),
               calls := calls s @ [CRank ntr]\<rparr>"
  obtain s' acc lg where lb: "learn_block X c f lf ntr s = Inr s'" and
    lr: "learn_reward X (case f of Exploratory \<Rightarrow> 8 | Converged \<Rightarrow> Suc (rank_count s))
           (f = Converged) True ?s1 = (acc, s'\<lparr>logs := lg\<rparr>)"
    using learn_block_fires [OF assms] by metis
  from learn_reward_result [OF lr] obtain k where
    eq: "s'\<lparr>logs := lg\<rparr> = relabel_step X (?s1\<lparr>reward_network := snd (fit_seq X (reward_network ?s1) k),
                                            calls := calls ?s1 @ replicate k CLearnSoft\<rparr>)" and
    kk: "(Suc (rank_count s) < 5 \<longrightarrow> k = 1) \<and>
         (5 \<le> Suc (rank_count s) \<longrightarrow> k \<le> (case f of Exploratory \<Rightarrow> 8 | Converged \<Rightarrow> Suc (rank_count s)) \<and>
            (\<not> (f = Converged) \<longrightarrow> k = (case f of Exploratory \<Rightarrow> 8 | Converged \<Rightarrow> Suc (rank_count s))) \<and>
            (0 < (case f of Exploratory \<Rightarrow> 8 | Converged \<Rightarrow> Suc (rank_count s)) \<longrightarrow> 0 < k))"
    by auto
  have k1: "f = Exploratory \<longrightarrow> k = (if 4 \<le> rank_count s then 8 else 1)"
    using kk by auto
  have k2: "f = Converged \<longrightarrow> 1 \<le> k \<and> k \<le> Suc (rank_count s)"
    using kk by (cases "5 \<le> Suc (rank_count s)") auto
  have "rank_count s' = Suc (rank_count s) \<and>
     rank_num s' = ranked_len X (snd (rank X (reward_network s) ntr)) \<and>
     calls s' = calls s @ [CRank ntr] @ replicate k CLearnSoft @ [CRelabel] \<and>
     i_episode s' = i_episode s \<and> total_numsteps s' = total_numsteps s \<and>
     length (agent_memory s') = length (agent_memory s) \<and> updates s' = updates s \<and>
     map t_mask (agent_memory s') = map t_mask (agent_memory s) \<and>
     e_reward_list s' = e_reward_list s \<and> e_reward_prime_list s' = e_reward_prime_list s \<and>
     episode_len_list s' = episode_len_list s"
    using arg_cong [OF eq, of rank_count] arg_cong [OF eq, of rank_num] arg_cong [OF eq, of calls]
      arg_cong [OF eq, of i_episode] arg_cong [OF eq, of total_numsteps]
      arg_cong [OF eq, of "\<lambda>s. length (agent_memory s)"] arg_cong [OF eq, of updates]
      arg_cong [OF eq, of "\<lambda>s. map t_mask (agent_memory s)"]
      arg_cong [OF eq, of e_reward_list] arg_cong [OF eq, of e_reward_prime_list]
      arg_cong [OF eq, of episode_len_list]
    by (simp_all add: relabel_step_def)
  with lb k1 k2 show ?thesis by blast
qed


lemma pretrain_exit_fires:
  assumes "i_episode s = start_episodes c + pretrain_episodes c" and "0 < pretrain_episodes c"
  shows "\<exists>g. pretrain_exit X c s =
     s\<lparr>reward_network := snd (fit_seq X (reward_network s) 10),
       agent_memory := relabel_memory (get_reward X (snd (fit_seq X (reward_network s) 10)))
                         (agent_memory s),
       agent := g,
       calls := calls s @ replicate 10 CLearnSoft @ [CRelabel, CResetCritic, CResetActor] @
                replicate 100 (CUpdate MainRule (updates s))\<rparr>"
proof -
  obtain accs s1 where r: "soft_fits X 10 False s = (accs, s1)" by fastforce
  from soft_fits_result [OF r] have len: "length accs = 10"
    and s1: "s1 = s\<lparr>reward_network := snd (fit_seq X (reward_network s) (length accs)),
                    calls := calls s @ replicate (length accs) CLearnSoft\<rparr>"
    by simp_all
  let ?s4 = "(relabel_step X s1)\<lparr>agent := reset_actor X (reset_critic X (agent s)),
               calls := calls (relabel_step X s1) @ [CResetCritic, CResetActor]\<rparr>"
  have pe: "pretrain_exit X c s = update_burst X c 100 ?s4"
    using assms r by (simp add: pretrain_exit_def Let_def s1 relabel_step_def)
  obtain g where "update_burst X c 100 ?s4 =
      ?s4\<lparr>agent := g, calls := calls ?s4 @ replicate 100 (CUpdate MainRule (updates ?s4))\<rparr>"
    using update_burst_shape by metis
  then show ?thesis unfolding pe by (intro exI [of _ g]) (simp add: s1 len relabel_step_def)
qed

section \<open>Properties of reward learning\<close>

text \<open>
  C7. Refit count (spec section 8, refit minimum). \<open>learn_reward\<close> makes \<open>k\<close> fits of
  the reward network, in sequence, then relabels the memory if asked; it returns the
  mean of the \<open>k\<close> accuracies (NaN, here \<open>None\<close>, if \<open>k = 0\<close>). With fewer than 5
  ranking rounds done, \<open>k = 1\<close> whatever budget is asked; otherwise \<open>k\<close> is at most
  the budget, equals it without early break, is at least 1 for a positive budget, and
  is smaller than the budget only with early break after an accuracy above 0.97, every
  earlier accuracy being at most 0.97.
\<close>

theorem learn_reward_fits:
  assumes "learn_reward X num eb rl s = (acc, s')"
  shows "\<exists>k. calls s' = calls s @ replicate k CLearnSoft @ (if rl then [CRelabel] else []) \<and>
           reward_network s' = snd (fit_seq X (reward_network s) k) \<and>
           acc = np_mean (fst (fit_seq X (reward_network s) k)) \<and>
           (rank_count s < 5 \<longrightarrow> k = 1) \<and>
           (5 \<le> rank_count s \<longrightarrow> k \<le> num \<and> (0 < num \<longrightarrow> 1 \<le> k) \<and> (\<not> eb \<longrightarrow> k = num) \<and>
              (eb \<longrightarrow> (\<forall>a\<in>set (butlast (fst (fit_seq X (reward_network s) k))). a \<le> 97 / 100)) \<and>
              (k < num \<longrightarrow> eb \<and> 97 / 100 < last (fst (fit_seq X (reward_network s) k))))"
proof -
  from learn_reward_result [OF assms] obtain k where
    acc: "acc = np_mean (fst (fit_seq X (reward_network s) k))" and
    s': "s' = (if rl then relabel_step X (s\<lparr>reward_network := snd (fit_seq X (reward_network s) k),
                                              calls := calls s @ replicate k CLearnSoft\<rparr>)
                 else s\<lparr>reward_network := snd (fit_seq X (reward_network s) k),
                        calls := calls s @ replicate k CLearnSoft\<rparr>)" and
    rest: "(rank_count s < 5 \<longrightarrow> k = 1) \<and>
           (5 \<le> rank_count s \<longrightarrow> k \<le> num \<and> (\<not> eb \<longrightarrow> k = num) \<and> (0 < num \<longrightarrow> 0 < k) \<and>
              (eb \<longrightarrow> (\<forall>a\<in>set (butlast (fst (fit_seq X (reward_network s) k))). a \<le> 97 / 100)) \<and>
              (k < num \<longrightarrow> eb \<and> 97 / 100 < last (fst (fit_seq X (reward_network s) k))))"
    by blast
  show ?thesis using acc rest by (intro exI [of _ k]) (auto simp: s' relabel_step_def)
qed

theorem learn_reward_fits_witness:
  "\<exists>acc s'. learn_reward toy_ext 4 True True (toy_state\<lparr>rank_count := 5\<rparr>) = (acc, s') \<and>
     (\<exists>k. calls s' = calls (toy_state\<lparr>rank_count := 5\<rparr>) @ replicate k CLearnSoft @
                   (if True then [CRelabel] else []) \<and>
        reward_network s' = snd (fit_seq toy_ext (reward_network (toy_state\<lparr>rank_count := 5\<rparr>)) k) \<and>
        acc = np_mean (fst (fit_seq toy_ext (reward_network (toy_state\<lparr>rank_count := 5\<rparr>)) k)) \<and>
        (rank_count (toy_state\<lparr>rank_count := 5\<rparr>) < 5 \<longrightarrow> k = 1) \<and>
        (5 \<le> rank_count (toy_state\<lparr>rank_count := 5\<rparr>) \<longrightarrow> k \<le> 4 \<and> (0 < (4::nat) \<longrightarrow> 1 \<le> k) \<and>
           (\<not> True \<longrightarrow> k = 4) \<and>
           (True \<longrightarrow> (\<forall>a\<in>set (butlast (fst (fit_seq toy_ext
                (reward_network (toy_state\<lparr>rank_count := 5\<rparr>)) k))). a \<le> 97 / 100)) \<and>
           (k < 4 \<longrightarrow> True \<and> 97 / 100 < last (fst (fit_seq toy_ext
                (reward_network (toy_state\<lparr>rank_count := 5\<rparr>)) k)))))"
proof -
  obtain acc s' where r: "learn_reward toy_ext 4 True True (toy_state\<lparr>rank_count := 5\<rparr>) = (acc, s')"
    by fastforce
  show ?thesis by (rule exI [of _ acc], rule exI [of _ s'], rule conjI [OF r learn_reward_fits [OF r]])
qed

text \<open>
  C8. Relabel consistency (spec section 8). Right after \<open>learn_reward\<close> with
  relabelling, every transition in the memory carries the reward the refitted network
  gives its state and action, and states, actions, next states and masks are those of
  the memory before the refit, in the same order.
\<close>

theorem learn_reward_relabels:
  assumes "learn_reward X num eb True s = (acc, s')"
  shows "(\<forall>t\<in>set (agent_memory s'). t_reward t = get_reward X (reward_network s') (t_state t) (t_action t)) \<and>
         map keep_part (agent_memory s') = map keep_part (agent_memory s)"
proof -
  from learn_reward_result [OF assms] obtain k where
    s': "s' = relabel_step X (s\<lparr>reward_network := snd (fit_seq X (reward_network s) k),
                                 calls := calls s @ replicate k CLearnSoft\<rparr>)"
    by auto
  show ?thesis
    by (simp add: s' relabel_step_def relabel_memory_rewards relabel_memory_keep_part)
qed

theorem learn_reward_relabels_witness:
  "\<exists>acc s'. learn_reward toy_ext 8 False True
       (toy_state\<lparr>agent_memory := [\<lparr>t_state = 2, t_action = 1, t_reward = 0, t_next_state = 3,
                                     t_mask = 1\<rparr>]\<rparr>) = (acc, s') \<and>
     (\<forall>t\<in>set (agent_memory s'). t_reward t = get_reward toy_ext (reward_network s') (t_state t) (t_action t)) \<and>
     map keep_part (agent_memory s') = [(2, 1, 3, 1)]"
proof -
  let ?s = "toy_state\<lparr>agent_memory := [\<lparr>t_state = 2, t_action = 1, t_reward = 0, t_next_state = 3,
                                     t_mask = 1\<rparr>]\<rparr>"
  obtain acc s' where r: "learn_reward toy_ext 8 False True ?s = (acc, s')" by fastforce
  have "map keep_part (agent_memory ?s) = [(2, 1, 3, 1)]" by (simp add: keep_part_def)
  then show ?thesis using learn_reward_relabels [OF r] r by auto
qed

text \<open>
  C9. The ranking round. With a zero learning frequency the round raises
  \<open>ZeroDivisionError\<close>. Otherwise it fires exactly on the episodes that are a multiple
  of the frequency while the ranked pool is within \<open>max_rank_num\<close>, and leaves the
  state alone on the others. When it fires it ranks \<open>num_to_rank\<close> trajectories,
  counts the round, reads the pool size, makes \<open>k\<close> fits and relabels the memory:
  exploring, \<open>k\<close> is 8 once five rounds are done and 1 before; converged, \<open>k\<close> is
  between 1 and the new round count (early stop at an accuracy above 0.97).
\<close>

theorem ranking_round:
  "(lf = 0 \<longrightarrow> learn_block X c f lf ntr s = Inl ZeroDivisionError) \<and>
   (0 < lf \<and> \<not> (i_episode s mod lf = 0 \<and> rank_num s \<le> max_rank_num c) \<longrightarrow>
      learn_block X c f lf ntr s = Inr s) \<and>
   (0 < lf \<and> i_episode s mod lf = 0 \<and> rank_num s \<le> max_rank_num c \<longrightarrow>
      (\<exists>s' k. learn_block X c f lf ntr s = Inr s' \<and>
         rank_count s' = Suc (rank_count s) \<and>
         rank_num s' = ranked_len X (snd (rank X (reward_network s) ntr)) \<and>
         calls s' = calls s @ [CRank ntr] @ replicate k CLearnSoft @ [CRelabel] \<and>
         (f = Exploratory \<longrightarrow> k = (if 4 \<le> rank_count s then 8 else 1)) \<and>
         (f = Converged \<longrightarrow> 1 \<le> k \<and> k \<le> Suc (rank_count s))))"
proof (intro conjI impI)
  show "learn_block X c f lf ntr s = Inl ZeroDivisionError" if "lf = 0"
    using that by (simp add: learn_block_error)
next
  assume "0 < lf \<and> \<not> (i_episode s mod lf = 0 \<and> rank_num s \<le> max_rank_num c)"
  then show "learn_block X c f lf ntr s = Inr s" by (simp add: learn_block_skips)
next
  assume "0 < lf \<and> i_episode s mod lf = 0 \<and> rank_num s \<le> max_rank_num c"
  then have l: "0 < lf" "i_episode s mod lf = 0" "rank_num s \<le> max_rank_num c" by simp_all
  from learn_block_fired [OF l, of X f ntr] obtain s' k where
    lb: "learn_block X c f lf ntr s = Inr s'" and r1: "rank_count s' = Suc (rank_count s)"
    and r2: "rank_num s' = ranked_len X (snd (rank X (reward_network s) ntr))"
    and r3: "calls s' = calls s @ [CRank ntr] @ replicate k CLearnSoft @ [CRelabel]"
    and k1: "f = Exploratory \<longrightarrow> k = (if 4 \<le> rank_count s then 8 else 1)"
    and k2: "f = Converged \<longrightarrow> 1 \<le> k \<and> k \<le> Suc (rank_count s)"
    by (elim exE conjE) (rule that; assumption)
  show "\<exists>s' k. learn_block X c f lf ntr s = Inr s' \<and>
         rank_count s' = Suc (rank_count s) \<and>
         rank_num s' = ranked_len X (snd (rank X (reward_network s) ntr)) \<and>
         calls s' = calls s @ [CRank ntr] @ replicate k CLearnSoft @ [CRelabel] \<and>
         (f = Exploratory \<longrightarrow> k = (if 4 \<le> rank_count s then 8 else 1)) \<and>
         (f = Converged \<longrightarrow> 1 \<le> k \<and> k \<le> Suc (rank_count s))"
    using lb r1 r2 r3 k1 k2 by blast
qed

theorem ranking_round_witness:
  "0 < (2::nat) \<and> i_episode (toy_state\<lparr>i_episode := 2\<rparr>) mod 2 = 0 \<and>
   rank_num (toy_state\<lparr>i_episode := 2\<rparr>) \<le> max_rank_num toy_cfg \<and>
   (\<exists>s' k. learn_block toy_ext toy_cfg Exploratory 2 1 (toy_state\<lparr>i_episode := 2\<rparr>) = Inr s' \<and>
      rank_count s' = 1 \<and> rank_num s' = 1 \<and>
      calls s' = [CRank 1] @ replicate k CLearnSoft @ [CRelabel] \<and> k = 1)"
proof -
  have h: "0 < (2::nat) \<and> i_episode (toy_state\<lparr>i_episode := 2\<rparr>) mod 2 = 0 \<and>
     rank_num (toy_state\<lparr>i_episode := 2\<rparr>) \<le> max_rank_num toy_cfg"
    by (simp add: toy_state_def toy_cfg_def)
  show ?thesis
    using ranking_round [of 2 toy_ext toy_cfg Exploratory 1 "toy_state\<lparr>i_episode := 2\<rparr>"] h
    by (simp add: toy_state_def toy_ext_def)
qed

text \<open>
  C10. The pretrain-exit event (spec section 4.4). It fires exactly on the episode
  \<open>start_episodes + pretrain_episodes\<close> when \<open>pretrain_episodes > 0\<close>, and is then,
  in this order: 10 fits of the reward network, one relabelling of the memory against
  the refitted network, a reset of the critic and of the actor, and 100 main-rule
  updates that all pass the same update index and do not advance the update counter.
  On every other episode it does nothing.
\<close>

theorem pretrain_exit_event:
  "(\<not> (i_episode s = start_episodes c + pretrain_episodes c \<and> 0 < pretrain_episodes c) \<longrightarrow>
      pretrain_exit X c s = s) \<and>
   (i_episode s = start_episodes c + pretrain_episodes c \<and> 0 < pretrain_episodes c \<longrightarrow>
      calls (pretrain_exit X c s) = calls s @ replicate 10 CLearnSoft @
        [CRelabel, CResetCritic, CResetActor] @ replicate 100 (CUpdate MainRule (updates s)) \<and>
      updates (pretrain_exit X c s) = updates s \<and>
      reward_network (pretrain_exit X c s) = snd (fit_seq X (reward_network s) 10) \<and>
      agent_memory (pretrain_exit X c s) =
        relabel_memory (get_reward X (reward_network (pretrain_exit X c s))) (agent_memory s) \<and>
      rank_count (pretrain_exit X c s) = rank_count s \<and> rank_num (pretrain_exit X c s) = rank_num s)"
proof (intro conjI impI)
  assume "\<not> (i_episode s = start_episodes c + pretrain_episodes c \<and> 0 < pretrain_episodes c)"
  then show "pretrain_exit X c s = s" by (auto simp: pretrain_exit_def)
next
  assume "i_episode s = start_episodes c + pretrain_episodes c \<and> 0 < pretrain_episodes c"
  then obtain g where pe: "pretrain_exit X c s =
     s\<lparr>reward_network := snd (fit_seq X (reward_network s) 10),
       agent_memory := relabel_memory (get_reward X (snd (fit_seq X (reward_network s) 10)))
                         (agent_memory s),
       agent := g,
       calls := calls s @ replicate 10 CLearnSoft @ [CRelabel, CResetCritic, CResetActor] @
                replicate 100 (CUpdate MainRule (updates s))\<rparr>"
    using pretrain_exit_fires by metis
  show "calls (pretrain_exit X c s) = calls s @ replicate 10 CLearnSoft @
        [CRelabel, CResetCritic, CResetActor] @ replicate 100 (CUpdate MainRule (updates s))"
    by (simp add: pe)
  show "updates (pretrain_exit X c s) = updates s" by (simp add: pe)
  show "reward_network (pretrain_exit X c s) = snd (fit_seq X (reward_network s) 10)" by (simp add: pe)
  show "agent_memory (pretrain_exit X c s) =
        relabel_memory (get_reward X (reward_network (pretrain_exit X c s))) (agent_memory s)"
    by (simp add: pe)
  show "rank_count (pretrain_exit X c s) = rank_count s" by (simp add: pe)
  show "rank_num (pretrain_exit X c s) = rank_num s" by (simp add: pe)
qed

theorem pretrain_exit_event_witness:
  "i_episode (toy_state\<lparr>i_episode := 2\<rparr>) = start_episodes toy_cfg + pretrain_episodes toy_cfg \<and>
   0 < pretrain_episodes toy_cfg \<and>
   calls (pretrain_exit toy_ext toy_cfg (toy_state\<lparr>i_episode := 2\<rparr>)) =
     replicate 10 CLearnSoft @ [CRelabel, CResetCritic, CResetActor] @ replicate 100 (CUpdate MainRule 0) \<and>
   pretrain_exit toy_ext toy_cfg (toy_state\<lparr>i_episode := 3\<rparr>) = toy_state\<lparr>i_episode := 3\<rparr>"
proof -
  have h: "i_episode (toy_state\<lparr>i_episode := 2\<rparr>) = start_episodes toy_cfg + pretrain_episodes toy_cfg"
    "0 < pretrain_episodes toy_cfg"
    "\<not> (i_episode (toy_state\<lparr>i_episode := 3\<rparr>) = start_episodes toy_cfg + pretrain_episodes toy_cfg \<and>
        0 < pretrain_episodes toy_cfg)"
    by (simp_all add: toy_cfg_def)
  show ?thesis
    using pretrain_exit_event [of "toy_state\<lparr>i_episode := 2\<rparr>" toy_cfg toy_ext]
      pretrain_exit_event [of "toy_state\<lparr>i_episode := 3\<rparr>" toy_cfg toy_ext] h
    by (simp add: toy_state_def)
qed


text \<open>
  C22. The fit loop with early break is the reference loop (lines 136--141). The loop
  that stops at the first accuracy above 0.97 returns exactly the accuracies of the
  uninterrupted sequence of \<open>n\<close> fits cut after that accuracy, and leaves the reward
  network as it is after that many fits: breaking early only saves the remaining fits.
\<close>

theorem soft_fits_equiv: "soft_fits X n eb s = soft_fits_ref X n eb s"
proof (induction n arbitrary: s)
  case 0
  then show ?case by (simp add: soft_fits_ref_def)
next
  case (Suc n)
  let ?a = "fst (learn_reward_soft X (reward_network s))"
  let ?m1 = "snd (learn_reward_soft X (reward_network s))"
  let ?s1 = "s\<lparr>reward_network := ?m1, calls := calls s @ [CLearnSoft]\<rparr>"
  have step: "soft_fits X (Suc n) eb s =
      (if eb \<and> 97 / 100 < ?a then ([?a], ?s1)
       else (?a # fst (soft_fits X n eb ?s1), snd (soft_fits X n eb ?s1)))"
    by (simp add: learn_soft_once_eq split: prod.splits)
  show ?case
  proof (cases "eb \<and> 97 / 100 < ?a")
    case True
    then show ?thesis unfolding step by (simp add: soft_fits_ref_def)
  next
    case False
    have "soft_fits_ref X (Suc n) eb s =
          (?a # fst (soft_fits_ref X n eb ?s1), snd (soft_fits_ref X n eb ?s1))"
      using False by (cases eb) (simp_all add: soft_fits_ref_def Let_def replicate_append_same [symmetric])
    then show ?thesis unfolding step if_not_P [OF False] Suc.IH [of ?s1] by simp
  qed
qed

theorem soft_fits_equiv_witness:
  "soft_fits toy_ext 5 True toy_state = soft_fits_ref toy_ext 5 True toy_state \<and>
   fst (soft_fits_ref toy_ext 5 True toy_state) = [1 / 2, 1 / 2, 49 / 50]"
proof -
  have "fst (soft_fits_ref toy_ext 5 True toy_state) = [1 / 2, 1 / 2, 49 / 50]"
    by (simp add: soft_fits_ref_def toy_ext_def toy_state_def Let_def numeral_eq_Suc)
  then show ?thesis using soft_fits_equiv [of toy_ext 5 True toy_state] by simp
qed

end
