(* ===== verification/Evaluation.thy ===== *)
theory Evaluation
  imports Steps
begin

text \<open>
  \<^verbatim>\<open>OPRRL.evaluate\<close> (\<^verbatim>\<open>src/main.py\<close>, lines 106--131): \<open>n\<close> episodes with the
  agent in evaluation mode, each stopped by the environment or at \<open>episode_len\<close>
  steps, returning the true return of each. Its inner loop tests
  \<^verbatim>\<open>episode_steps == episode_len\<close> (not \<open>%\<close> as the training loop does), so with
  \<open>episode_len = 0\<close> only the environment can end an episode: the loop is a
  \<^theory_text>\<open>partial_function (option)\<close>, \<open>None\<close> standing for an evaluation that never
  returns. Rendering is output only and is not modelled.
\<close>

partial_function (option) eval_steps ::
  "('s, 'a, 'e, 'g, 'm) ext \<Rightarrow> nat \<Rightarrow> bool \<Rightarrow> 'e \<Rightarrow> 'g \<Rightarrow> 's \<Rightarrow> real \<Rightarrow> nat \<Rightarrow>
   call list \<Rightarrow> ('e \<times> 'g \<times> real \<times> call list) option" where
  "eval_steps X len md e g st r k cs =
     (let ag = select_action X g st md;
          out = env_step X e (fst ag);
          k' = Suc k;
          r' = r + fst (snd (fst out));
          cs' = cs @ [CSelectAction md, CEnvStep]
      in if fst (snd (snd (fst out))) \<or> k' = len then Some (snd out, snd ag, r', cs')
         else eval_steps X len md (snd out) (snd ag) (fst (fst out)) r' k' cs')"

declare eval_steps.simps [code]

text \<open>Lines 109--128: \<^verbatim>\<open>for _ in range(i_episode)\<close>, collecting the returns.\<close>

fun eval_runs ::
  "('s, 'a, 'e, 'g, 'm) ext \<Rightarrow> nat \<Rightarrow> bool \<Rightarrow> nat \<Rightarrow> 'e \<Rightarrow> 'g \<Rightarrow> call list \<Rightarrow>
   (real list \<times> 'e \<times> 'g \<times> call list) option" where
  "eval_runs X len md 0 e g cs = Some ([], e, g, cs)"
| "eval_runs X len md (Suc n) e g cs =
     (case eval_steps X len md (snd (env_reset X e)) g (fst (env_reset X e)) 0 0 (cs @ [CEnvReset]) of
        None \<Rightarrow> None
      | Some (e2, g2, r, cs2) \<Rightarrow>
          (case eval_runs X len md n e2 g2 cs2 of
             None \<Rightarrow> None
           | Some (rs, e3, g3, cs3) \<Rightarrow> Some (r # rs, e3, g3, cs3)))"

text \<open>
  Lines 106--131: the evaluation reads and writes only the environment and the agent,
  whose calls it records.
\<close>

definition evaluate ::
  "('s, 'a, 'e, 'g, 'm) ext \<Rightarrow> nat \<Rightarrow> nat \<Rightarrow> bool \<Rightarrow> ('s, 'a, 'e, 'g, 'm) oprrl \<Rightarrow>
   (real list \<times> ('s, 'a, 'e, 'g, 'm) oprrl) option" where
  "evaluate X n len md s =
     (case eval_runs X len md n (env s) (agent s) (calls s) of
        None \<Rightarrow> None
      | Some (rs, e, g, cs) \<Rightarrow> Some (rs, s\<lparr>env := e, agent := g, calls := cs\<rparr>))"

declare evaluate_def [oprrl_eval]

section \<open>Facts about evaluation\<close>

text \<open>The calls an evaluation makes.\<close>

definition eval_call :: "bool \<Rightarrow> call \<Rightarrow> bool" where
  "eval_call md x \<longleftrightarrow> x = CEnvReset \<or> x = CSelectAction md \<or> x = CEnvStep"

lemma eval_steps_returns:
  "k < len \<Longrightarrow>
   \<exists>e' g' r' ds. eval_steps X len md e g st r k cs = Some (e', g', r', cs @ ds) \<and>
                 list_all (eval_call md) ds"
proof (induction "len - k" arbitrary: e g st r k cs)
  case 0
  then show ?case by simp
next
  case (Suc d)
  let ?ag = "select_action X g st md"
  let ?out = "env_step X e (fst ?ag)"
  let ?r = "r + fst (snd (fst ?out))"
  let ?cs = "cs @ [CSelectAction md, CEnvStep]"
  have calls: "list_all (eval_call md) [CSelectAction md, CEnvStep]" by (simp add: eval_call_def)
  show ?case
  proof (cases "fst (snd (snd (fst ?out))) \<or> Suc k = len")
    case True
    then have "eval_steps X len md e g st r k cs = Some (snd ?out, snd ?ag, ?r, ?cs)"
      by (simp add: eval_steps.simps [of X len md e g st r k cs] Let_def)
    with calls show ?thesis by blast
  next
    case False
    with Suc.prems have "Suc k < len" by simp
    moreover from Suc.hyps(2) have "d = len - Suc k" by simp
    ultimately obtain e' g' r' ds where
      rec: "eval_steps X len md (snd ?out) (snd ?ag) (fst (fst ?out)) ?r (Suc k) ?cs =
              Some (e', g', r', ?cs @ ds)" and ds: "list_all (eval_call md) ds"
      using Suc.hyps(1) by blast
    with False have "eval_steps X len md e g st r k cs =
        Some (e', g', r', cs @ ([CSelectAction md, CEnvStep] @ ds))"
      by (simp add: eval_steps.simps [of X len md e g st r k cs] Let_def)
    moreover have "list_all (eval_call md) ([CSelectAction md, CEnvStep] @ ds)"
      using calls ds by simp
    ultimately show ?thesis by blast
  qed
qed

lemma eval_runs_returns:
  "0 < len \<Longrightarrow>
   \<exists>rs e' g' ds. eval_runs X len md n e g cs = Some (rs, e', g', cs @ ds) \<and> length rs = n \<and>
                list_all (eval_call md) ds"
proof (induction n arbitrary: e g cs)
  case 0
  then show ?case by simp
next
  case (Suc n)
  obtain e2 g2 r ds1 where
    st: "eval_steps X len md (snd (env_reset X e)) g (fst (env_reset X e)) 0 0 (cs @ [CEnvReset]) =
           Some (e2, g2, r, (cs @ [CEnvReset]) @ ds1)" and ds1: "list_all (eval_call md) ds1"
    using eval_steps_returns [OF Suc.prems, of X md "snd (env_reset X e)" g "fst (env_reset X e)" 0
        "cs @ [CEnvReset]"] by blast
  obtain rs e3 g3 ds2 where
    "eval_runs X len md n e2 g2 ((cs @ [CEnvReset]) @ ds1) = Some (rs, e3, g3, ((cs @ [CEnvReset]) @ ds1) @ ds2)"
    and "length rs = n" and "list_all (eval_call md) ds2"
    using Suc.IH [OF Suc.prems] by blast
  moreover have "eval_call md CEnvReset" by (simp add: eval_call_def)
  ultimately show ?case using st ds1 by auto
qed

lemma eval_steps_len0_None:
  assumes nd: "\<forall>e a. \<not> fst (snd (snd (fst (env_step X e a))))"
  shows "eval_steps X 0 md e g st r k cs = None"
proof (cases "eval_steps X 0 md e g st r k cs")
  case None
  then show ?thesis .
next
  case (Some y)
  have False
  proof (rule eval_steps.raw_induct
           [where P = "\<lambda>X' len md e g st r k cs y. X' = X \<longrightarrow> len = 0 \<longrightarrow> False", OF _ Some,
            THEN mp, THEN mp])
    fix f X' len md e g st r k cs y
    assume IH: "\<And>X' len md e g st r k cs y. f X' len md e g st r k cs = Some y \<Longrightarrow>
                  X' = X \<longrightarrow> len = 0 \<longrightarrow> False"
      and eq: "(let ag = select_action X' g st md;
                    out = env_step X' e (fst ag);
                    k' = Suc k;
                    r' = r + fst (snd (fst out));
                    cs' = cs @ [CSelectAction md, CEnvStep]
                in if fst (snd (snd (fst out))) \<or> k' = len then Some (snd out, snd ag, r', cs')
                   else f X' len md (snd out) (snd ag) (fst (fst out)) r' k' cs') = Some y"
    show "X' = X \<longrightarrow> len = 0 \<longrightarrow> False"
    proof (intro impI)
      assume X: "X' = X" and len: "len = 0"
      with nd eq have "f X' len md (snd (env_step X' e (fst (select_action X' g st md))))
          (snd (select_action X' g st md)) (fst (fst (env_step X' e (fst (select_action X' g st md)))))
          (r + fst (snd (fst (env_step X' e (fst (select_action X' g st md)))))) (Suc k)
          (cs @ [CSelectAction md, CEnvStep]) = Some y"
        by (simp add: Let_def)
      from IH [OF this] X len show False by simp
    qed
  qed simp_all
  then show ?thesis ..
qed

section \<open>Properties of evaluation\<close>

text \<open>
  C11. Evaluation returns and is side-effect free for training (spec section 4.5). For
  a positive \<open>episode_len\<close>, \<open>evaluate\<close> returns one return per requested episode,
  the only parts of the orchestrator's state it changes are the environment and the
  agent (the training counters, the replay memory, the reward network and the logs are
  those it started with), and the only calls it makes are environment resets, policy
  queries in evaluation mode and environment steps: no update, no push, no fit.
\<close>

theorem evaluate_returns:
  assumes "0 < len"
  shows "\<exists>rs s' cs. evaluate X n len md s = Some (rs, s') \<and> length rs = n \<and>
                    s' = s\<lparr>env := env s', agent := agent s', calls := calls s @ cs\<rparr> \<and>
                    list_all (eval_call md) cs"
proof -
  obtain rs e' g' ds where "eval_runs X len md n (env s) (agent s) (calls s) = Some (rs, e', g', calls s @ ds)"
    and "length rs = n" and "list_all (eval_call md) ds"
    using eval_runs_returns [OF assms, of X md n "env s" "agent s" "calls s"] by blast
  then show ?thesis by (simp add: evaluate_def) blast
qed

theorem evaluate_returns_witness:
  "0 < (5::nat) \<and>
   (\<exists>rs s' cs. evaluate toy_ext 2 5 True toy_state = Some (rs, s') \<and> length rs = 2 \<and>
               s' = toy_state\<lparr>env := env s', agent := agent s', calls := calls toy_state @ cs\<rparr> \<and>
               list_all (eval_call True) cs)"
  using evaluate_returns [of 5 toy_ext 2 True toy_state] by simp

text \<open>
  C12. Evaluation with \<open>episode_len = 0\<close> does not return when the environment never
  signals the end of an episode: the step test \<^verbatim>\<open>episode_steps == episode_len\<close>
  never holds after the first step, so nothing but the environment can end the inner
  loop (the training loop cannot reach this: its \<open>%\<close> raises first).
\<close>

theorem evaluate_len0_diverges:
  assumes "\<forall>e a. \<not> fst (snd (snd (fst (env_step X e a))))" and "0 < n"
  shows "evaluate X n 0 md s = None"
proof -
  from assms(2) obtain m where n: "n = Suc m" by (cases n) auto
  have "eval_runs X 0 md n (env s) (agent s) (calls s) = None"
    using eval_steps_len0_None [OF assms(1)] by (simp add: n)
  then show ?thesis by (simp add: evaluate_def)
qed

definition toy_endless_ext :: "(nat, nat, nat, nat, nat \<times> nat) ext" where
  "toy_endless_ext = toy_ext\<lparr>env_step := (\<lambda>e a. ((Suc e, 1, False, False), Suc e))\<rparr>"

theorem evaluate_len0_diverges_witness:
  "(\<forall>e a. \<not> fst (snd (snd (fst (env_step toy_endless_ext e a))))) \<and> 0 < (1::nat) \<and>
   evaluate toy_endless_ext 1 0 True toy_state = None"
proof -
  have h: "\<forall>e a. \<not> fst (snd (snd (fst (env_step toy_endless_ext e a))))"
    by (simp add: toy_endless_ext_def toy_ext_def)
  show ?thesis using evaluate_len0_diverges [OF h, of 1] h by simp
qed

end
