(* ===== verification/Train.thy ===== *)
theory Train
  imports RewardLearning Evaluation
begin

text \<open>
  The outer loop of \<^verbatim>\<open>OPRRL.train\<close> (\<^verbatim>\<open>src/main.py\<close>, lines 152--303) and the
  construction of the orchestrator in \<^verbatim>\<open>OPRRL.__init__\<close> (lines 24--103). An episode
  resets the environment, runs the step session (\<open>run_steps\<close>), logs and records the
  episode, evaluates the frequency scheduler, runs the ranking round, the pretrain-exit
  event and the periodic evaluation. The loop over episodes
  (\<^verbatim>\<open>for self.i_episode in itertools.count(1)\<close>, left by \<^verbatim>\<open>break\<close> once
  \<^verbatim>\<open>i_episode >= max_episodes - 1\<close>) is a \<^theory_text>\<open>function\<close> terminating by the measure
  \<open>max_episodes - i\<close>. A result is \<open>None\<close> when an evaluation does not return,
  \<open>Some (Inl e)\<close> when the run raises \<open>e\<close>, and \<open>Some (Inr (s, t))\<close> with the final
  state and the loop-carried locals otherwise.
\<close>

section \<open>Loop-carried locals\<close>

text \<open>
  Lines 154--156: the locals of \<^verbatim>\<open>train\<close> that outlive an episode. The others
  (\<^verbatim>\<open>max_succ_rate\<close>, \<^verbatim>\<open>extra_update_reward_flag\<close>, \<^verbatim>\<open>print_flag\<close>) only feed
  printing or commented-out code; \<^verbatim>\<open>learn_frequency\<close> and \<^verbatim>\<open>num_to_rank\<close> are
  recomputed by the scheduler in every episode.
\<close>

record train_locals =
  frequency_flag :: freq_flag
  reach_count :: nat
  succ_de :: "bool list"

section \<open>The end of an episode\<close>

text \<open>
  Lines 228--240: the per-episode log. For Mujoco no success is tracked; otherwise the
  episode's success (RLBench: ended before \<open>episode_len\<close> steps; Metaworld: the
  success flag seen during the episode) enters the 50-slot deque \<^verbatim>\<open>succ_de\<close>, whose
  mean is logged. Nothing happens when logging is off, not even the deque update.
\<close>

definition episode_log ::
  "cfg \<Rightarrow> 's ep_locals \<Rightarrow> bool list \<Rightarrow> ('s, 'a, 'e, 'g, 'm) oprrl \<Rightarrow>
   ('s, 'a, 'e, 'g, 'm) oprrl \<times> bool list" where
  "episode_log c l de s =
     (if wandb_log c then
        (if env_type c = Mujoco then
           (s\<lparr>logs := logs s @ [LogEpisode (episode_reward l) (episode_reward_prime l)
                                   (episode_steps l) None (i_episode s)]\<rparr>, de)
         else
           (let task_succ = (if env_type c = RLBench then episode_steps l < episode_len c
                             else episode_succ l);
                de' = deque_append 50 de task_succ
            in (s\<lparr>logs := logs s @ [LogEpisode (episode_reward l) (episode_reward_prime l)
                                        (episode_steps l) (bool_rate de') (i_episode s)]\<rparr>, de')))
      else (s, de))"

text \<open>Lines 250--252: the episode's return, predicted return and length are recorded.\<close>

definition record_episode ::
  "'s ep_locals \<Rightarrow> ('s, 'a, 'e, 'g, 'm) oprrl \<Rightarrow> ('s, 'a, 'e, 'g, 'm) oprrl" where
  "record_episode l s =
     s\<lparr>e_reward_list := e_reward_list s @ [episode_reward l],
       e_reward_prime_list := e_reward_prime_list s @ [episode_reward_prime l],
       episode_len_list := episode_len_list s @ [episode_steps l]\<rparr>"

text \<open>
  Lines 299--300: the periodic evaluation, \<open>eval_episodes\<close> episodes of at most
  \<open>episode_len\<close> steps with the agent in evaluation mode. The \<open>%\<close> is evaluated
  first and raises on \<open>eval_per_episode = 0\<close>; the returns are discarded.
\<close>

definition eval_hook ::
  "('s, 'a, 'e, 'g, 'm) ext \<Rightarrow> cfg \<Rightarrow> ('s, 'a, 'e, 'g, 'm) oprrl \<Rightarrow>
   (py_error + ('s, 'a, 'e, 'g, 'm) oprrl) option" where
  "eval_hook X c s =
     (case py_mod (i_episode s) (eval_per_episode c) of
        Inl err \<Rightarrow> Some (Inl err)
      | Inr m \<Rightarrow>
          (if m = 0 \<and> eval_enabled c then
             (case evaluate X (eval_episodes c) (episode_len c) True s of
                None \<Rightarrow> None
              | Some (rs, s') \<Rightarrow> Some (Inr s'))
           else Some (Inr s)))"

text \<open>Lines 228--300: everything after the step session, in the code's order.\<close>

definition episode_tail ::
  "('s, 'a, 'e, 'g, 'm) ext \<Rightarrow> cfg \<Rightarrow> train_locals \<Rightarrow> 's ep_locals \<Rightarrow>
   ('s, 'a, 'e, 'g, 'm) oprrl \<Rightarrow>
   (py_error + ('s, 'a, 'e, 'g, 'm) oprrl \<times> train_locals) option" where
  "episode_tail X c t l s =
     (let (s1, de) = episode_log c l (succ_de t) s;
          s2 = record_episode l s1;
          (f, rc, lf, ntr) = frequency_block c (episode_reward l) (frequency_flag t) (reach_count t);
          t' = \<lparr>frequency_flag = f, reach_count = rc, succ_de = de\<rparr>
      in case learn_block X c f lf ntr s2 of
           Inl err \<Rightarrow> Some (Inl err)
         | Inr s3 \<Rightarrow>
             (case eval_hook X c (pretrain_exit X c s3) of
                None \<Rightarrow> None
              | Some (Inl err) \<Rightarrow> Some (Inl err)
              | Some (Inr s4) \<Rightarrow> Some (Inr (s4, t'))))"

text \<open>Lines 162--300: one episode, from the environment reset to the evaluation.\<close>

definition episode ::
  "('s, 'a, 'e, 'g, 'm) ext \<Rightarrow> cfg \<Rightarrow> train_locals \<Rightarrow> ('s, 'a, 'e, 'g, 'm) oprrl \<Rightarrow>
   (py_error + ('s, 'a, 'e, 'g, 'm) oprrl \<times> train_locals) option" where
  "episode X c t s =
     (let (s0, l0) = reset_episode X s
      in case run_steps X c s0 l0 of
           Inl err \<Rightarrow> Some (Inl err)
         | Inr (s1, l1) \<Rightarrow> episode_tail X c t l1 s1)"

section \<open>The training loop\<close>

text \<open>
  Lines 161 and 302--303: episode \<open>i\<close> runs with \<^verbatim>\<open>self.i_episode = i\<close>, and the loop
  stops after it when \<open>i \<ge> max_episodes - 1\<close>. Python's \<open>max_episodes - 1\<close> is
  \<open>-1\<close> for \<open>max_episodes = 0\<close>, where the natural-number difference is \<open>0\<close>; as
  \<open>i \<ge> 1\<close>, the test is the same.
\<close>

function train_loop ::
  "('s, 'a, 'e, 'g, 'm) ext \<Rightarrow> cfg \<Rightarrow> train_locals \<Rightarrow> ('s, 'a, 'e, 'g, 'm) oprrl \<Rightarrow> nat \<Rightarrow>
   (py_error + ('s, 'a, 'e, 'g, 'm) oprrl \<times> train_locals) option" where
  "train_loop X c t s i =
     (case episode X c t (s\<lparr>i_episode := i\<rparr>) of
        None \<Rightarrow> None
      | Some (Inl err) \<Rightarrow> Some (Inl err)
      | Some (Inr (s', t')) \<Rightarrow>
          (if max_episodes c - 1 \<le> i then Some (Inr (s', t')) else train_loop X c t' s' (Suc i)))"
  by pat_completeness auto
termination
  by (relation "measure (\<lambda>(X, c, t, s, i). max_episodes c - i)") auto

declare train_loop.simps [simp del]

text \<open>Lines 152--303: \<^verbatim>\<open>train\<close> starts the scheduler exploring, the deque empty.\<close>

definition train ::
  "('s, 'a, 'e, 'g, 'm) ext \<Rightarrow> cfg \<Rightarrow> ('s, 'a, 'e, 'g, 'm) oprrl \<Rightarrow>
   (py_error + ('s, 'a, 'e, 'g, 'm) oprrl \<times> train_locals) option" where
  "train X c s = train_loop X c \<lparr>frequency_flag = Exploratory, reach_count = 0, succ_de = []\<rparr> s 1"

text \<open>
  Lines 24--103: the construction. The environment type is dispatched (an unknown type
  raises), an RLBench environment is reset once, and the counters and lists start
  empty; \<^verbatim>\<open>i_episode\<close> is only set by \<^verbatim>\<open>train\<close>.
\<close>

definition oprrl_init ::
  "('s, 'a, 'e, 'g, 'm) ext \<Rightarrow> string \<Rightarrow> 'e \<Rightarrow> 'g \<Rightarrow> 'm \<Rightarrow>
   py_error + env_type \<times> ('s, 'a, 'e, 'g, 'm) oprrl" where
  "oprrl_init X et e g m =
     sbind (parse_env_type et) (\<lambda>ty.
       let (e', cs) = (if ty = RLBench then (snd (env_reset X e), [CEnvReset]) else (e, []))
       in Inr (ty, \<lparr>env = e', agent = g, agent_memory = [], reward_network = m,
                   total_numsteps = 0, updates = 0, rank_count = 0, rank_num = 0,
                   i_episode = 0, e_reward_list = [], e_reward_prime_list = [],
                   episode_len_list = [], calls = cs, logs = []\<rparr>))"

text \<open>The configuration string of each environment type, as the code compares it.\<close>

fun env_type_name :: "env_type \<Rightarrow> string" where
  "env_type_name RLBench = ''rlbench''"
| "env_type_name Mujoco = ''mujoco''"
| "env_type_name Metaworld = ''metaworld''"

lemmas train_defs [oprrl_eval] =
  episode_log_def record_episode_def eval_hook_def episode_tail_def episode_def train_def
  oprrl_init_def

lemma train_loop_unfold:
  "train_loop X c t s i =
     (case episode X c t (s\<lparr>i_episode := i\<rparr>) of
        None \<Rightarrow> None
      | Some (Inl err) \<Rightarrow> Some (Inl err)
      | Some (Inr (s', t')) \<Rightarrow>
          (if max_episodes c - 1 \<le> i then Some (Inr (s', t')) else train_loop X c t' s' (Suc i)))"
  by (rule train_loop.simps)


section \<open>Facts about the parts of an episode\<close>

lemma run_steps_Inr_pos:
  "run_steps X c s l = Inr (s', l') \<Longrightarrow> \<not> ep_done l \<Longrightarrow> 0 < episode_len c"
  using run_steps_error [of c l X s] by (cases "episode_len c") auto

text \<open>Whatever the flag, the scheduler hands out the configuration of the new flag.\<close>

lemma frequency_block_config:
  "frequency_block c r f rc = (f', rc', lf, n) \<Longrightarrow>
   (lf, n) = (if f' = Converged then (learn_reward_frequency c, num_to_rank c)
              else (learn_reward_frequency_1 c, num_to_rank_1 c))"
  by (cases f) (auto simp: frequency_block_Exploratory Let_def split: if_splits)

lemma learn_block_total:
  assumes "0 < lf"
  shows "\<exists>s'. learn_block X c f lf ntr s = Inr s'"
proof (cases "i_episode s mod lf = 0 \<and> rank_num s \<le> max_rank_num c")
  case True
  then show ?thesis
    using learn_block_fires [where X = X and f = f and ntr = ntr and s = s and c = c, OF assms]
    by (elim conjE) (drule meta_mp, assumption, drule meta_mp, assumption, elim exE conjE, rule exI)
next
  case False
  then show ?thesis using learn_block_skips [OF assms] by blast
qed

lemma episode_log_frame:
  "fst (episode_log c l de s) = s\<lparr>logs := logs (fst (episode_log c l de s))\<rparr>"
  by (simp add: episode_log_def Let_def)

text \<open>A ranking round changes only the reward network, the ranking counters, the memory's
  labels, the call record and the logs; when it fires it ranks, fits and relabels.\<close>

lemma learn_block_effect:
  assumes "learn_block X c f lf ntr s = Inr s'"
  shows "i_episode s' = i_episode s \<and> total_numsteps s' = total_numsteps s \<and>
         length (agent_memory s') = length (agent_memory s) \<and> updates s' = updates s \<and>
         map t_mask (agent_memory s') = map t_mask (agent_memory s) \<and>
         e_reward_list s' = e_reward_list s \<and> e_reward_prime_list s' = e_reward_prime_list s \<and>
         episode_len_list s' = episode_len_list s \<and>
         ((\<not> (i_episode s mod lf = 0 \<and> rank_num s \<le> max_rank_num c) \<and> s' = s) \<or>
          (i_episode s mod lf = 0 \<and> rank_num s \<le> max_rank_num c \<and>
           rank_count s' = Suc (rank_count s) \<and>
           (\<exists>k. calls s' = calls s @ CRank ntr # replicate k CLearnSoft @ [CRelabel])))"
proof -
  have lf: "0 < lf" using assms by (cases lf) (simp_all add: learn_block_error)
  show ?thesis
  proof (cases "i_episode s mod lf = 0 \<and> rank_num s \<le> max_rank_num c")
    case False
    with assms learn_block_skips [OF lf False] show ?thesis by simp
  next
    case True
    obtain s2 k where b: "learn_block X c f lf ntr s = Inr s2" and
      e: "rank_count s2 = Suc (rank_count s)"
        "calls s2 = calls s @ [CRank ntr] @ replicate k CLearnSoft @ [CRelabel]"
        "i_episode s2 = i_episode s" "total_numsteps s2 = total_numsteps s"
        "length (agent_memory s2) = length (agent_memory s)" "updates s2 = updates s"
        "map t_mask (agent_memory s2) = map t_mask (agent_memory s)"
        "e_reward_list s2 = e_reward_list s" "e_reward_prime_list s2 = e_reward_prime_list s"
        "episode_len_list s2 = episode_len_list s"
      using learn_block_fired [OF lf conjunct1 [OF True] conjunct2 [OF True], of X f ntr]
      by (elim exE conjE) (rule that; assumption)
    from b assms have "s2 = s'" by simp
    with e True show ?thesis by auto
  qed
qed

text \<open>The pretrain-exit event: its calls, and what it leaves alone.\<close>

definition pretrain_calls :: "cfg \<Rightarrow> nat \<Rightarrow> nat \<Rightarrow> call list" where
  "pretrain_calls c i u =
     (if i = start_episodes c + pretrain_episodes c \<and> 0 < pretrain_episodes c
      then replicate 10 CLearnSoft @ [CRelabel, CResetCritic, CResetActor] @
           replicate 100 (CUpdate MainRule u)
      else [])"

lemma pretrain_exit_effect:
  "i_episode (pretrain_exit X c s) = i_episode s \<and>
   total_numsteps (pretrain_exit X c s) = total_numsteps s \<and>
   length (agent_memory (pretrain_exit X c s)) = length (agent_memory s) \<and>
   map t_mask (agent_memory (pretrain_exit X c s)) = map t_mask (agent_memory s) \<and>
   rank_count (pretrain_exit X c s) = rank_count s \<and> rank_num (pretrain_exit X c s) = rank_num s \<and>
   e_reward_list (pretrain_exit X c s) = e_reward_list s \<and>
   e_reward_prime_list (pretrain_exit X c s) = e_reward_prime_list s \<and>
   episode_len_list (pretrain_exit X c s) = episode_len_list s \<and>
   updates (pretrain_exit X c s) = updates s \<and>
   calls (pretrain_exit X c s) = calls s @ pretrain_calls c (i_episode s) (updates s)"
proof (cases "i_episode s = start_episodes c + pretrain_episodes c \<and> 0 < pretrain_episodes c")
  case True
  then obtain g where "pretrain_exit X c s =
     s\<lparr>reward_network := snd (fit_seq X (reward_network s) 10),
       agent_memory := relabel_memory (get_reward X (snd (fit_seq X (reward_network s) 10)))
                         (agent_memory s),
       agent := g,
       calls := calls s @ replicate 10 CLearnSoft @ [CRelabel, CResetCritic, CResetActor] @
                replicate 100 (CUpdate MainRule (updates s))\<rparr>"
    using pretrain_exit_fires [of s c X] by blast
  with True show ?thesis by (simp add: pretrain_calls_def)
next
  case False
  have "pretrain_exit X c s = s" unfolding pretrain_exit_def by (rule if_not_P [OF False])
  moreover have "pretrain_calls c (i_episode s) (updates s) = []"
    unfolding pretrain_calls_def by (rule if_not_P [OF False])
  ultimately show ?thesis by simp
qed

lemma eval_hook_effect:
  assumes "0 < episode_len c" and "eval_hook X c s = Some (Inr s')"
  shows "\<exists>cs. s' = s\<lparr>env := env s', agent := agent s', calls := calls s @ cs\<rparr> \<and>
              list_all (eval_call True) cs"
proof (cases "0 < eval_per_episode c \<and> i_episode s mod eval_per_episode c = 0 \<and> eval_enabled c")
  case True
  obtain rs e' g' ds where
    r: "eval_runs X (episode_len c) True (eval_episodes c) (env s) (agent s) (calls s) =
          Some (rs, e', g', calls s @ ds)" and ds: "list_all (eval_call True) ds"
    using eval_runs_returns [OF assms(1), of X True "eval_episodes c" "env s" "agent s" "calls s"]
    by blast
  from assms(2) True r have "s' = s\<lparr>env := e', agent := g', calls := calls s @ ds\<rparr>"
    by (simp add: eval_hook_def evaluate_def)
  with ds show ?thesis by auto
next
  case False
  with assms(2) have "s' = s"
    by (cases "eval_per_episode c") (auto simp: eval_hook_def split: if_splits)
  then show ?thesis by (intro exI [of _ "[]"]) simp
qed

lemma eval_hook_total:
  assumes "0 < episode_len c" and "0 < eval_per_episode c"
  shows "\<exists>s'. eval_hook X c s = Some (Inr s')"
proof -
  obtain rs e' g' ds where
    r: "eval_runs X (episode_len c) True (eval_episodes c) (env s) (agent s) (calls s) =
          Some (rs, e', g', calls s @ ds)"
    using eval_runs_returns [OF assms(1), of X True "eval_episodes c" "env s" "agent s" "calls s"]
    by blast
  with assms(2) show ?thesis by (simp add: eval_hook_def evaluate_def)
qed

text \<open>The calls of a ranking round: none when it skips, the rank, the fits and the
  relabel when it fires.\<close>

lemma learn_block_trace:
  assumes "learn_block X c f lf ntr s = Inr s'"
  shows "\<exists>cs2. calls s' = calls s @ cs2 \<and>
    ((\<not> (i_episode s mod lf = 0 \<and> rank_num s \<le> max_rank_num c) \<and>
      cs2 = [] \<and> rank_count s' = rank_count s \<and> rank_num s' = rank_num s) \<or>
     (i_episode s mod lf = 0 \<and> rank_num s \<le> max_rank_num c \<and> rank_count s' = Suc (rank_count s) \<and>
      (\<exists>k. cs2 = CRank ntr # replicate k CLearnSoft @ [CRelabel])))"
  using learn_block_effect [OF assms]
proof (elim conjE disjE exE)
  assume "\<not> (i_episode s mod lf = 0 \<and> rank_num s \<le> max_rank_num c)" "s' = s"
  then show ?thesis by (intro exI [of _ "[]"]) simp
next
  fix k
  assume "i_episode s mod lf = 0" "rank_num s \<le> max_rank_num c" "rank_count s' = Suc (rank_count s)"
    "calls s' = calls s @ CRank ntr # replicate k CLearnSoft @ [CRelabel]"
  then show ?thesis by (intro exI [of _ "CRank ntr # replicate k CLearnSoft @ [CRelabel]"]) blast
qed

text \<open>The pretrain exit followed by the evaluation: their calls, and what they keep.\<close>

lemma exit_eval_effect:
  assumes "0 < episode_len c" and "eval_hook X c (pretrain_exit X c s) = Some (Inr s')"
  shows "\<exists>cs4. calls s' = calls s @ pretrain_calls c (i_episode s) (updates s) @ cs4 \<and>
    list_all (eval_call True) cs4 \<and>
    i_episode s' = i_episode s \<and> total_numsteps s' = total_numsteps s \<and>
    length (agent_memory s') = length (agent_memory s) \<and>
    rank_count s' = rank_count s \<and> rank_num s' = rank_num s \<and>
    e_reward_list s' = e_reward_list s \<and> e_reward_prime_list s' = e_reward_prime_list s \<and>
    episode_len_list s' = episode_len_list s \<and> updates s' = updates s"
proof -
  obtain cs4 where s': "s' = pretrain_exit X c s\<lparr>env := env s', agent := agent s',
        calls := calls (pretrain_exit X c s) @ cs4\<rparr>" and cs4: "list_all (eval_call True) cs4"
    using eval_hook_effect [OF assms] by blast
  have "calls s' = calls s @ pretrain_calls c (i_episode s) (updates s) @ cs4 \<and>
    i_episode s' = i_episode s \<and> total_numsteps s' = total_numsteps s \<and>
    length (agent_memory s') = length (agent_memory s) \<and>
    rank_count s' = rank_count s \<and> rank_num s' = rank_num s \<and>
    e_reward_list s' = e_reward_list s \<and> e_reward_prime_list s' = e_reward_prime_list s \<and>
    episode_len_list s' = episode_len_list s \<and> updates s' = updates s"
    using pretrain_exit_effect [of X c s] by (subst s', simp)+
  with cs4 show ?thesis by blast
qed

section \<open>One episode\<close>

lemma episode_InrE:
  assumes "episode X c t s = Some (Inr (s', t'))"
  obtains s1 l1 f rc lf ntr s3 where
    "run_steps X c (fst (reset_episode X s)) (snd (reset_episode X s)) = Inr (s1, l1)"
    "frequency_block c (episode_reward l1) (frequency_flag t) (reach_count t) = (f, rc, lf, ntr)"
    "learn_block X c f lf ntr (record_episode l1 (fst (episode_log c l1 (succ_de t) s1))) = Inr s3"
    "eval_hook X c (pretrain_exit X c s3) = Some (Inr s')"
    "t' = \<lparr>frequency_flag = f, reach_count = rc, succ_de = snd (episode_log c l1 (succ_de t) s1)\<rparr>"
proof -
  obtain s0 l0 where re: "reset_episode X s = (s0, l0)" by fastforce
  obtain s1 l1 where r: "run_steps X c s0 l0 = Inr (s1, l1)"
    using assms re by (cases "run_steps X c s0 l0") (auto simp: episode_def)
  have tail: "episode_tail X c t l1 s1 = Some (Inr (s', t'))" using assms re r by (simp add: episode_def)
  obtain f rc lf ntr where fb: "frequency_block c (episode_reward l1) (frequency_flag t) (reach_count t) =
      (f, rc, lf, ntr)" by (metis prod_cases4)
  obtain s1' de where el: "episode_log c l1 (succ_de t) s1 = (s1', de)" by fastforce
  obtain s3 where lb: "learn_block X c f lf ntr (record_episode l1 s1') = Inr s3"
    using tail fb el by (cases "learn_block X c f lf ntr (record_episode l1 s1')")
                        (auto simp: episode_tail_def)
  have "eval_hook X c (pretrain_exit X c s3) = Some (Inr s') \<and>
        t' = \<lparr>frequency_flag = f, reach_count = rc, succ_de = de\<rparr>"
    using tail fb el lb by (auto simp: episode_tail_def split: option.splits sum.splits)
  then show thesis using that r re fb el lb by simp
qed


text \<open>What an episode does to the orchestrator's state and to the call record.\<close>

lemma episode_effect:
  fixes X :: "('s, 'a, 'e, 'g, 'm) ext"
  assumes "episode X c t s = Some (Inr (s', t'))"
  shows "\<exists>(l :: 's ep_locals) cs1 cs2 u cs4 lf ntr.
    0 < episode_len c \<and>
    calls s' = calls s @ CEnvReset # cs1 @ cs2 @ pretrain_calls c (i_episode s) u @ cs4 \<and>
    list_all step_call cs1 \<and> list_all (eval_call True) cs4 \<and>
    filter train_action cs1 = replicate (episode_steps l) (action_call c (i_episode s)) \<and>
    updates s' = updates s + length (filter is_update cs1) \<and>
    snd (snd (frequency_block c (episode_reward l) (frequency_flag t) (reach_count t))) = (lf, ntr) \<and>
    ((\<not> (i_episode s mod lf = 0 \<and> rank_num s \<le> max_rank_num c) \<and>
      cs2 = [] \<and> rank_count s' = rank_count s \<and> rank_num s' = rank_num s) \<or>
     (i_episode s mod lf = 0 \<and> rank_num s \<le> max_rank_num c \<and> rank_count s' = Suc (rank_count s) \<and>
      (\<exists>k. cs2 = CRank ntr # replicate k CLearnSoft @ [CRelabel]))) \<and>
    i_episode s' = i_episode s \<and>
    e_reward_list s' = e_reward_list s @ [episode_reward l] \<and>
    e_reward_prime_list s' = e_reward_prime_list s @ [episode_reward_prime l] \<and>
    episode_len_list s' = episode_len_list s @ [episode_steps l] \<and>
    total_numsteps s' = total_numsteps s + episode_steps l \<and>
    length (agent_memory s') = length (agent_memory s) + episode_steps l \<and>
    frequency_block c (episode_reward l) (frequency_flag t) (reach_count t) =
      (frequency_flag t', reach_count t',
       snd (snd (frequency_block c (episode_reward l) (frequency_flag t) (reach_count t))))"
  using assms
proof (rule episode_InrE)
  fix s1 l1 f rc lf ntr s3
  assume r: "run_steps X c (fst (reset_episode X s)) (snd (reset_episode X s)) = Inr (s1, l1)"
    and fb: "frequency_block c (episode_reward l1) (frequency_flag t) (reach_count t) = (f, rc, lf, ntr)"
    and lb: "learn_block X c f lf ntr (record_episode l1 (fst (episode_log c l1 (succ_de t) s1))) = Inr s3"
    and ev: "eval_hook X c (pretrain_exit X c s3) = Some (Inr s')"
    and t': "t' = \<lparr>frequency_flag = f, reach_count = rc, succ_de = snd (episode_log c l1 (succ_de t) s1)\<rparr>"
  have s0: "fst (reset_episode X s) = s\<lparr>env := snd (env_reset X (env s)), calls := calls s @ [CEnvReset]\<rparr>"
    and l0: "\<not> ep_done (snd (reset_episode X s))" "episode_steps (snd (reset_episode X s)) = 0"
    by (simp_all add: reset_episode_def split: prod.splits)
  have pos: "0 < episode_len c" using run_steps_Inr_pos [OF r l0(1)] .
  obtain cs1 where f1: "i_episode s1 = i_episode s \<and> rank_count s1 = rank_count s \<and>
      rank_num s1 = rank_num s \<and> total_numsteps s1 = total_numsteps s + episode_steps l1 \<and>
      length (agent_memory s1) = length (agent_memory s) + episode_steps l1 \<and>
      e_reward_list s1 = e_reward_list s \<and> e_reward_prime_list s1 = e_reward_prime_list s \<and>
      episode_len_list s1 = episode_len_list s \<and>
      calls s1 = calls s @ CEnvReset # cs1" and cs1: "list_all step_call cs1"
    and act: "filter train_action cs1 = replicate (episode_steps l1) (action_call c (i_episode s))"
    and up1: "updates s1 = updates s + length (filter is_update cs1)"
    using run_steps_frame [OF r] l0(2) unfolding s0 by auto
  obtain L where el: "fst (episode_log c l1 (succ_de t) s1) = s1\<lparr>logs := L\<rparr>"
    using episode_log_frame by blast
  let ?s2 = "record_episode l1 (s1\<lparr>logs := L\<rparr>)"
  have lb2: "learn_block X c f lf ntr ?s2 = Inr s3" using lb unfolding el .
  have f2: "i_episode ?s2 = i_episode s" "rank_num ?s2 = rank_num s" "rank_count ?s2 = rank_count s"
    "calls ?s2 = calls s @ CEnvReset # cs1"
    using f1 by (simp_all add: record_episode_def)
  obtain cs2 where c2: "calls s3 = calls s @ CEnvReset # cs1 @ cs2"
    and rk: "(\<not> (i_episode s mod lf = 0 \<and> rank_num s \<le> max_rank_num c) \<and>
      cs2 = [] \<and> rank_count s3 = rank_count s \<and> rank_num s3 = rank_num s) \<or>
     (i_episode s mod lf = 0 \<and> rank_num s \<le> max_rank_num c \<and> rank_count s3 = Suc (rank_count s) \<and>
      (\<exists>k. cs2 = CRank ntr # replicate k CLearnSoft @ [CRelabel]))"
    using learn_block_trace [OF lb2] unfolding f2 by auto
  have f3: "i_episode s3 = i_episode s \<and> total_numsteps s3 = total_numsteps s + episode_steps l1 \<and>
      length (agent_memory s3) = length (agent_memory s) + episode_steps l1 \<and>
      e_reward_list s3 = e_reward_list s @ [episode_reward l1] \<and>
      e_reward_prime_list s3 = e_reward_prime_list s @ [episode_reward_prime l1] \<and>
      episode_len_list s3 = episode_len_list s @ [episode_steps l1] \<and>
      updates s3 = updates s + length (filter is_update cs1)"
    using learn_block_effect [OF lb2] f1 up1 by (simp add: record_episode_def)
  obtain cs4 where f4: "calls s' = calls s3 @ pretrain_calls c (i_episode s3) (updates s3) @ cs4 \<and>
    list_all (eval_call True) cs4 \<and>
    i_episode s' = i_episode s3 \<and> total_numsteps s' = total_numsteps s3 \<and>
    length (agent_memory s') = length (agent_memory s3) \<and>
    rank_count s' = rank_count s3 \<and> rank_num s' = rank_num s3 \<and>
    e_reward_list s' = e_reward_list s3 \<and> e_reward_prime_list s' = e_reward_prime_list s3 \<and>
    episode_len_list s' = episode_len_list s3 \<and> updates s' = updates s3"
    using exit_eval_effect [OF pos ev] by blast
  have sched: "frequency_block c (episode_reward l1) (frequency_flag t) (reach_count t) =
      (frequency_flag t', reach_count t',
       snd (snd (frequency_block c (episode_reward l1) (frequency_flag t) (reach_count t))))"
    and lfn: "snd (snd (frequency_block c (episode_reward l1) (frequency_flag t) (reach_count t))) = (lf, ntr)"
    using fb t' by simp_all
  show ?thesis
    apply (rule exI [of _ l1], rule exI [of _ cs1], rule exI [of _ cs2],
           rule exI [of _ "updates s3"], rule exI [of _ cs4], rule exI [of _ lf], rule exI [of _ ntr])
    using pos cs1 act sched lfn c2 rk f3 f4 by auto
qed


lemma episode_total:
  assumes "0 < episode_len c" and "0 < learn_reward_frequency_1 c"
    and "0 < learn_reward_frequency c" and "0 < eval_per_episode c"
  shows "\<exists>s' t'. episode X c t s = Some (Inr (s', t'))"
proof -
  obtain s0 l0 where re: "reset_episode X s = (s0, l0)" by fastforce
  obtain s1 l1 where r: "run_steps X c s0 l0 = Inr (s1, l1)"
    using run_steps_total [OF assms(1)] by blast
  obtain f rc lf ntr where fb: "frequency_block c (episode_reward l1) (frequency_flag t) (reach_count t) =
      (f, rc, lf, ntr)" by (metis prod_cases4)
  have "0 < lf" using frequency_block_config [OF fb] assms(2,3) by (auto split: if_splits)
  obtain s1' de where el: "episode_log c l1 (succ_de t) s1 = (s1', de)" by fastforce
  obtain s3 where lb: "learn_block X c f lf ntr (record_episode l1 s1') = Inr s3"
    using learn_block_total [OF \<open>0 < lf\<close>] by blast
  obtain s4 where "eval_hook X c (pretrain_exit X c s3) = Some (Inr s4)"
    using eval_hook_total [OF assms(1,4)] by blast
  with re r fb el lb show ?thesis by (simp add: episode_def episode_tail_def)
qed

section \<open>Calls of the parts of an episode\<close>

text \<open>Ranking rounds in a call record.\<close>

fun is_rank :: "call \<Rightarrow> bool" where
  "is_rank (CRank n) = True"
| "is_rank _ = False"

lemma step_calls_facts:
  "list_all step_call cs \<Longrightarrow>
   stale d cs = d \<and> fresh_updates False cs \<and> filter is_rank cs = [] \<and>
   count_list cs CResetCritic = 0"
proof (induction cs)
  case Nil
  then show ?case by simp
next
  case (Cons x cs)
  then show ?case by (cases x) auto
qed

lemma eval_calls_facts:
  "list_all (eval_call md) cs \<Longrightarrow>
   stale d cs = d \<and> fresh_updates d cs \<and> filter is_rank cs = [] \<and>
   count_list cs CResetCritic = 0"
  by (induction cs) (auto simp: eval_call_def)

lemma pretrain_calls_facts:
  "stale d (pretrain_calls c i u) = (d \<and> pretrain_calls c i u = []) \<and>
   fresh_updates d (pretrain_calls c i u) \<and> filter is_rank (pretrain_calls c i u) = [] \<and>
   count_list (pretrain_calls c i u) CResetCritic =
     (if i = start_episodes c + pretrain_episodes c \<and> 0 < pretrain_episodes c then 1 else 0)"
  by (simp add: pretrain_calls_def)

lemma rank_calls_facts:
  "stale d (CRank n # replicate k CLearnSoft @ [CRelabel]) = False \<and>
   fresh_updates d (CRank n # replicate k CLearnSoft @ [CRelabel]) \<and>
   filter is_rank (CRank n # replicate k CLearnSoft @ [CRelabel]) = [CRank n] \<and>
   count_list (CRank n # replicate k CLearnSoft @ [CRelabel]) CResetCritic = 0"
  by (induction k) auto

section \<open>The training loop\<close>

text \<open>A property of the state and the loop-carried locals that every episode preserves
  holds when the loop returns.\<close>

lemma train_loop_invariant:
  assumes "train_loop X c t s i = Some (Inr (s', t'))" and "P s t"
    and step: "\<And>s t s1 t1 j. P s t \<Longrightarrow> episode X c t (s\<lparr>i_episode := j\<rparr>) = Some (Inr (s1, t1)) \<Longrightarrow>
                 P s1 t1"
  shows "P s' t'"
  using assms(1,2)
proof (induction "max_episodes c - i" arbitrary: t s i rule: less_induct)
  case less
  obtain s1 t1 where ep: "episode X c t (s\<lparr>i_episode := i\<rparr>) = Some (Inr (s1, t1))"
    using less.prems(1)
    by (auto simp: train_loop_unfold [of X c t s i] split: option.splits sum.splits)
  have P1: "P s1 t1" using step [OF less.prems(2) ep] .
  show ?case
  proof (cases "max_episodes c - 1 \<le> i")
    case True
    with less.prems(1) ep P1 show ?thesis by (simp add: train_loop_unfold [of X c t s i])
  next
    case False
    with less.prems(1) ep have "train_loop X c t1 s1 (Suc i) = Some (Inr (s', t'))"
      by (simp add: train_loop_unfold [of X c t s i])
    moreover from False have "max_episodes c - Suc i < max_episodes c - i" by simp
    ultimately show ?thesis using less.hyps P1 by blast
  qed
qed


text \<open>With the divisors positive, the loop from episode \<open>i\<close> returns after the episodes
  \<open>i, \<dots>, max i (max_episodes - 1)\<close>, and the critic is reset once if the pretrain
  boundary is among them.\<close>

lemma train_loop_runs:
  assumes ok: "0 < episode_len c" "0 < learn_reward_frequency_1 c"
    "0 < learn_reward_frequency c" "0 < eval_per_episode c"
  shows "\<exists>s' t' cs. train_loop X c t s i = Some (Inr (s', t')) \<and>
     i_episode s' = max i (max_episodes c - 1) \<and>
     length (e_reward_list s') = length (e_reward_list s) + (Suc (max i (max_episodes c - 1)) - i) \<and>
     calls s' = calls s @ cs \<and>
     count_list cs CResetCritic =
       (if 0 < pretrain_episodes c \<and> i \<le> start_episodes c + pretrain_episodes c \<and>
           start_episodes c + pretrain_episodes c \<le> max i (max_episodes c - 1) then 1 else 0)"
proof (induction "max_episodes c - i" arbitrary: t s i rule: less_induct)
  case less
  obtain s1 t1 where ep: "episode X c t (s\<lparr>i_episode := i\<rparr>) = Some (Inr (s1, t1))"
    using episode_total [OF ok] by blast
  have e1: "i_episode s1 = i \<and> length (e_reward_list s1) = Suc (length (e_reward_list s)) \<and>
      (\<exists>cs. calls s1 = calls s @ cs \<and> count_list cs CResetCritic =
         (if i = start_episodes c + pretrain_episodes c \<and> 0 < pretrain_episodes c then 1 else 0))"
    using episode_effect [OF ep]
    by (auto simp: step_calls_facts eval_calls_facts pretrain_calls_facts rank_calls_facts)
  then obtain cs1 where c1: "calls s1 = calls s @ cs1" and n1: "count_list cs1 CResetCritic =
         (if i = start_episodes c + pretrain_episodes c \<and> 0 < pretrain_episodes c then 1 else 0)"
    by blast
  show ?case
  proof (cases "max_episodes c - 1 \<le> i")
    case True
    then have "train_loop X c t s i = Some (Inr (s1, t1))"
      using ep by (simp add: train_loop_unfold [of X c t s i])
    with True e1 c1 n1 show ?thesis by (intro exI [of _ s1] exI [of _ t1] exI [of _ cs1]) auto
  next
    case False
    then have tl: "train_loop X c t s i = train_loop X c t1 s1 (Suc i)"
      using ep by (simp add: train_loop_unfold [of X c t s i])
    from False have "max_episodes c - Suc i < max_episodes c - i" by simp
    with less.hyps obtain s' t' cs where
      r: "train_loop X c t1 s1 (Suc i) = Some (Inr (s', t'))" and
      i': "i_episode s' = max (Suc i) (max_episodes c - 1)" and
      n': "length (e_reward_list s') = length (e_reward_list s1) + (Suc (max (Suc i) (max_episodes c - 1)) - Suc i)" and
      c': "calls s' = calls s1 @ cs" and
      k': "count_list cs CResetCritic =
       (if 0 < pretrain_episodes c \<and> Suc i \<le> start_episodes c + pretrain_episodes c \<and>
           start_episodes c + pretrain_episodes c \<le> max (Suc i) (max_episodes c - 1) then 1 else 0)"
      by blast
    have "count_list (cs1 @ cs) CResetCritic =
       (if 0 < pretrain_episodes c \<and> i \<le> start_episodes c + pretrain_episodes c \<and>
           start_episodes c + pretrain_episodes c \<le> max i (max_episodes c - 1) then 1 else 0)"
      using n1 k' False by auto
    with False r i' n' c' c1 e1 show ?thesis unfolding tl
      by (intro exI [of _ s'] exI [of _ t'] exI [of _ "cs1 @ cs"]) auto
  qed
qed


text \<open>The scheduler over one more episode.\<close>

lemma sched_run_snoc:
  "sched_run c (rs @ [r]) st =
     (let (f, rc) = sched_run c rs st
      in (fst (frequency_block c r f rc), fst (snd (frequency_block c r f rc))))"
proof (induction rs arbitrary: st)
  case Nil
  obtain f rc where "st = (f, rc)" by fastforce
  then show ?case by (simp split: prod.splits)
next
  case (Cons r' rs)
  obtain f rc where "st = (f, rc)" by fastforce
  with Cons show ?case by (simp split: prod.splits)
qed

text \<open>The first episode of a run that raises.\<close>

lemma first_episode_raises:
  assumes "episode_len c = 0 \<or> learn_reward_frequency_1 c = 0 \<or> eval_per_episode c = 0"
  shows "episode X c \<lparr>frequency_flag = Exploratory, reach_count = 0, succ_de = []\<rparr> s =
           Some (Inl ZeroDivisionError)"
proof -
  let ?t = "\<lparr>frequency_flag = Exploratory, reach_count = 0, succ_de = []\<rparr>"
  obtain s0 l0 where re: "reset_episode X s = (s0, l0)" by fastforce
  have l0: "\<not> ep_done l0" using re by (auto simp: reset_episode_def split: prod.splits)
  show ?thesis
  proof (cases "episode_len c = 0")
    case True
    then show ?thesis using re run_steps_error [OF True l0, of X s0] by (simp add: episode_def)
  next
    case False
    obtain s1 l1 where r: "run_steps X c s0 l0 = Inr (s1, l1)"
      using run_steps_total [of c] False by blast
    obtain rc where fb: "frequency_block c (episode_reward l1) Exploratory 0 =
        (Exploratory, rc, learn_reward_frequency_1 c, num_to_rank_1 c)"
      by (rule that [of "if change_flag_reward c < episode_reward l1 then 1 else 0"])
         (simp add: frequency_block_Exploratory split: if_split)
    obtain s1' de where el: "episode_log c l1 [] s1 = (s1', de)" by fastforce
    show ?thesis
    proof (cases "learn_reward_frequency_1 c = 0")
      case True
      then show ?thesis using re r el fb
        by (simp add: episode_def episode_tail_def learn_block_error split: prod.splits)
    next
      case lf: False
      with assms False have ep: "eval_per_episode c = 0" by simp
      obtain s3 where lb: "learn_block X c Exploratory (learn_reward_frequency_1 c) (num_to_rank_1 c)
          (record_episode l1 s1') = Inr s3"
        using learn_block_total lf by blast
      then show ?thesis using re r el fb ep
        by (simp add: episode_def episode_tail_def eval_hook_def split: prod.splits)
    qed
  qed
qed

text \<open>The calls of one episode: no update on stale labels, the labels fresh at the end,
  one ranking round counted per \<open>CRank\<close>, none above the ceiling.\<close>

lemma episode_calls:
  assumes "episode X c t s = Some (Inr (s', t'))"
  shows "\<exists>cs. calls s' = calls s @ cs \<and> fresh_updates False cs \<and> \<not> stale False cs \<and>
     rank_count s' = rank_count s + length (filter is_rank cs) \<and>
     (max_rank_num c < rank_num s \<longrightarrow> filter is_rank cs = [] \<and> rank_num s' = rank_num s)"
proof -
  from episode_effect [OF assms] obtain cs1 cs2 u cs4 where
    cl: "calls s' = calls s @ CEnvReset # cs1 @ cs2 @ pretrain_calls c (i_episode s) u @ cs4"
    and cs1: "list_all step_call cs1" and cs4: "list_all (eval_call True) cs4"
    and r: "(cs2 = [] \<and> rank_count s' = rank_count s \<and> rank_num s' = rank_num s) \<or>
     (rank_num s \<le> max_rank_num c \<and> rank_count s' = Suc (rank_count s) \<and>
      (\<exists>n k. cs2 = CRank n # replicate k CLearnSoft @ [CRelabel]))"
    by blast
  let ?cs = "CEnvReset # cs1 @ cs2 @ pretrain_calls c (i_episode s) u @ cs4"
  from r show ?thesis
  proof (elim disjE conjE exE)
    assume "cs2 = []" "rank_count s' = rank_count s" "rank_num s' = rank_num s"
    then show ?thesis using cl cs1 cs4
      by (intro exI [of _ ?cs]) (simp add: step_calls_facts eval_calls_facts pretrain_calls_facts)
  next
    fix n k
    assume "rank_num s \<le> max_rank_num c" "rank_count s' = Suc (rank_count s)"
      "cs2 = CRank n # replicate k CLearnSoft @ [CRelabel]"
    then show ?thesis using cl cs1 cs4
      by (intro exI [of _ ?cs])
         (simp add: step_calls_facts eval_calls_facts pretrain_calls_facts rank_calls_facts)
  qed
qed

lemma toy_train_runs: "\<exists>s' t'. train toy_ext toy_cfg toy_state = Some (Inr (s', t'))"
proof -
  have h: "0 < episode_len toy_cfg" "0 < learn_reward_frequency_1 toy_cfg"
    "0 < learn_reward_frequency toy_cfg" "0 < eval_per_episode toy_cfg"
    by (simp_all add: toy_cfg_def)
  show ?thesis
    using train_loop_runs [OF h, of toy_ext "\<lparr>frequency_flag = Exploratory, reach_count = 0, succ_de = []\<rparr>"
        toy_state 1]
    unfolding train_def by blast
qed

section \<open>Properties of a training run\<close>

text \<open>
  C13. The training run returns (spec section 4.1, loop contract). With positive
  \<open>episode_len\<close>, learning frequencies and evaluation period, \<^verbatim>\<open>train\<close> returns
  normally after the episodes \<open>1, \<dots>, max 1 (max_episodes - 1)\<close>: the last episode
  number is \<open>max 1 (max_episodes - 1)\<close>, and one return per episode is recorded.
\<close>

theorem train_runs:
  assumes "0 < episode_len c" and "0 < learn_reward_frequency_1 c"
    and "0 < learn_reward_frequency c" and "0 < eval_per_episode c"
  shows "\<exists>s' t'. train X c s = Some (Inr (s', t')) \<and>
           i_episode s' = max 1 (max_episodes c - 1) \<and>
           length (e_reward_list s') = length (e_reward_list s) + max 1 (max_episodes c - 1)"
  using train_loop_runs [OF assms, of X "\<lparr>frequency_flag = Exploratory, reach_count = 0, succ_de = []\<rparr>" s 1]
  by (auto simp: train_def)

theorem train_runs_witness:
  "0 < episode_len toy_cfg \<and> 0 < learn_reward_frequency_1 toy_cfg \<and>
   0 < learn_reward_frequency toy_cfg \<and> 0 < eval_per_episode toy_cfg \<and>
   (\<exists>s' t'. train toy_ext toy_cfg toy_state = Some (Inr (s', t')) \<and>
      i_episode s' = max 1 (max_episodes toy_cfg - 1) \<and>
      length (e_reward_list s') = length (e_reward_list toy_state) + max 1 (max_episodes toy_cfg - 1))"
proof -
  have h: "0 < episode_len toy_cfg" "0 < learn_reward_frequency_1 toy_cfg"
    "0 < learn_reward_frequency toy_cfg" "0 < eval_per_episode toy_cfg"
    by (simp_all add: toy_cfg_def)
  show ?thesis using train_runs [OF h, of toy_ext toy_state] h by blast
qed

text \<open>
  C14. Zero divisors raise. If \<open>episode_len\<close>, the exploratory learning frequency or
  the evaluation period is 0, the first episode raises \<open>ZeroDivisionError\<close> (lines 217,
  271 and 299): the evaluation period is used by \<open>%\<close> even when evaluation is disabled.
\<close>

theorem train_raises:
  assumes "episode_len c = 0 \<or> learn_reward_frequency_1 c = 0 \<or> eval_per_episode c = 0"
  shows "train X c s = Some (Inl ZeroDivisionError)"
  unfolding train_def by (subst train_loop_unfold) (simp add: first_episode_raises [OF assms])

theorem train_raises_witness:
  "(episode_len (toy_cfg\<lparr>eval_enabled := False, eval_per_episode := 0\<rparr>) = 0 \<or>
    learn_reward_frequency_1 (toy_cfg\<lparr>eval_enabled := False, eval_per_episode := 0\<rparr>) = 0 \<or>
    eval_per_episode (toy_cfg\<lparr>eval_enabled := False, eval_per_episode := 0\<rparr>) = 0) \<and>
   train toy_ext (toy_cfg\<lparr>eval_enabled := False, eval_per_episode := 0\<rparr>) toy_state =
     Some (Inl ZeroDivisionError)"
proof -
  have h: "episode_len (toy_cfg\<lparr>eval_enabled := False, eval_per_episode := 0\<rparr>) = 0 \<or>
    learn_reward_frequency_1 (toy_cfg\<lparr>eval_enabled := False, eval_per_episode := 0\<rparr>) = 0 \<or>
    eval_per_episode (toy_cfg\<lparr>eval_enabled := False, eval_per_episode := 0\<rparr>) = 0" by simp
  show ?thesis using train_raises [OF h, of toy_ext toy_state] h by blast
qed

text \<open>
  C15. The pretrain-exit event fires at most once, and exactly once when the run reaches
  its episode (spec section 8, pretrain-exit exactly-once). Over a run that returns, the
  critic is reset once if \<open>pretrain_episodes > 0\<close> and episode
  \<open>start_episodes + pretrain_episodes\<close> is among the run's episodes, and never
  otherwise; a run shorter than that never leaves the pretrain phase.
\<close>

theorem pretrain_exit_once:
  assumes "0 < episode_len c" and "0 < learn_reward_frequency_1 c"
    and "0 < learn_reward_frequency c" and "0 < eval_per_episode c"
  shows "\<exists>s' t' cs. train X c s = Some (Inr (s', t')) \<and> calls s' = calls s @ cs \<and>
           count_list cs CResetCritic =
             (if 0 < pretrain_episodes c \<and>
                 start_episodes c + pretrain_episodes c \<le> max 1 (max_episodes c - 1) then 1 else 0)"
proof -
  obtain s' t' cs where "train_loop X c \<lparr>frequency_flag = Exploratory, reach_count = 0, succ_de = []\<rparr> s 1 =
      Some (Inr (s', t'))" and "calls s' = calls s @ cs" and "count_list cs CResetCritic =
       (if 0 < pretrain_episodes c \<and> 1 \<le> start_episodes c + pretrain_episodes c \<and>
           start_episodes c + pretrain_episodes c \<le> max 1 (max_episodes c - 1) then 1 else 0)"
    using train_loop_runs [OF assms] by blast
  then show ?thesis by (auto simp: train_def)
qed

theorem pretrain_exit_once_witness:
  "0 < episode_len toy_cfg \<and> 0 < learn_reward_frequency_1 toy_cfg \<and>
   0 < learn_reward_frequency toy_cfg \<and> 0 < eval_per_episode toy_cfg \<and>
   (\<exists>s' t' cs. train toy_ext toy_cfg toy_state = Some (Inr (s', t')) \<and>
      calls s' = calls toy_state @ cs \<and> count_list cs CResetCritic = 1)"
proof -
  have h: "0 < episode_len toy_cfg" "0 < learn_reward_frequency_1 toy_cfg"
    "0 < learn_reward_frequency toy_cfg" "0 < eval_per_episode toy_cfg"
    by (simp_all add: toy_cfg_def)
  have "0 < pretrain_episodes toy_cfg \<and>
        start_episodes toy_cfg + pretrain_episodes toy_cfg \<le> max 1 (max_episodes toy_cfg - 1)"
    by (simp add: toy_cfg_def)
  then show ?thesis using pretrain_exit_once [OF h, of toy_ext toy_state] h by simp
qed


text \<open>
  C16. No update on stale labels (spec section 8, ordering). In every run that returns,
  started with fresh labels, each agent update (step updates and the pretrain burst)
  happens while the memory's labels are those of the reward model's last fit: every fit
  is followed by a relabelling before the next update, and the run ends with fresh labels.
\<close>

theorem no_stale_updates:
  assumes "train X c s = Some (Inr (s', t'))"
  shows "\<exists>cs. calls s' = calls s @ cs \<and> fresh_updates False cs \<and> \<not> stale False cs"
proof -
  have "\<exists>cs. calls s' = calls s @ cs \<and> fresh_updates False cs \<and> \<not> stale False cs"
    using assms [unfolded train_def]
  proof (rule train_loop_invariant [where P = "\<lambda>s1 t1. \<exists>cs. calls s1 = calls s @ cs \<and>
                                  fresh_updates False cs \<and> \<not> stale False cs"])
    show "\<exists>cs. calls s = calls s @ cs \<and> fresh_updates False cs \<and> \<not> stale False cs" by simp
  next
    fix s0 t0 s1 t1 j
    assume "\<exists>cs. calls s0 = calls s @ cs \<and> fresh_updates False cs \<and> \<not> stale False cs"
      and ep: "episode X c t0 (s0\<lparr>i_episode := j\<rparr>) = Some (Inr (s1, t1))"
    then obtain cs where c0: "calls s0 = calls s @ cs" "fresh_updates False cs" "\<not> stale False cs"
      by blast
    obtain ds where "calls s1 = calls s0 @ ds" "fresh_updates False ds" "\<not> stale False ds"
      using episode_calls [OF ep] by auto
    with c0 show "\<exists>cs. calls s1 = calls s @ cs \<and> fresh_updates False cs \<and> \<not> stale False cs"
      by (intro exI [of _ "cs @ ds"]) simp
  qed
  then show ?thesis .
qed

theorem no_stale_updates_witness:
  "\<exists>s' t'. train toy_ext toy_cfg toy_state = Some (Inr (s', t')) \<and>
     (\<exists>cs. calls s' = calls toy_state @ cs \<and> fresh_updates False cs \<and> \<not> stale False cs)"
proof -
  obtain s' t' where r: "train toy_ext toy_cfg toy_state = Some (Inr (s', t'))"
    using toy_train_runs by blast
  show ?thesis using no_stale_updates [OF r] r by blast
qed


text \<open>
  C17. The ranking counter counts the ranking rounds. Over a run that returns,
  \<^verbatim>\<open>rank_count\<close> grows by the number of \<^verbatim>\<open>reward_network.rank\<close> calls the run made.
\<close>

theorem rank_count_counts:
  assumes "train X c s = Some (Inr (s', t'))"
  shows "\<exists>cs. calls s' = calls s @ cs \<and> rank_count s' = rank_count s + length (filter is_rank cs)"
  using assms [unfolded train_def]
proof (rule train_loop_invariant [where P = "\<lambda>s1 t1. \<exists>cs. calls s1 = calls s @ cs \<and>
                                rank_count s1 = rank_count s + length (filter is_rank cs)"])
  show "\<exists>cs. calls s = calls s @ cs \<and> rank_count s = rank_count s + length (filter is_rank cs)"
    by (intro exI [of _ "[]"]) simp
next
  fix s0 t0 s1 t1 j
  assume "\<exists>cs. calls s0 = calls s @ cs \<and> rank_count s0 = rank_count s + length (filter is_rank cs)"
    and ep: "episode X c t0 (s0\<lparr>i_episode := j\<rparr>) = Some (Inr (s1, t1))"
  then obtain cs where c0: "calls s0 = calls s @ cs"
    "rank_count s0 = rank_count s + length (filter is_rank cs)" by blast
  obtain ds where "calls s1 = calls s0 @ ds" "rank_count s1 = rank_count s0 + length (filter is_rank ds)"
    using episode_calls [OF ep] by auto
  with c0 show "\<exists>cs. calls s1 = calls s @ cs \<and> rank_count s1 = rank_count s + length (filter is_rank cs)"
    by (intro exI [of _ "cs @ ds"]) simp
qed

theorem rank_count_counts_witness:
  "\<exists>s' t'. train toy_ext toy_cfg toy_state = Some (Inr (s', t')) \<and>
     (\<exists>cs. calls s' = calls toy_state @ cs \<and>
           rank_count s' = rank_count toy_state + length (filter is_rank cs))"
proof -
  obtain s' t' where r: "train toy_ext toy_cfg toy_state = Some (Inr (s', t'))"
    using toy_train_runs by blast
  show ?thesis using rank_count_counts [OF r] r by blast
qed

text \<open>
  C18. The ranking ceiling (spec section 4.3). Once the ranked pool exceeds
  \<open>max_rank_num\<close>, no ranking round runs any more: over the rest of the run there is no
  \<^verbatim>\<open>rank\<close> call, and \<^verbatim>\<open>rank_count\<close> and \<^verbatim>\<open>rank_num\<close> stay as they are.
\<close>

theorem rank_ceiling:
  assumes "max_rank_num c < rank_num s" and "train X c s = Some (Inr (s', t'))"
  shows "rank_num s' = rank_num s \<and> rank_count s' = rank_count s \<and>
         (\<exists>cs. calls s' = calls s @ cs \<and> filter is_rank cs = [])"
  using assms(2) [unfolded train_def]
proof (rule train_loop_invariant [where P = "\<lambda>s1 t1. rank_num s1 = rank_num s \<and>
          rank_count s1 = rank_count s \<and> (\<exists>cs. calls s1 = calls s @ cs \<and> filter is_rank cs = [])"])
  show "rank_num s = rank_num s \<and> rank_count s = rank_count s \<and>
        (\<exists>cs. calls s = calls s @ cs \<and> filter is_rank cs = [])"
    by simp
next
  fix s0 t0 s1 t1 j
  assume "rank_num s0 = rank_num s \<and> rank_count s0 = rank_count s \<and>
          (\<exists>cs. calls s0 = calls s @ cs \<and> filter is_rank cs = [])"
    and ep: "episode X c t0 (s0\<lparr>i_episode := j\<rparr>) = Some (Inr (s1, t1))"
  then obtain cs where c0: "rank_num s0 = rank_num s" "rank_count s0 = rank_count s"
    "calls s0 = calls s @ cs" "filter is_rank cs = []" by blast
  obtain ds where "calls s1 = calls s0 @ ds" "rank_count s1 = rank_count s0 + length (filter is_rank ds)"
    "filter is_rank ds = []" "rank_num s1 = rank_num s0"
    using episode_calls [OF ep] assms(1) c0(1) by auto
  with c0 show "rank_num s1 = rank_num s \<and> rank_count s1 = rank_count s \<and>
          (\<exists>cs. calls s1 = calls s @ cs \<and> filter is_rank cs = [])"
    by (intro conjI exI [of _ "cs @ ds"]) simp_all
qed

theorem rank_ceiling_witness:
  "max_rank_num toy_cfg < rank_num (toy_state\<lparr>rank_num := 6\<rparr>) \<and>
   (\<exists>s' t'. train toy_ext toy_cfg (toy_state\<lparr>rank_num := 6\<rparr>) = Some (Inr (s', t')) \<and>
     rank_num s' = 6 \<and> rank_count s' = 0 \<and>
     (\<exists>cs. calls s' = calls toy_state @ cs \<and> filter is_rank cs = []))"
proof -
  have h: "max_rank_num toy_cfg < rank_num (toy_state\<lparr>rank_num := 6\<rparr>)" by (simp add: toy_cfg_def)
  have p: "0 < episode_len toy_cfg" "0 < learn_reward_frequency_1 toy_cfg"
    "0 < learn_reward_frequency toy_cfg" "0 < eval_per_episode toy_cfg"
    by (simp_all add: toy_cfg_def)
  obtain s' t' where r: "train toy_ext toy_cfg (toy_state\<lparr>rank_num := 6\<rparr>) = Some (Inr (s', t'))"
    using train_loop_runs [OF p, of toy_ext "\<lparr>frequency_flag = Exploratory, reach_count = 0, succ_de = []\<rparr>"
        "toy_state\<lparr>rank_num := 6\<rparr>" 1]
    unfolding train_def by blast
  have "rank_num s' = 6 \<and> rank_count s' = 0 \<and>
        (\<exists>cs. calls s' = calls toy_state @ cs \<and> filter is_rank cs = [])"
    using rank_ceiling [OF h r] by (simp add: toy_state_def)
  with h r show ?thesis by blast
qed

text \<open>
  C19. Memory and step counters agree. Over a run that returns, the episode lengths the
  run records add up to the growth of \<^verbatim>\<open>total_numsteps\<close> and to the growth of the
  replay memory: one transition per environment step, none lost by relabelling.
\<close>

theorem memory_tracks_steps:
  assumes "train X c s = Some (Inr (s', t'))"
  shows "\<exists>ns. episode_len_list s' = episode_len_list s @ ns \<and>
              total_numsteps s' = total_numsteps s + sum_list ns \<and>
              length (agent_memory s') = length (agent_memory s) + sum_list ns"
  using assms [unfolded train_def]
proof (rule train_loop_invariant [where P = "\<lambda>s1 t1. \<exists>ns. episode_len_list s1 = episode_len_list s @ ns \<and>
              total_numsteps s1 = total_numsteps s + sum_list ns \<and>
              length (agent_memory s1) = length (agent_memory s) + sum_list ns"])
  show "\<exists>ns. episode_len_list s = episode_len_list s @ ns \<and>
              total_numsteps s = total_numsteps s + sum_list ns \<and>
              length (agent_memory s) = length (agent_memory s) + sum_list ns"
    by (intro exI [of _ "[]"]) simp
next
  fix s0 t0 s1 t1 j
  assume "\<exists>ns. episode_len_list s0 = episode_len_list s @ ns \<and>
              total_numsteps s0 = total_numsteps s + sum_list ns \<and>
              length (agent_memory s0) = length (agent_memory s) + sum_list ns"
    and ep: "episode X c t0 (s0\<lparr>i_episode := j\<rparr>) = Some (Inr (s1, t1))"
  then obtain ns where n0: "episode_len_list s0 = episode_len_list s @ ns"
    "total_numsteps s0 = total_numsteps s + sum_list ns"
    "length (agent_memory s0) = length (agent_memory s) + sum_list ns" by blast
  from episode_effect [OF ep] obtain l :: "'a ep_locals" where
    "episode_len_list s1 = episode_len_list s0 @ [episode_steps l]"
    "total_numsteps s1 = total_numsteps s0 + episode_steps l"
    "length (agent_memory s1) = length (agent_memory s0) + episode_steps l"
    by auto
  with n0 show "\<exists>ns. episode_len_list s1 = episode_len_list s @ ns \<and>
              total_numsteps s1 = total_numsteps s + sum_list ns \<and>
              length (agent_memory s1) = length (agent_memory s) + sum_list ns"
    by (intro exI [of _ "ns @ [episode_steps l]"]) simp
qed

theorem memory_tracks_steps_witness:
  "\<exists>s' t'. train toy_ext toy_cfg toy_state = Some (Inr (s', t')) \<and>
     (\<exists>ns. episode_len_list s' = episode_len_list toy_state @ ns \<and>
           total_numsteps s' = total_numsteps toy_state + sum_list ns \<and>
           length (agent_memory s') = length (agent_memory toy_state) + sum_list ns)"
proof -
  obtain s' t' where r: "train toy_ext toy_cfg toy_state = Some (Inr (s', t'))"
    using toy_train_runs by blast
  show ?thesis using memory_tracks_steps [OF r] r by blast
qed

text \<open>
  C20. The scheduler follows the recorded returns. Over a run that returns, the returns
  it appends to \<^verbatim>\<open>e_reward_list\<close> are exactly those the frequency scheduler is fed:
  its final flag and reach counter are those of \<open>sched_run\<close> over these returns from
  the start state, so C4--C6 apply to the run.
\<close>

theorem sched_tracks_returns:
  assumes "train X c s = Some (Inr (s', t'))"
  shows "\<exists>rs. e_reward_list s' = e_reward_list s @ rs \<and>
              (frequency_flag t', reach_count t') = sched_run c rs (Exploratory, 0)"
  using assms [unfolded train_def]
proof (rule train_loop_invariant [where P = "\<lambda>s1 t1. \<exists>rs. e_reward_list s1 = e_reward_list s @ rs \<and>
              (frequency_flag t1, reach_count t1) = sched_run c rs (Exploratory, 0)"])
  show "\<exists>rs. e_reward_list s = e_reward_list s @ rs \<and>
          (frequency_flag \<lparr>frequency_flag = Exploratory, reach_count = 0, succ_de = []\<rparr>,
           reach_count \<lparr>frequency_flag = Exploratory, reach_count = 0, succ_de = []\<rparr>) =
          sched_run c rs (Exploratory, 0)"
    by (intro exI [of _ "[]"]) simp
next
  fix s0 t0 s1 t1 j
  assume "\<exists>rs. e_reward_list s0 = e_reward_list s @ rs \<and>
              (frequency_flag t0, reach_count t0) = sched_run c rs (Exploratory, 0)"
    and ep: "episode X c t0 (s0\<lparr>i_episode := j\<rparr>) = Some (Inr (s1, t1))"
  then obtain rs where r0: "e_reward_list s0 = e_reward_list s @ rs"
    "(frequency_flag t0, reach_count t0) = sched_run c rs (Exploratory, 0)" by blast
  from episode_effect [OF ep] obtain l :: "'a ep_locals" where
    "e_reward_list s1 = e_reward_list s0 @ [episode_reward l]" and
    fb: "frequency_block c (episode_reward l) (frequency_flag t0) (reach_count t0) =
      (frequency_flag t1, reach_count t1,
       snd (snd (frequency_block c (episode_reward l) (frequency_flag t0) (reach_count t0))))"
    by auto
  moreover have "sched_run c (rs @ [episode_reward l]) (Exploratory, 0) = (frequency_flag t1, reach_count t1)"
    using r0(2) [symmetric] arg_cong [OF fb, of fst] arg_cong [OF fb, of "\<lambda>x. fst (snd x)"]
    by (simp add: sched_run_snoc)
  ultimately show "\<exists>rs. e_reward_list s1 = e_reward_list s @ rs \<and>
              (frequency_flag t1, reach_count t1) = sched_run c rs (Exploratory, 0)"
    using r0(1) by (intro exI [of _ "rs @ [episode_reward l]"]) simp
qed

theorem sched_tracks_returns_witness:
  "\<exists>s' t'. train toy_ext toy_cfg toy_state = Some (Inr (s', t')) \<and>
     (\<exists>rs. e_reward_list s' = e_reward_list toy_state @ rs \<and>
           (frequency_flag t', reach_count t') = sched_run toy_cfg rs (Exploratory, 0))"
proof -
  obtain s' t' where r: "train toy_ext toy_cfg toy_state = Some (Inr (s', t'))"
    using toy_train_runs by blast
  show ?thesis using sched_tracks_returns [OF r] r by blast
qed


text \<open>
  C21. Construction (lines 24--103). \<^verbatim>\<open>__init__\<close> raises on an unknown environment
  type and otherwise builds a state with an empty memory, zero counters and fresh labels,
  from which the counters of C17 and C19 start in agreement; the only call it makes is
  one reset of an RLBench environment.
\<close>

theorem oprrl_init_result:
  "(oprrl_init X et e g m = Inl WrongEnvType \<longleftrightarrow> et \<notin> range env_type_name) \<and>
   (oprrl_init X et e g m = Inr (ty, s) \<longrightarrow>
      et = env_type_name ty \<and> agent_memory s = [] \<and> total_numsteps s = 0 \<and> updates s = 0 \<and>
      rank_count s = 0 \<and> rank_num s = 0 \<and> \<not> stale False (calls s) \<and>
      calls s = (if ty = RLBench then [CEnvReset] else []))"
proof -
  have names: "et \<in> range env_type_name \<longleftrightarrow> et = ''rlbench'' \<or> et = ''mujoco'' \<or> et = ''metaworld''"
  proof
    assume "et \<in> range env_type_name"
    then obtain ty where "et = env_type_name ty" by blast
    then show "et = ''rlbench'' \<or> et = ''mujoco'' \<or> et = ''metaworld''" by (cases ty) simp_all
  next
    assume "et = ''rlbench'' \<or> et = ''mujoco'' \<or> et = ''metaworld''"
    then show "et \<in> range env_type_name" by (metis env_type_name.simps rangeI)
  qed
  have err: "oprrl_init X et e g m = Inl WrongEnvType \<longleftrightarrow> et \<notin> range env_type_name"
    unfolding names by (auto simp: oprrl_init_def parse_env_type_def)
  have ok: "et = env_type_name ty \<and> agent_memory s = [] \<and> total_numsteps s = 0 \<and> updates s = 0 \<and>
      rank_count s = 0 \<and> rank_num s = 0 \<and> \<not> stale False (calls s) \<and>
      calls s = (if ty = RLBench then [CEnvReset] else [])"
    if r: "oprrl_init X et e g m = Inr (ty, s)"
  proof -
    obtain ty' where p: "parse_env_type et = Inr ty'"
      using r by (cases "parse_env_type et") (auto simp: oprrl_init_def)
    with r have ty: "ty' = ty" and
      s: "s = \<lparr>env = if ty = RLBench then snd (env_reset X e) else e, agent = g, agent_memory = [],
               reward_network = m, total_numsteps = 0, updates = 0, rank_count = 0, rank_num = 0,
               i_episode = 0, e_reward_list = [], e_reward_prime_list = [], episode_len_list = [],
               calls = if ty = RLBench then [CEnvReset] else [], logs = []\<rparr>"
      by (auto simp: oprrl_init_def split: if_splits)
    have "et = env_type_name ty"
      using p ty by (cases ty) (auto simp: parse_env_type_def split: if_splits)
    then show ?thesis by (simp add: s)
  qed
  from err ok show ?thesis by blast
qed


theorem oprrl_init_result_witness:
  "\<exists>s. oprrl_init toy_ext ''rlbench'' 0 0 (0, 0) = Inr (RLBench, s) \<and>
       ''rlbench'' = env_type_name RLBench \<and> agent_memory s = [] \<and> total_numsteps s = 0 \<and>
       \<not> stale False (calls s) \<and> calls s = [CEnvReset]"
proof -
  have r: "oprrl_init toy_ext ''rlbench'' 0 0 (0, 0) =
    Inr (RLBench, \<lparr>env = 0, agent = 0, agent_memory = [], reward_network = (0, 0),
                   total_numsteps = 0, updates = 0, rank_count = 0, rank_num = 0,
                   i_episode = 0, e_reward_list = [], e_reward_prime_list = [],
                   episode_len_list = [], calls = [CEnvReset], logs = []\<rparr>)"
    by (simp add: oprrl_init_def parse_env_type_def toy_ext_def)
  show ?thesis using oprrl_init_result [of toy_ext "''rlbench''" 0 0 "(0, 0)"] r by auto
qed

end
