(* ===== verification/Invariants.thy ===== *)
theory Invariants
  imports Train
begin

text \<open>
  Invariants of the orchestrator's state over a training run (\<^verbatim>\<open>OPRRL.train\<close>,
  \<^verbatim>\<open>src/main.py\<close> lines 152--303): the bounds on the length of every episode, and a
  well-formedness predicate \<open>oprrl_wf\<close> on the state (the memory holds one transition
  per environment step, every mask is 0 or 1, the three per-episode lists have one entry
  per episode and the recorded lengths add up to \<^verbatim>\<open>total_numsteps\<close>), which
  \<^verbatim>\<open>__init__\<close> establishes and every episode keeps.
\<close>

section \<open>Well-formed states\<close>

text \<open>The values \<^verbatim>\<open>mask = 1 if ... else float(not done)\<close> can take (line 215).\<close>

definition mask_ok :: "real \<Rightarrow> bool" where
  "mask_ok m \<longleftrightarrow> m = 0 \<or> m = 1"

definition oprrl_wf :: "('s, 'a, 'e, 'g, 'm) oprrl \<Rightarrow> bool" where
  "oprrl_wf s \<longleftrightarrow>
     length (agent_memory s) = total_numsteps s \<and>
     sum_list (episode_len_list s) = total_numsteps s \<and>
     length (e_reward_list s) = length (episode_len_list s) \<and>
     length (e_reward_prime_list s) = length (episode_len_list s) \<and>
     list_all mask_ok (map t_mask (agent_memory s))"

section \<open>The step loop\<close>

text \<open>From a step count below the budget, the step loop takes at least one step, stops at
  the budget at the latest, and appends transitions whose masks are 0 or 1.\<close>

lemma run_steps_bounds:
  assumes "run_steps X c s l = Inr (s', l')" and "\<not> ep_done l"
    and "episode_steps l < episode_len c"
  shows "episode_steps l < episode_steps l' \<and> episode_steps l' \<le> episode_len c \<and>
         (\<exists>ts. agent_memory s' = agent_memory s @ ts \<and> list_all mask_ok (map t_mask ts) \<and>
               ts \<noteq> [] \<and> t_mask (last ts) = (if episode_steps l' < episode_len c then 0 else 1))"
  using assms
proof (induction X c s l arbitrary: s' l' rule: run_steps.induct)
  case (1 X c s l)
  from "1.prems"(1,2) obtain s1 l1 where st: "step_once X c s l = Inr (s1, l1)"
    and rs: "run_steps X c s1 l1 = Inr (s', l')"
    by (auto simp: run_steps_unfold [of X c s l] sbind_eq_Inr)
  obtain t where t: "agent_memory s1 = agent_memory s @ [t]"
    and m: "t_mask t = (if episode_steps l1 < episode_len c \<and> ep_done l1 then 0 else 1)"
    and n: "episode_steps l1 = Suc (episode_steps l)" "episode_steps l1 \<le> episode_len c"
    and d: "episode_steps l1 = episode_len c \<longrightarrow> ep_done l1"
    using step_once_pushed [OF st "1.prems"(3)] by blast
  have mt: "mask_ok (t_mask t)" by (simp add: m mask_ok_def)
  show ?case
  proof (cases "ep_done l1")
    case True
    with rs have "s' = s1" "l' = l1" by (simp_all add: run_steps_stop)
    with t mt m n True show ?thesis by auto
  next
    case False
    with n d have lt: "episode_steps l1 < episode_len c" by (cases "episode_steps l1 = episode_len c") auto
    from "1.IH" [OF "1.prems"(2) st _ rs False lt] obtain ts where
      "episode_steps l1 < episode_steps l'" "episode_steps l' \<le> episode_len c"
      "agent_memory s' = agent_memory s1 @ ts" "list_all mask_ok (map t_mask ts)" "ts \<noteq> []"
      "t_mask (last ts) = (if episode_steps l' < episode_len c then 0 else 1)"
      by auto
    with t mt n show ?thesis by (intro conjI exI [of _ "t # ts"]) auto
  qed
qed

section \<open>One episode\<close>

text \<open>An episode records its length, between 1 and \<open>episode_len\<close>, and adds that many
  transitions with masks 0 or 1 to the memory; relabelling changes no mask.\<close>

lemma episode_log_window: "snd (episode_log c l de s1) = snd (episode_log c l de s)"
  by (simp add: episode_log_def Let_def)

lemma episode_memory:
  fixes X :: "('s, 'a, 'e, 'g, 'm) ext"
  assumes "episode X c t s = Some (Inr (s', t'))"
  shows "\<exists>n ms (l :: 's ep_locals). episode_len_list s' = episode_len_list s @ [n] \<and> 1 \<le> n \<and> n \<le> episode_len c \<and>
           map t_mask (agent_memory s') = map t_mask (agent_memory s) @ ms \<and>
           length ms = n \<and> list_all mask_ok ms \<and> last ms = (if n < episode_len c then 0 else 1) \<and>
           episode_steps l = n \<and> succ_de t' = snd (episode_log c l (succ_de t) s)"
  using assms
proof (rule episode_InrE)
  fix s1 l1 f rc lf ntr s3
  assume t': "t' = \<lparr>frequency_flag = f, reach_count = rc, succ_de = snd (episode_log c l1 (succ_de t) s1)\<rparr>"
    and r: "run_steps X c (fst (reset_episode X s)) (snd (reset_episode X s)) = Inr (s1, l1)"
    and lb: "learn_block X c f lf ntr (record_episode l1 (fst (episode_log c l1 (succ_de t) s1))) = Inr s3"
    and ev: "eval_hook X c (pretrain_exit X c s3) = Some (Inr s')"
  have s0: "fst (reset_episode X s) = s\<lparr>env := snd (env_reset X (env s)), calls := calls s @ [CEnvReset]\<rparr>"
    and l0: "\<not> ep_done (snd (reset_episode X s))" "episode_steps (snd (reset_episode X s)) = 0"
    by (simp_all add: reset_episode_def split: prod.splits)
  have pos: "0 < episode_len c" using run_steps_Inr_pos [OF r l0(1)] .
  obtain ts where b: "0 < episode_steps l1" "episode_steps l1 \<le> episode_len c"
    and m1: "agent_memory s1 = agent_memory s @ ts" and ok: "list_all mask_ok (map t_mask ts)"
    and lm: "ts \<noteq> []" "t_mask (last ts) = (if episode_steps l1 < episode_len c then 0 else 1)"
    using run_steps_bounds [OF r l0(1)] l0(2) pos unfolding s0 by auto
  have len: "length ts = episode_steps l1" and el1: "episode_len_list s1 = episode_len_list s"
    using run_steps_frame [OF r] l0(2) m1 unfolding s0 by auto
  obtain L where el: "fst (episode_log c l1 (succ_de t) s1) = s1\<lparr>logs := L\<rparr>"
    using episode_log_frame by blast
  have f3: "map t_mask (agent_memory s3) = map t_mask (agent_memory s) @ map t_mask ts \<and>
      episode_len_list s3 = episode_len_list s @ [episode_steps l1]"
    using learn_block_effect [OF lb [unfolded el]] m1 el1 by (simp add: record_episode_def)
  obtain cs4 where s': "s' = pretrain_exit X c s3\<lparr>env := env s', agent := agent s',
        calls := calls (pretrain_exit X c s3) @ cs4\<rparr>"
    using eval_hook_effect [OF pos ev] by blast
  have "map t_mask (agent_memory s') = map t_mask (agent_memory s) @ map t_mask ts \<and>
        episode_len_list s' = episode_len_list s @ [episode_steps l1]"
    using pretrain_exit_effect [of X c s3] f3 by (subst s', simp)+
  moreover have "succ_de t' = snd (episode_log c l1 (succ_de t) s)"
    using t' episode_log_window by simp
  ultimately show ?thesis using b len ok lm
    by (intro exI [of _ "episode_steps l1"] exI [of _ "map t_mask ts"] exI [of _ l1]) (auto simp: last_map)
qed

lemma oprrl_init_wf: "oprrl_init X et e g m = Inr (ty, s) \<Longrightarrow> oprrl_wf s"
  by (auto simp: oprrl_init_def oprrl_wf_def sbind_eq_Inr split: if_splits prod.splits)


section \<open>Properties of a run\<close>

text \<open>
  C23. Episode lengths are bounded (spec section 4.1). Every episode of a run that
  returns takes between 1 and \<open>episode_len\<close> environment steps, so a run of \<open>k\<close>
  episodes adds at most \<open>k * episode_len\<close> to \<^verbatim>\<open>total_numsteps\<close>.
\<close>

theorem episode_lengths_bounded:
  assumes "train X c s = Some (Inr (s', t'))"
  shows "\<exists>ns. episode_len_list s' = episode_len_list s @ ns \<and>
              (\<forall>n\<in>set ns. 1 \<le> n \<and> n \<le> episode_len c) \<and>
              total_numsteps s' \<le> total_numsteps s + length ns * episode_len c"
  using assms [unfolded train_def]
proof (rule train_loop_invariant [where P = "\<lambda>s1 t1. \<exists>ns. episode_len_list s1 = episode_len_list s @ ns \<and>
              (\<forall>n\<in>set ns. 1 \<le> n \<and> n \<le> episode_len c) \<and>
              total_numsteps s1 \<le> total_numsteps s + length ns * episode_len c"])
  show "\<exists>ns. episode_len_list s = episode_len_list s @ ns \<and>
              (\<forall>n\<in>set ns. 1 \<le> n \<and> n \<le> episode_len c) \<and>
              total_numsteps s \<le> total_numsteps s + length ns * episode_len c"
    by (intro exI [of _ "[]"]) simp
next
  fix s0 t0 s1 t1 j
  assume "\<exists>ns. episode_len_list s0 = episode_len_list s @ ns \<and>
              (\<forall>n\<in>set ns. 1 \<le> n \<and> n \<le> episode_len c) \<and>
              total_numsteps s0 \<le> total_numsteps s + length ns * episode_len c"
    and ep: "episode X c t0 (s0\<lparr>i_episode := j\<rparr>) = Some (Inr (s1, t1))"
  then obtain ns where n0: "episode_len_list s0 = episode_len_list s @ ns"
    "\<forall>n\<in>set ns. 1 \<le> n \<and> n \<le> episode_len c"
    "total_numsteps s0 \<le> total_numsteps s + length ns * episode_len c" by blast
  obtain n where n: "episode_len_list s1 = episode_len_list s0 @ [n]" "1 \<le> n" "n \<le> episode_len c"
    using episode_memory [OF ep] by auto
  from episode_effect [OF ep] obtain l :: "'a ep_locals" where
    "episode_len_list s1 = episode_len_list s0 @ [episode_steps l]"
    "total_numsteps s1 = total_numsteps s0 + episode_steps l" by auto
  with n have "total_numsteps s1 = total_numsteps s0 + n" by simp
  with n0 n show "\<exists>ns. episode_len_list s1 = episode_len_list s @ ns \<and>
              (\<forall>n\<in>set ns. 1 \<le> n \<and> n \<le> episode_len c) \<and>
              total_numsteps s1 \<le> total_numsteps s + length ns * episode_len c"
    by (intro exI [of _ "ns @ [n]"]) auto
qed

theorem episode_lengths_bounded_witness:
  "\<exists>s' t'. train toy_ext toy_cfg toy_state = Some (Inr (s', t')) \<and>
     (\<exists>ns. episode_len_list s' = episode_len_list toy_state @ ns \<and>
           list_all (\<lambda>n. 1 \<le> n \<and> n \<le> episode_len toy_cfg) ns \<and>
           total_numsteps s' \<le> total_numsteps toy_state + length ns * episode_len toy_cfg)"
proof -
  obtain s' t' where r: "train toy_ext toy_cfg toy_state = Some (Inr (s', t'))"
    using toy_train_runs by blast
  show ?thesis using episode_lengths_bounded [OF r] r by (auto simp: list_all_iff)
qed

text \<open>
  C24. The state stays well-formed. \<open>oprrl_wf\<close> holds after every run that returns
  from a well-formed state (the state \<^verbatim>\<open>__init__\<close> builds is one, by the separate
  lemma \<open>oprrl_init_wf\<close> above):
  the replay memory has one transition per environment step, every mask is 0 or 1, the
  three per-episode lists grow together and the recorded lengths add up to
  \<^verbatim>\<open>total_numsteps\<close>.
\<close>

theorem oprrl_wf_run:
  assumes "oprrl_wf s" and "train X c s = Some (Inr (s', t'))"
  shows "oprrl_wf s'"
  using assms(2) [unfolded train_def]
proof (rule train_loop_invariant [where P = "\<lambda>s1 t1. oprrl_wf s1"])
  show "oprrl_wf s" by (rule assms(1))
next
  fix s0 t0 s1 t1 j
  assume wf: "oprrl_wf s0" and ep: "episode X c t0 (s0\<lparr>i_episode := j\<rparr>) = Some (Inr (s1, t1))"
  obtain n ms where m: "episode_len_list s1 = episode_len_list s0 @ [n]"
    "map t_mask (agent_memory s1) = map t_mask (agent_memory s0) @ ms"
    "length ms = n" "list_all mask_ok ms"
    using episode_memory [OF ep] by auto
  from episode_effect [OF ep] obtain l :: "'a ep_locals" where
    e: "e_reward_list s1 = e_reward_list s0 @ [episode_reward l]"
    "e_reward_prime_list s1 = e_reward_prime_list s0 @ [episode_reward_prime l]"
    "episode_len_list s1 = episode_len_list s0 @ [episode_steps l]"
    "total_numsteps s1 = total_numsteps s0 + episode_steps l" by auto
  have "length (agent_memory s1) = length (agent_memory s0) + n"
    using arg_cong [OF m(2), of length] m(3) by simp
  with wf m e show "oprrl_wf s1" by (simp add: oprrl_wf_def)
qed

theorem oprrl_wf_run_witness:
  "oprrl_wf toy_state \<and>
   (\<exists>s' t'. train toy_ext toy_cfg toy_state = Some (Inr (s', t')) \<and> oprrl_wf s')"
proof -
  have wf: "oprrl_wf toy_state" by (simp add: oprrl_wf_def toy_state_def)
  obtain s' t' where r: "train toy_ext toy_cfg toy_state = Some (Inr (s', t'))"
    using toy_train_runs by blast
  show ?thesis using oprrl_wf_run [OF wf r] wf r by blast
qed

end
