(* ===== verification/Schedule.thy ===== *)
theory Schedule
  imports Invariants
begin

text \<open>
  The episode schedule of a training run (\<^verbatim>\<open>OPRRL.train\<close>, \<^verbatim>\<open>src/main.py\<close> lines
  152--303): the call record of a run that returns splits into one segment per episode.
  Each segment starts with the environment reset and makes one action call per step,
  random ones in the warm-up episodes (\<open>i \<le> start_episodes\<close>, lines 175--181) and the
  policy's afterwards. It holds a ranking round exactly when the episode number is a
  multiple of the learning frequency the scheduler chose for that episode and the ranked
  count is under the ceiling (lines 258--284). This is the scenario of spec section 8,
  for every configuration and every run. The same call record shows that the update
  counter counts every agent update except those of the pretrain-exit burst.
\<close>

section \<open>The trace of one episode\<close>

text \<open>
  What a run shows of one episode: its return, its number of steps, the value of
  \<^verbatim>\<open>rank_num\<close> after it, and its calls.
\<close>

record ep_trace =
  tr_return :: real
  tr_steps :: nat
  tr_rank_num :: nat
  tr_calls :: "call list"

text \<open>
  The schedule of episode \<open>i\<close>, started with scheduler state \<open>(f, rc)\<close> and
  \<^verbatim>\<open>rank_num = rn\<close>. The scheduler reads the episode's return and chooses the
  frequency \<open>lf\<close> and the batch \<open>ntr\<close>. A ranking round asks for \<open>ntr\<close>
  trajectories and may set \<^verbatim>\<open>rank_num\<close> to any value. Without a round,
  \<^verbatim>\<open>rank_num\<close> is unchanged.
\<close>

definition episode_ok :: "cfg \<Rightarrow> nat \<Rightarrow> freq_flag \<Rightarrow> nat \<Rightarrow> nat \<Rightarrow> ep_trace \<Rightarrow> bool" where
  "episode_ok c i f rc rn e =
     (case frequency_block c (tr_return e) f rc of (f', rc', lf, ntr) \<Rightarrow>
        take 1 (tr_calls e) = [CEnvReset] \<and> 0 < tr_steps e \<and>
        filter train_action (tr_calls e) = replicate (tr_steps e) (action_call c i) \<and>
        (if i mod lf = 0 \<and> rn \<le> max_rank_num c then filter is_rank (tr_calls e) = [CRank ntr]
         else filter is_rank (tr_calls e) = [] \<and> tr_rank_num e = rn))"

text \<open>The schedule of the episodes \<open>i, i + 1, \<dots>\<close>, the scheduler state carried along.\<close>

fun schedule_ok :: "cfg \<Rightarrow> nat \<Rightarrow> freq_flag \<times> nat \<Rightarrow> nat \<Rightarrow> ep_trace list \<Rightarrow> bool" where
  "schedule_ok c i st rn [] = True"
| "schedule_ok c i (f, rc) rn (e # es) =
     (episode_ok c i f rc rn e \<and>
      (case frequency_block c (tr_return e) f rc of
         (f', rc', _) \<Rightarrow> schedule_ok c (Suc i) (f', rc') (tr_rank_num e) es))"

text \<open>
  The scenario of spec section 8: warm-up of 5 episodes, no pretraining, 10 steps per
  episode, a ranking round every third exploratory episode, the flag flipping on returns
  above 100, a ceiling of 1000 ranked trajectories.
\<close>

definition scenario_cfg :: cfg where
  "scenario_cfg =
     \<lparr>episode_len = 10, max_episodes = 8, change_flag_reward = 100, env_type = Mujoco,
      batch_size = 4, updates_per_step = 1, start_episodes = 5, pretrain_episodes = 0,
      eval_enabled = False, eval_per_episode = 5, eval_episodes = 1,
      learn_reward_frequency_1 = 3, num_to_rank_1 = 2, learn_reward_frequency = 6,
      num_to_rank = 4, max_rank_num = 1000, wandb_log = False\<rparr>"

section \<open>Facts about the calls\<close>

lemma eval_calls_no_action: "list_all (eval_call True) cs \<Longrightarrow> filter train_action cs = []"
  by (induction cs) (auto simp: eval_call_def)

lemma pretrain_calls_no_action: "filter train_action (pretrain_calls c i u) = []"
  by (simp add: pretrain_calls_def)

lemma rank_calls_no_action: "filter train_action (CRank n # replicate k CLearnSoft @ [CRelabel]) = []"
  by (induction k) simp_all

lemma eval_calls_no_update: "list_all (eval_call True) cs \<Longrightarrow> filter is_update cs = []"
  by (induction cs) (auto simp: eval_call_def)

lemma rank_calls_no_update: "filter is_update (CRank n # replicate k CLearnSoft @ [CRelabel]) = []"
  by (induction k) simp_all

lemma pretrain_calls_updates:
  "length (filter is_update (pretrain_calls c i u)) = 100 * count_list (pretrain_calls c i u) CResetCritic"
  by (simp add: pretrain_calls_def)

lemmas update_call_facts =
  eval_calls_no_update rank_calls_no_update pretrain_calls_updates
  step_calls_facts eval_calls_facts pretrain_calls_facts rank_calls_facts

lemmas schedule_call_facts =
  eval_calls_no_action pretrain_calls_no_action rank_calls_no_action
  step_calls_facts eval_calls_facts pretrain_calls_facts rank_calls_facts

text \<open>One episode follows its schedule.\<close>

lemma episode_schedule:
  assumes ep: "episode X c t s = Some (Inr (s', t'))"
  shows "\<exists>e. calls s' = calls s @ tr_calls e \<and> e_reward_list s' = e_reward_list s @ [tr_return e] \<and>
     episode_len_list s' = episode_len_list s @ [tr_steps e] \<and> tr_rank_num e = rank_num s' \<and>
     episode_ok c (i_episode s) (frequency_flag t) (reach_count t) (rank_num s) e \<and>
     (frequency_flag t', reach_count t') =
       (case frequency_block c (tr_return e) (frequency_flag t) (reach_count t) of
          (f', rc', _) \<Rightarrow> (f', rc'))"
proof -
  obtain n where n: "episode_len_list s' = episode_len_list s @ [n]" "1 \<le> n"
    using episode_memory [OF ep] by blast
  from episode_effect [OF ep] obtain l :: "'a ep_locals" and cs1 cs2 u cs4 lf ntr where
    cl: "calls s' = calls s @ CEnvReset # cs1 @ cs2 @ pretrain_calls c (i_episode s) u @ cs4"
    and cs1: "list_all step_call cs1" and cs4: "list_all (eval_call True) cs4"
    and act: "filter train_action cs1 = replicate (episode_steps l) (action_call c (i_episode s))"
    and lfn: "snd (snd (frequency_block c (episode_reward l) (frequency_flag t) (reach_count t))) = (lf, ntr)"
    and rk: "(\<not> (i_episode s mod lf = 0 \<and> rank_num s \<le> max_rank_num c) \<and>
      cs2 = [] \<and> rank_count s' = rank_count s \<and> rank_num s' = rank_num s) \<or>
     (i_episode s mod lf = 0 \<and> rank_num s \<le> max_rank_num c \<and> rank_count s' = Suc (rank_count s) \<and>
      (\<exists>k. cs2 = CRank ntr # replicate k CLearnSoft @ [CRelabel]))"
    and rw: "e_reward_list s' = e_reward_list s @ [episode_reward l]"
    and ln: "episode_len_list s' = episode_len_list s @ [episode_steps l]"
    and fb: "frequency_block c (episode_reward l) (frequency_flag t) (reach_count t) =
      (frequency_flag t', reach_count t',
       snd (snd (frequency_block c (episode_reward l) (frequency_flag t) (reach_count t))))"
    by (elim exE conjE) (rule that; assumption)
  let ?cs = "CEnvReset # cs1 @ cs2 @ pretrain_calls c (i_episode s) u @ cs4"
  let ?e = "\<lparr>tr_return = episode_reward l, tr_steps = episode_steps l, tr_rank_num = rank_num s',
             tr_calls = ?cs\<rparr>"
  have fb': "frequency_block c (episode_reward l) (frequency_flag t) (reach_count t) =
      (frequency_flag t', reach_count t', lf, ntr)"
    using fb unfolding lfn .
  have pos: "0 < episode_steps l" using n ln by simp
  have "episode_ok c (i_episode s) (frequency_flag t) (reach_count t) (rank_num s) ?e"
    using rk
  proof (elim disjE conjE exE)
    assume "\<not> (i_episode s mod lf = 0 \<and> rank_num s \<le> max_rank_num c)" "cs2 = []"
      "rank_num s' = rank_num s"
    then show ?thesis using cs1 cs4 act pos
      by (simp add: episode_ok_def fb' schedule_call_facts)
  next
    fix k
    assume "i_episode s mod lf = 0" "rank_num s \<le> max_rank_num c"
      "cs2 = CRank ntr # replicate k CLearnSoft @ [CRelabel]"
    then show ?thesis using cs1 cs4 act pos
      by (simp add: episode_ok_def fb' schedule_call_facts)
  qed
  then show ?thesis using cl rw ln fb' by (intro exI [of _ ?e]) simp
qed


text \<open>The loop from episode \<open>i\<close> follows the schedule of its episodes.\<close>

lemma train_loop_schedule:
  assumes "train_loop X c t s i = Some (Inr (s', t'))"
  shows "\<exists>es. calls s' = calls s @ concat (map tr_calls es) \<and>
     e_reward_list s' = e_reward_list s @ map tr_return es \<and>
     episode_len_list s' = episode_len_list s @ map tr_steps es \<and>
     length es = Suc (max i (max_episodes c - 1)) - i \<and>
     schedule_ok c i (frequency_flag t, reach_count t) (rank_num s) es"
  using assms
proof (induction "max_episodes c - i" arbitrary: t s i rule: less_induct)
  case less
  obtain s1 t1 where ep: "episode X c t (s\<lparr>i_episode := i\<rparr>) = Some (Inr (s1, t1))"
    using less.prems
    by (auto simp: train_loop_unfold [of X c t s i] split: option.splits sum.splits)
  from episode_schedule [OF ep] obtain e where
    e: "calls s1 = calls s @ tr_calls e" "e_reward_list s1 = e_reward_list s @ [tr_return e]"
      "episode_len_list s1 = episode_len_list s @ [tr_steps e]" "tr_rank_num e = rank_num s1"
      "episode_ok c i (frequency_flag t) (reach_count t) (rank_num s) e"
    and st: "(frequency_flag t1, reach_count t1) =
       (case frequency_block c (tr_return e) (frequency_flag t) (reach_count t) of
          (f', rc', _) \<Rightarrow> (f', rc'))"
    by auto
  obtain f' rc' lf ntr where fb: "frequency_block c (tr_return e) (frequency_flag t) (reach_count t) =
      (f', rc', lf, ntr)" by (metis prod_cases4)
  show ?case
  proof (cases "max_episodes c - 1 \<le> i")
    case True
    with less.prems ep have "s' = s1" by (simp add: train_loop_unfold [of X c t s i])
    with True e fb show ?thesis by (intro exI [of _ "[e]"]) simp
  next
    case False
    with less.prems ep have "train_loop X c t1 s1 (Suc i) = Some (Inr (s', t'))"
      by (simp add: train_loop_unfold [of X c t s i])
    moreover from False have "max_episodes c - Suc i < max_episodes c - i" by simp
    ultimately obtain es where es: "calls s' = calls s1 @ concat (map tr_calls es)"
      "e_reward_list s' = e_reward_list s1 @ map tr_return es"
      "episode_len_list s' = episode_len_list s1 @ map tr_steps es"
      "length es = Suc (max (Suc i) (max_episodes c - 1)) - Suc i"
      "schedule_ok c (Suc i) (frequency_flag t1, reach_count t1) (rank_num s1) es"
      using less.hyps by blast
    have "schedule_ok c i (frequency_flag t, reach_count t) (rank_num s) (e # es)"
      using e(4,5) es(5) st fb by simp
    with False e es(1-4) show ?thesis by (intro exI [of _ "e # es"]) auto
  qed
qed

text \<open>One episode counts every agent update but those of the pretrain-exit burst.\<close>

lemma episode_updates:
  assumes ep: "episode X c t s = Some (Inr (s', t'))"
  shows "\<exists>cs. calls s' = calls s @ cs \<and>
     updates s' + 100 * count_list cs CResetCritic = updates s + length (filter is_update cs)"
proof -
  from episode_effect [OF ep] obtain cs1 cs2 u cs4 lf ntr where
    cl: "calls s' = calls s @ CEnvReset # cs1 @ cs2 @ pretrain_calls c (i_episode s) u @ cs4"
    and cs1: "list_all step_call cs1" and cs4: "list_all (eval_call True) cs4"
    and up: "updates s' = updates s + length (filter is_update cs1)"
    and rk0: "(\<not> (i_episode s mod lf = 0 \<and> rank_num s \<le> max_rank_num c) \<and>
      cs2 = [] \<and> rank_count s' = rank_count s \<and> rank_num s' = rank_num s) \<or>
     (i_episode s mod lf = 0 \<and> rank_num s \<le> max_rank_num c \<and> rank_count s' = Suc (rank_count s) \<and>
      (\<exists>k. cs2 = CRank ntr # replicate k CLearnSoft @ [CRelabel]))"
    by (elim exE conjE) (rule that; assumption)
  from rk0 have rk: "cs2 = [] \<or> (\<exists>n k. cs2 = CRank n # replicate k CLearnSoft @ [CRelabel])"
    by blast
  let ?cs = "CEnvReset # cs1 @ cs2 @ pretrain_calls c (i_episode s) u @ cs4"
  have "updates s' + 100 * count_list ?cs CResetCritic = updates s + length (filter is_update ?cs)"
    using rk
  proof (elim disjE exE)
    assume "cs2 = []"
    then show ?thesis using cs1 cs4 up by (simp add: update_call_facts)
  next
    fix n k
    assume "cs2 = CRank n # replicate k CLearnSoft @ [CRelabel]"
    then show ?thesis using cs1 cs4 up by (simp add: update_call_facts)
  qed
  with cl show ?thesis by blast
qed

text \<open>While fewer than nine returns can have been counted, the scheduler stays
  Exploratory and every episode uses \<open>(learn_reward_frequency_1, num_to_rank_1)\<close>:
  episode \<open>i + j\<close> of the schedule, with the ranked count it starts from.\<close>

lemma schedule_ok_exploring:
  assumes "schedule_ok c i (Exploratory, rc) rn es" and "rc + length es \<le> 8" and "j < length es"
  shows "filter train_action (tr_calls (es ! j)) = replicate (tr_steps (es ! j)) (action_call c (i + j)) \<and>
    0 < tr_steps (es ! j) \<and>
    (if (i + j) mod learn_reward_frequency_1 c = 0 \<and>
        (if j = 0 then rn else tr_rank_num (es ! (j - 1))) \<le> max_rank_num c
     then filter is_rank (tr_calls (es ! j)) = [CRank (num_to_rank_1 c)]
     else filter is_rank (tr_calls (es ! j)) = [] \<and>
          tr_rank_num (es ! j) = (if j = 0 then rn else tr_rank_num (es ! (j - 1))))"
  using assms
proof (induction es arbitrary: i rc rn j)
  case Nil
  then show ?case by simp
next
  case (Cons e es)
  let ?rc' = "if change_flag_reward c < tr_return e then Suc rc else rc"
  have fb: "frequency_block c (tr_return e) Exploratory rc =
      (Exploratory, ?rc', learn_reward_frequency_1 c, num_to_rank_1 c)"
    using Cons.prems(2) by (simp add: frequency_block_Exploratory Let_def)
  have ok: "episode_ok c i Exploratory rc rn e"
    and rest: "schedule_ok c (Suc i) (Exploratory, ?rc') (tr_rank_num e) es"
    using Cons.prems(1) fb by simp_all
  show ?case
  proof (cases j)
    case 0
    then show ?thesis using ok fb by (simp add: episode_ok_def split: if_splits)
  next
    case (Suc j')
    have le: "?rc' + length es \<le> 8" using Cons.prems(2) by simp
    have lt: "j' < length es" using Cons.prems(3) Suc by simp
    have nth: "(e # es) ! j' = (if j' = 0 then e else es ! (j' - 1))" by (cases j') simp_all
    show ?thesis using Cons.IH [OF rest le lt] Suc unfolding nth by (auto split: if_splits)
  qed
qed

section \<open>The schedule of a training run\<close>

text \<open>
  C27. Episode schedule (spec section 8, scenario; sections 4.1 and 4.2). The calls of
  a run that returns are the concatenation of one segment per episode \<open>1, 2, \<dots>\<close>,
  \<open>max 1 (max_episodes - 1)\<close> of them, whose returns and lengths are the recorded
  ones. Episode \<open>i\<close>'s segment starts with the environment reset. It makes one action
  call per step, at least one step: random actions when \<open>i \<le> start_episodes\<close>, the
  policy's otherwise. It ranks \<open>ntr\<close> trajectories exactly when \<open>i\<close> is a multiple of
  the learning frequency the scheduler chose from the episode's return and the ranked
  count is at most \<open>max_rank_num\<close>; here \<open>(lf, ntr)\<close> is the pair of the flag after
  that episode's evaluation, with the scheduler state carried from episode to episode.
\<close>

theorem train_schedule:
  assumes "train X c s = Some (Inr (s', t'))"
  shows "\<exists>es. calls s' = calls s @ concat (map tr_calls es) \<and>
     e_reward_list s' = e_reward_list s @ map tr_return es \<and>
     episode_len_list s' = episode_len_list s @ map tr_steps es \<and>
     length es = max 1 (max_episodes c - 1) \<and>
     schedule_ok c 1 (Exploratory, 0) (rank_num s) es"
  using train_loop_schedule [OF assms [unfolded train_def]] by simp

theorem train_schedule_witness:
  "\<exists>s' t'. train toy_ext scenario_cfg toy_state = Some (Inr (s', t')) \<and>
     (\<exists>es. calls s' = calls toy_state @ concat (map tr_calls es) \<and>
        e_reward_list s' = e_reward_list toy_state @ map tr_return es \<and>
        episode_len_list s' = episode_len_list toy_state @ map tr_steps es \<and>
        length es = max 1 (max_episodes scenario_cfg - 1) \<and>
        schedule_ok scenario_cfg 1 (Exploratory, 0) (rank_num toy_state) es)"
proof -
  have h: "0 < episode_len scenario_cfg" "0 < learn_reward_frequency_1 scenario_cfg"
    "0 < learn_reward_frequency scenario_cfg" "0 < eval_per_episode scenario_cfg"
    by (simp_all add: scenario_cfg_def)
  obtain s' t' where r: "train toy_ext scenario_cfg toy_state = Some (Inr (s', t'))"
    using train_loop_runs [OF h, of toy_ext "\<lparr>frequency_flag = Exploratory, reach_count = 0,
        succ_de = []\<rparr>" toy_state 1]
    unfolding train_def by blast
  show ?thesis using train_schedule [OF r] r by blast
qed


text \<open>
  C29. The update counter (spec section 4.1, step 1; section 4.4). Over a run that
  returns, \<^verbatim>\<open>self.updates\<close> grows by the number of agent-update calls the run made,
  minus 100 for each critic reset: the step updates are counted, and the 100 updates of
  the pretrain-exit burst (the only place the critic is reset) are not.
\<close>

theorem updates_count:
  assumes "train X c s = Some (Inr (s', t'))"
  shows "\<exists>cs. calls s' = calls s @ cs \<and>
     updates s' + 100 * count_list cs CResetCritic = updates s + length (filter is_update cs)"
  using assms [unfolded train_def]
proof (rule train_loop_invariant)
  show "\<exists>cs. calls s = calls s @ cs \<and>
      updates s + 100 * count_list cs CResetCritic = updates s + length (filter is_update cs)"
    by (intro exI [of _ "[]"]) simp
next
  fix s0 t0 s1 t1 j
  assume "\<exists>cs. calls s0 = calls s @ cs \<and>
      updates s0 + 100 * count_list cs CResetCritic = updates s + length (filter is_update cs)"
    and ep: "episode X c t0 (s0\<lparr>i_episode := j\<rparr>) = Some (Inr (s1, t1))"
  then obtain cs0 where c0: "calls s0 = calls s @ cs0"
    "updates s0 + 100 * count_list cs0 CResetCritic = updates s + length (filter is_update cs0)"
    by blast
  from episode_updates [OF ep] obtain cs where c1: "calls s1 = calls s0 @ cs"
    "updates s1 + 100 * count_list cs CResetCritic = updates s0 + length (filter is_update cs)"
    by auto
  show "\<exists>cs. calls s1 = calls s @ cs \<and>
      updates s1 + 100 * count_list cs CResetCritic = updates s + length (filter is_update cs)"
    using c0 c1 by (intro exI [of _ "cs0 @ cs"]) simp
qed

theorem updates_count_witness:
  "\<exists>s' t'. train toy_ext toy_cfg toy_state = Some (Inr (s', t')) \<and>
     (\<exists>cs. calls s' = calls toy_state @ cs \<and>
        updates s' + 100 * count_list cs CResetCritic = updates toy_state + length (filter is_update cs))"
proof -
  obtain s' t' where r: "train toy_ext toy_cfg toy_state = Some (Inr (s', t'))"
    using toy_train_runs by blast
  show ?thesis using updates_count [OF r] r by blast
qed


text \<open>
  C31. The scenario of spec section 8, on \<open>scenario_cfg\<close> (5 warm-up episodes, no
  pretraining, 10 steps, ranking every third exploratory episode, threshold 100,
  ceiling 1000, 7 episodes) and for every collaborator and start state. Episodes 1--5
  act randomly and episodes 6--7 with the policy, at least one action each. Episode 3
  ranks \<open>num_to_rank_1 = 2\<close> trajectories if \<^verbatim>\<open>rank_num\<close> starts under the ceiling.
  Episode 6 does so if \<^verbatim>\<open>rank_num\<close> after episode 5 is under it. No other episode
  ranks. Nine qualifying returns cannot occur in 7 episodes, so the flag stays
  Exploratory.
\<close>

theorem scenario_run:
  assumes "train X scenario_cfg s = Some (Inr (s', t'))"
  shows "\<exists>es :: ep_trace list. calls s' = calls s @ concat (map tr_calls es) \<and> length es = 7 \<and>
     (\<forall>j<7. 0 < tr_steps (es ! j) \<and>
        filter train_action (tr_calls (es ! j)) =
          replicate (tr_steps (es ! j)) (if j < 5 then CRandomAction else CSelectAction False)) \<and>
     filter is_rank (tr_calls (es ! 2)) = (if rank_num s \<le> 1000 then [CRank 2] else []) \<and>
     filter is_rank (tr_calls (es ! 5)) = (if tr_rank_num (es ! 4) \<le> 1000 then [CRank 2] else []) \<and>
     (\<forall>j\<in>{0, 1, 3, 4, 6}. filter is_rank (tr_calls (es ! j)) = [])"
proof -
  obtain es where cl: "calls s' = calls s @ concat (map tr_calls es)"
    and len: "length es = 7" and ok: "schedule_ok scenario_cfg 1 (Exploratory, 0) (rank_num s) es"
    using train_loop_schedule [OF assms [unfolded train_def]] by (auto simp: scenario_cfg_def)
  note ep = schedule_ok_exploring [OF ok, unfolded len, simplified]
  have act: "\<forall>j<7. 0 < tr_steps (es ! j) \<and>
      filter train_action (tr_calls (es ! j)) =
        replicate (tr_steps (es ! j)) (if j < 5 then CRandomAction else CSelectAction False)"
    using ep by (auto simp: scenario_cfg_def)
  have "if (Suc j) mod 3 = 0 \<and> (if j = 0 then rank_num s else tr_rank_num (es ! (j - 1))) \<le> 1000
     then filter is_rank (tr_calls (es ! j)) = [CRank 2]
     else filter is_rank (tr_calls (es ! j)) = [] \<and>
          tr_rank_num (es ! j) = (if j = 0 then rank_num s else tr_rank_num (es ! (j - 1)))"
    if "j < 7" for j
    using ep [of j] that by (simp add: scenario_cfg_def)
  from this [of 0] this [of 1] this [of 2] this [of 3] this [of 4] this [of 5] this [of 6]
  have "filter is_rank (tr_calls (es ! 2)) = (if rank_num s \<le> 1000 then [CRank 2] else []) \<and>
     filter is_rank (tr_calls (es ! 5)) = (if tr_rank_num (es ! 4) \<le> 1000 then [CRank 2] else []) \<and>
     (\<forall>j\<in>{0, 1, 3, 4, 6}. filter is_rank (tr_calls (es ! j)) = [])"
    by (simp split: if_splits)
  with cl len act show ?thesis by blast
qed

theorem scenario_run_witness:
  "\<exists>s' t'. train toy_ext scenario_cfg toy_state = Some (Inr (s', t')) \<and>
     (\<exists>es :: ep_trace list. calls s' = calls toy_state @ concat (map tr_calls es) \<and> length es = 7 \<and>
        filter is_rank (tr_calls (es ! 2)) = [CRank 2] \<and>
        (\<forall>j<7. 0 < tr_steps (es ! j) \<and>
           filter train_action (tr_calls (es ! j)) =
             replicate (tr_steps (es ! j)) (if j < 5 then CRandomAction else CSelectAction False)))"
proof -
  have h: "0 < episode_len scenario_cfg" "0 < learn_reward_frequency_1 scenario_cfg"
    "0 < learn_reward_frequency scenario_cfg" "0 < eval_per_episode scenario_cfg"
    by (simp_all add: scenario_cfg_def)
  obtain s' t' where r: "train toy_ext scenario_cfg toy_state = Some (Inr (s', t'))"
    using train_loop_runs [OF h, of toy_ext "\<lparr>frequency_flag = Exploratory, reach_count = 0,
        succ_de = []\<rparr>" toy_state 1]
    unfolding train_def by blast
  have "rank_num toy_state \<le> 1000" by (simp add: toy_state_def)
  then show ?thesis using scenario_run [OF r] r by auto
qed

end
