(* ===== verification/Outcome.thy ===== *)
theory Outcome
  imports Train
begin

text \<open>
  The outcomes of a training run (\<^verbatim>\<open>OPRRL.train\<close>, \<^verbatim>\<open>src/main.py\<close> lines 152--303)
  when the step budget and the evaluation period are positive. The run always ends: it
  returns or raises \<open>ZeroDivisionError\<close>, and no other error. A run that returns has
  only used positive learning frequencies, so the modulo of line 270 never raised.
  In particular, with \<^verbatim>\<open>learn_reward_frequency = 0\<close> a run that returns has never left
  the Exploratory phase: the episode that flips the flag raises.
\<close>

section \<open>One episode\<close>

text \<open>An episode that returns used a positive frequency, the one of its final flag.\<close>

lemma episode_freq_pos:
  assumes "episode X c t s = Some (Inr (s', t'))"
  shows "0 < (if frequency_flag t' = Converged then learn_reward_frequency c
              else learn_reward_frequency_1 c)"
  using assms
proof (rule episode_InrE)
  fix s1 l1 f rc lf ntr s3
  assume fb: "frequency_block c (episode_reward l1) (frequency_flag t) (reach_count t) = (f, rc, lf, ntr)"
    and lb: "learn_block X c f lf ntr (record_episode l1 (fst (episode_log c l1 (succ_de t) s1))) = Inr s3"
    and t': "t' = \<lparr>frequency_flag = f, reach_count = rc, succ_de = snd (episode_log c l1 (succ_de t) s1)\<rparr>"
  have "lf \<noteq> 0" using lb by (cases lf) (simp_all add: learn_block_error)
  then show ?thesis using frequency_block_config [OF fb] t' by (auto split: if_splits)
qed

text \<open>With a positive step budget and evaluation period an episode returns or raises
  \<open>ZeroDivisionError\<close> in its ranking round.\<close>

lemma episode_outcome:
  assumes "0 < episode_len c" and "0 < eval_per_episode c"
  shows "episode X c t s = Some (Inl ZeroDivisionError) \<or>
         (\<exists>s' t'. episode X c t s = Some (Inr (s', t')))"
proof -
  obtain s0 l0 where re: "reset_episode X s = (s0, l0)" by fastforce
  obtain s1 l1 where r: "run_steps X c s0 l0 = Inr (s1, l1)"
    using run_steps_total [OF assms(1)] by blast
  obtain f rc lf ntr where fb: "frequency_block c (episode_reward l1) (frequency_flag t) (reach_count t) =
      (f, rc, lf, ntr)" by (metis prod_cases4)
  obtain s1' de where el: "episode_log c l1 (succ_de t) s1 = (s1', de)" by fastforce
  show ?thesis
  proof (cases lf)
    case 0
    then show ?thesis using re r fb el by (simp add: episode_def episode_tail_def learn_block_error)
  next
    case (Suc k)
    obtain s3 where lb: "learn_block X c f lf ntr (record_episode l1 s1') = Inr s3"
      using learn_block_total [of lf] Suc by blast
    obtain s4 where "eval_hook X c (pretrain_exit X c s3) = Some (Inr s4)"
      using eval_hook_total [OF assms] by blast
    with re r fb el lb show ?thesis by (simp add: episode_def episode_tail_def)
  qed
qed

section \<open>The training loop\<close>

lemma train_loop_outcome:
  assumes "0 < episode_len c" and "0 < eval_per_episode c"
    and "0 < (if frequency_flag t = Converged then learn_reward_frequency c
              else learn_reward_frequency_1 c)"
  shows "train_loop X c t s i = Some (Inl ZeroDivisionError) \<or>
         (\<exists>s' t'. train_loop X c t s i = Some (Inr (s', t')) \<and>
            0 < (if frequency_flag t' = Converged then learn_reward_frequency c
                 else learn_reward_frequency_1 c))"
  using assms(3)
proof (induction "max_episodes c - i" arbitrary: t s i rule: less_induct)
  case less
  from episode_outcome [OF assms(1,2), of X t "s\<lparr>i_episode := i\<rparr>"] show ?case
  proof (elim disjE exE)
    assume "episode X c t (s\<lparr>i_episode := i\<rparr>) = Some (Inl ZeroDivisionError)"
    then show ?thesis by (simp add: train_loop_unfold [of X c t s i])
  next
    fix s1 t1
    assume ep: "episode X c t (s\<lparr>i_episode := i\<rparr>) = Some (Inr (s1, t1))"
    note pos = episode_freq_pos [OF ep]
    show ?thesis
    proof (cases "max_episodes c - 1 \<le> i")
      case True
      then show ?thesis using ep pos by (simp add: train_loop_unfold [of X c t s i])
    next
      case False
      then have "max_episodes c - Suc i < max_episodes c - i" by simp
      then have "train_loop X c t1 s1 (Suc i) = Some (Inl ZeroDivisionError) \<or>
         (\<exists>s' t'. train_loop X c t1 s1 (Suc i) = Some (Inr (s', t')) \<and>
            0 < (if frequency_flag t' = Converged then learn_reward_frequency c
                 else learn_reward_frequency_1 c))"
        using less.hyps pos by blast
      with False ep show ?thesis by (simp add: train_loop_unfold [of X c t s i])
    qed
  qed
qed

section \<open>Properties of the outcome\<close>

text \<open>
  C28. Outcome of a run (spec section 7). With \<open>episode_len > 0\<close> and
  \<open>eval_per_episode > 0\<close>, \<^verbatim>\<open>train\<close> never diverges and raises no error but
  \<open>ZeroDivisionError\<close>. If it returns, the learning frequency of the final phase is
  positive, \<^verbatim>\<open>learn_reward_frequency\<close> after the flip and
  \<^verbatim>\<open>learn_reward_frequency_1\<close> before it. So a zero \<^verbatim>\<open>learn_reward_frequency\<close>
  does not raise at once: it raises in the episode that flips the flag, and a run that
  never flips returns normally.
\<close>

theorem train_outcome:
  assumes "0 < episode_len c" and "0 < eval_per_episode c"
  shows "train X c s = Some (Inl ZeroDivisionError) \<or>
         (\<exists>s' t'. train X c s = Some (Inr (s', t')) \<and>
            (frequency_flag t' = Converged \<longrightarrow> 0 < learn_reward_frequency c) \<and>
            (frequency_flag t' = Exploratory \<longrightarrow> 0 < learn_reward_frequency_1 c))"
proof (cases "learn_reward_frequency_1 c")
  case 0
  then show ?thesis using first_episode_raises [of c X "s\<lparr>i_episode := 1\<rparr>"]
    by (simp add: train_def train_loop_unfold)
next
  case (Suc k)
  then have "0 < (if frequency_flag \<lparr>frequency_flag = Exploratory, reach_count = 0, succ_de = []\<rparr> = Converged
                   then learn_reward_frequency c else learn_reward_frequency_1 c)" by simp
  from train_loop_outcome [OF assms this, of X s 1] show ?thesis
    unfolding train_def by (auto split: if_splits)
qed

theorem train_outcome_witness:
  "0 < episode_len (toy_cfg\<lparr>learn_reward_frequency := 0\<rparr>) \<and>
   0 < eval_per_episode (toy_cfg\<lparr>learn_reward_frequency := 0\<rparr>) \<and>
   (train toy_ext (toy_cfg\<lparr>learn_reward_frequency := 0\<rparr>) toy_state = Some (Inl ZeroDivisionError) \<or>
    (\<exists>s' t'. train toy_ext (toy_cfg\<lparr>learn_reward_frequency := 0\<rparr>) toy_state = Some (Inr (s', t')) \<and>
       (frequency_flag t' = Converged \<longrightarrow> 0 < learn_reward_frequency (toy_cfg\<lparr>learn_reward_frequency := 0\<rparr>)) \<and>
       (frequency_flag t' = Exploratory \<longrightarrow>
          0 < learn_reward_frequency_1 (toy_cfg\<lparr>learn_reward_frequency := 0\<rparr>))))"
proof -
  have h: "0 < episode_len (toy_cfg\<lparr>learn_reward_frequency := 0\<rparr>)"
    "0 < eval_per_episode (toy_cfg\<lparr>learn_reward_frequency := 0\<rparr>)"
    by (simp_all add: toy_cfg_def)
  show ?thesis using h train_outcome [OF h, of toy_ext toy_state] by blast
qed

end
