(* ===== verification/Logging.thy ===== *)
theory Logging
  imports Train
begin

text \<open>
  The wandb logging of \<^verbatim>\<open>OPRRL.train\<close> (\<^verbatim>\<open>src/main.py\<close>, lines 195--196, 228--240
  and 283--284) is write-only: no branch of the code reads the log, and the flag
  \<^verbatim>\<open>wandb_log\<close> guards nothing but logging and the success deque that only feeds the
  log. This theory states that as noninterference, the way
  \<^verbatim>\<open>HOL/IMP/Sec_Typing\<close> does for a low-equivalence: every operation, run on a state
  whose log has been forgotten and with logging off, gives the state the operation gives
  with the log forgotten. \<open>quiet c\<close> is the configuration \<open>c\<close> with logging off.
\<close>

definition forget_logs :: "('s, 'a, 'e, 'g, 'm) oprrl \<Rightarrow> ('s, 'a, 'e, 'g, 'm) oprrl" where
  "forget_logs s = s\<lparr>logs := []\<rparr>"

definition quiet :: "cfg \<Rightarrow> cfg" where
  "quiet c = c\<lparr>wandb_log := False\<rparr>"

lemma forget_logs_fields [simp]:
  "env (forget_logs s) = env s" "agent (forget_logs s) = agent s"
  "agent_memory (forget_logs s) = agent_memory s" "reward_network (forget_logs s) = reward_network s"
  "total_numsteps (forget_logs s) = total_numsteps s" "updates (forget_logs s) = updates s"
  "rank_count (forget_logs s) = rank_count s" "rank_num (forget_logs s) = rank_num s"
  "i_episode (forget_logs s) = i_episode s" "e_reward_list (forget_logs s) = e_reward_list s"
  "e_reward_prime_list (forget_logs s) = e_reward_prime_list s"
  "episode_len_list (forget_logs s) = episode_len_list s" "calls (forget_logs s) = calls s"
  "logs (forget_logs s) = []"
  by (simp_all add: forget_logs_def)

lemma quiet_fields [simp]:
  "episode_len (quiet c) = episode_len c" "max_episodes (quiet c) = max_episodes c"
  "change_flag_reward (quiet c) = change_flag_reward c" "env_type (quiet c) = env_type c"
  "batch_size (quiet c) = batch_size c" "updates_per_step (quiet c) = updates_per_step c"
  "start_episodes (quiet c) = start_episodes c" "pretrain_episodes (quiet c) = pretrain_episodes c"
  "eval_enabled (quiet c) = eval_enabled c" "eval_per_episode (quiet c) = eval_per_episode c"
  "eval_episodes (quiet c) = eval_episodes c"
  "learn_reward_frequency_1 (quiet c) = learn_reward_frequency_1 c"
  "num_to_rank_1 (quiet c) = num_to_rank_1 c"
  "learn_reward_frequency (quiet c) = learn_reward_frequency c"
  "num_to_rank (quiet c) = num_to_rank c" "max_rank_num (quiet c) = max_rank_num c"
  "wandb_log (quiet c) = False"
  by (simp_all add: quiet_def)

text \<open>Forgetting the log commutes with every update of another field.\<close>

lemma forget_logs_update [simp]:
  "forget_logs (s\<lparr>env := e\<rparr>) = (forget_logs s)\<lparr>env := e\<rparr>"
  "forget_logs (s\<lparr>agent := g\<rparr>) = (forget_logs s)\<lparr>agent := g\<rparr>"
  "forget_logs (s\<lparr>agent_memory := mem\<rparr>) = (forget_logs s)\<lparr>agent_memory := mem\<rparr>"
  "forget_logs (s\<lparr>reward_network := m\<rparr>) = (forget_logs s)\<lparr>reward_network := m\<rparr>"
  "forget_logs (s\<lparr>total_numsteps := n\<rparr>) = (forget_logs s)\<lparr>total_numsteps := n\<rparr>"
  "forget_logs (s\<lparr>updates := n\<rparr>) = (forget_logs s)\<lparr>updates := n\<rparr>"
  "forget_logs (s\<lparr>rank_count := n\<rparr>) = (forget_logs s)\<lparr>rank_count := n\<rparr>"
  "forget_logs (s\<lparr>rank_num := n\<rparr>) = (forget_logs s)\<lparr>rank_num := n\<rparr>"
  "forget_logs (s\<lparr>i_episode := n\<rparr>) = (forget_logs s)\<lparr>i_episode := n\<rparr>"
  "forget_logs (s\<lparr>e_reward_list := rs\<rparr>) = (forget_logs s)\<lparr>e_reward_list := rs\<rparr>"
  "forget_logs (s\<lparr>e_reward_prime_list := rs\<rparr>) = (forget_logs s)\<lparr>e_reward_prime_list := rs\<rparr>"
  "forget_logs (s\<lparr>episode_len_list := ns\<rparr>) = (forget_logs s)\<lparr>episode_len_list := ns\<rparr>"
  "forget_logs (s\<lparr>calls := cs\<rparr>) = (forget_logs s)\<lparr>calls := cs\<rparr>"
  "forget_logs (s\<lparr>logs := lg\<rparr>) = forget_logs s"
  by (simp_all add: forget_logs_def)

section \<open>The step session\<close>

lemma choose_action_quiet:
  "choose_action X (quiet c) st (forget_logs s) = apsnd forget_logs (choose_action X c st s)"
  by (simp add: choose_action_def split: prod.splits)

lemma sac_update_quiet:
  "sac_update X (quiet c) r (forget_logs s) = forget_logs (sac_update X c r s)"
  by (simp add: sac_update_def Let_def split: prod.splits)

lemma update_rule_quiet [simp]: "update_rule (quiet c) = update_rule c"
  by (simp add: update_rule_def [abs_def])

lemma sac_updates_quiet:
  "sac_updates X (quiet c) n (forget_logs s) = forget_logs (sac_updates X c n s)"
  by (induction n arbitrary: s) (simp_all add: sac_update_quiet)


lemma forget_logs_if: "(if b then forget_logs x else forget_logs y) = forget_logs (if b then x else y)"
  by simp

lemma step_once_quiet:
  "step_once X (quiet c) (forget_logs s) l = map_sum id (apfst forget_logs) (step_once X c s l)"
proof -
  obtain a s1 where ca: "choose_action X c (ep_state l) s = (a, s1)" by fastforce
  then have caq: "choose_action X (quiet c) (ep_state l) (forget_logs s) = (a, forget_logs s1)"
    by (simp add: choose_action_quiet)
  let ?s2 = "if batch_size c < length (agent_memory s1) then sac_updates X c (updates_per_step c) s1 else s1"
  have s2q: "(if batch_size c < length (agent_memory s1)
              then sac_updates X (quiet c) (updates_per_step c) (forget_logs s1) else forget_logs s1) =
             forget_logs ?s2"
    by (simp add: sac_updates_quiet)
  obtain ns r d info e' where es: "env_step X (env ?s2) a = ((ns, r, d, info), e')"
    by (metis prod_cases3 surj_pair)
  have es': "env_step X (env (forget_logs ?s2)) a = ((ns, r, d, info), e')" using es by simp
  show ?thesis
    unfolding step_once_def Let_def
    apply (simp only: ca caq quiet_fields forget_logs_fields s2q es es' prod.case)
    by (cases "episode_len c") (simp_all add: forget_logs_def)
qed


lemma run_steps_quiet:
  "run_steps X (quiet c) (forget_logs s) l = map_sum id (apfst forget_logs) (run_steps X c s l)"
proof (induction X c s l rule: run_steps.induct)
  case (1 X c s l)
  show ?case
  proof (cases "ep_done l")
    case True
    then show ?thesis by (simp add: run_steps_stop)
  next
    case False
    show ?thesis
    proof (cases "step_once X c s l")
      case (Inl err)
      with False show ?thesis
        by (simp add: run_steps_continue [of l] step_once_quiet)
    next
      case (Inr p)
      obtain s1 l1 where p: "p = (s1, l1)" by fastforce
      with False Inr "1.IH" [OF False Inr p [symmetric]] show ?thesis
        by (simp add: run_steps_continue [of l] step_once_quiet)
    qed
  qed
qed

lemma reset_episode_quiet:
  "reset_episode X (forget_logs s) = apfst forget_logs (reset_episode X s)"
  by (simp add: reset_episode_def split: prod.splits)

section \<open>Reward learning\<close>

lemma learn_soft_once_quiet:
  "learn_soft_once X (forget_logs s) = apsnd forget_logs (learn_soft_once X s)"
  by (simp add: learn_soft_once_eq)

lemma soft_fits_quiet:
  "soft_fits X n eb (forget_logs s) = apsnd forget_logs (soft_fits X n eb s)"
proof (induction n arbitrary: s)
  case 0
  then show ?case by simp
next
  case (Suc n)
  obtain a s1 where lo: "learn_soft_once X s = (a, s1)" by fastforce
  then have lo': "learn_soft_once X (forget_logs s) = (a, forget_logs s1)"
    by (simp add: learn_soft_once_quiet)
  obtain accs s2 where sf: "soft_fits X n eb s1 = (accs, s2)" by fastforce
  then have sf': "soft_fits X n eb (forget_logs s1) = (accs, forget_logs s2)" by (simp add: Suc.IH)
  show ?case by (simp add: lo lo' sf sf')
qed

lemma relabel_step_quiet: "relabel_step X (forget_logs s) = forget_logs (relabel_step X s)"
  by (simp add: relabel_step_def)

lemma learn_reward_quiet:
  "learn_reward X n eb rl (forget_logs s) = apsnd forget_logs (learn_reward X n eb rl s)"
  by (simp add: learn_reward_def learn_soft_once_quiet soft_fits_quiet relabel_step_quiet
           split: prod.splits)


lemma learn_block_quiet:
  "learn_block X (quiet c) f lf ntr (forget_logs s) = map_sum id forget_logs (learn_block X c f lf ntr s)"
proof (cases "0 < lf \<and> i_episode s mod lf = 0 \<and> rank_num s \<le> max_rank_num c")
  case False
  then show ?thesis by (cases "lf = 0") (auto simp: learn_block_def)
next
  case True
  obtain k m' where rk: "rank X (reward_network s) ntr = (k, m')" by fastforce
  let ?s1 = "s\<lparr>reward_network := m', rank_count := Suc (rank_count s),
               rank_num := ranked_len X m', calls := calls s @ [CRank ntr]\<rparr>"
  let ?q1 = "(forget_logs s)\<lparr>reward_network := m', rank_count := Suc (rank_count s),
               rank_num := ranked_len X m', calls := calls s @ [CRank ntr]\<rparr>"
  have q1: "?q1 = forget_logs ?s1" by simp
  obtain acc s2 where lr: "(case f of Exploratory \<Rightarrow> learn_reward X 8 False True ?s1
      | Converged \<Rightarrow> learn_reward X (Suc (rank_count s)) True True ?s1) = (acc, s2)" by fastforce
  have lr': "(case f of Exploratory \<Rightarrow> learn_reward X 8 False True ?q1
      | Converged \<Rightarrow> learn_reward X (Suc (rank_count s)) True True ?q1) = (acc, forget_logs s2)"
    unfolding q1 using lr by (cases f) (simp_all only: freq_flag.case learn_reward_quiet apsnd_conv)
  have "learn_block X c f lf ntr s =
        Inr (if wandb_log c then s2\<lparr>logs := logs s2 @ [LogRank acc k (rank_count s2) (rank_num s2)]\<rparr>
             else s2)"
    using True lr by (cases f) (simp_all add: learn_block_def rk Let_def)
  moreover have "learn_block X (quiet c) f lf ntr (forget_logs s) = Inr (forget_logs s2)"
    using True lr' by (cases f) (simp_all add: learn_block_def rk Let_def)
  ultimately show ?thesis by simp
qed

lemma update_burst_quiet:
  "update_burst X (quiet c) n (forget_logs s) = forget_logs (update_burst X c n s)"
  by (induction n arbitrary: s)
     (simp_all add: forget_logs_update(2,13) [symmetric] del: forget_logs_update split: prod.splits)

lemma pretrain_exit_quiet:
  "pretrain_exit X (quiet c) (forget_logs s) = forget_logs (pretrain_exit X c s)"
  by (simp add: pretrain_exit_def Let_def soft_fits_quiet relabel_step_quiet update_burst_quiet
           forget_logs_update(2,13) [symmetric] del: forget_logs_update)

section \<open>Evaluation and the end of an episode\<close>

lemma evaluate_quiet:
  "evaluate X n len md (forget_logs s) = map_option (apsnd forget_logs) (evaluate X n len md s)"
  by (simp add: evaluate_def split: option.splits prod.splits)

lemma eval_hook_quiet:
  "eval_hook X (quiet c) (forget_logs s) = map_option (map_sum id forget_logs) (eval_hook X c s)"
  by (simp add: eval_hook_def evaluate_quiet split: sum.splits option.splits prod.splits)

lemma episode_log_quiet:
  "episode_log (quiet c) l de (forget_logs s) = (forget_logs s, de)"
  "forget_logs (fst (episode_log c l de s)) = forget_logs s"
  by (simp_all add: episode_log_def Let_def)

lemma record_episode_quiet:
  "record_episode l (forget_logs s) = forget_logs (record_episode l s)"
  by (simp add: record_episode_def)

lemma frequency_block_quiet [simp]: "frequency_block (quiet c) = frequency_block c"
  by (intro ext) (simp add: frequency_block_def quiet_def)


section \<open>Episodes and the training loop\<close>

text \<open>What the quiet run returns for the logged run's result: the same state with the log
  forgotten and the loop-carried locals with the quiet run's (never updated) deque.\<close>

definition quiet_result ::
  "bool list \<Rightarrow> (py_error + ('s, 'a, 'e, 'g, 'm) oprrl \<times> train_locals) option \<Rightarrow>
   (py_error + ('s, 'a, 'e, 'g, 'm) oprrl \<times> train_locals) option" where
  "quiet_result de = map_option (map_sum id (\<lambda>(s', t'). (forget_logs s', t'\<lparr>succ_de := de\<rparr>)))"

lemma quiet_result_simps [simp]:
  "quiet_result de None = None"
  "quiet_result de (Some (Inl err)) = Some (Inl err)"
  "quiet_result de (Some (Inr (s', t'))) = Some (Inr (forget_logs s', t'\<lparr>succ_de := de\<rparr>))"
  by (simp_all add: quiet_result_def)

lemma episode_tail_quiet:
  assumes "frequency_flag t2 = frequency_flag t1" and "reach_count t2 = reach_count t1"
  shows "episode_tail X (quiet c) t2 l (forget_logs s) = quiet_result (succ_de t2) (episode_tail X c t1 l s)"
proof -
  obtain s1 de where el: "episode_log c l (succ_de t1) s = (s1, de)" by fastforce
  have rq: "record_episode l (forget_logs s) = forget_logs (record_episode l s1)"
    using episode_log_quiet(2) [of c l "succ_de t1" s] el by (metis fst_conv record_episode_quiet)
  obtain f rc lf ntr where fb: "frequency_block c (episode_reward l) (frequency_flag t1) (reach_count t1) =
      (f, rc, lf, ntr)" by (metis prod_cases4)
  show ?thesis
  proof (cases "learn_block X c f lf ntr (record_episode l s1)")
    case (Inl err)
    then show ?thesis using assms
      by (simp add: episode_tail_def el episode_log_quiet rq fb learn_block_quiet)
  next
    case (Inr s3)
    then show ?thesis using assms
      by (simp add: episode_tail_def el episode_log_quiet rq fb learn_block_quiet pretrain_exit_quiet
                    eval_hook_quiet split: option.splits sum.splits)
  qed
qed

lemma episode_quiet:
  assumes "frequency_flag t2 = frequency_flag t1" and "reach_count t2 = reach_count t1"
  shows "episode X (quiet c) t2 (forget_logs s) = quiet_result (succ_de t2) (episode X c t1 s)"
proof -
  obtain s0 l0 where re: "reset_episode X s = (s0, l0)" by fastforce
  then have re': "reset_episode X (forget_logs s) = (forget_logs s0, l0)"
    by (simp add: reset_episode_quiet)
  show ?thesis
  proof (cases "run_steps X c s0 l0")
    case (Inl err)
    then show ?thesis by (simp add: episode_def re re' run_steps_quiet)
  next
    case (Inr p)
    obtain s1 l1 where p: "p = (s1, l1)" by fastforce
    with Inr show ?thesis
      by (simp add: episode_def re re' run_steps_quiet episode_tail_quiet [OF assms])
  qed
qed

lemma train_loop_quiet:
  assumes "frequency_flag t2 = frequency_flag t1" and "reach_count t2 = reach_count t1"
  shows "train_loop X (quiet c) t2 (forget_logs s) i = quiet_result (succ_de t2) (train_loop X c t1 s i)"
  using assms
proof (induction "max_episodes c - i" arbitrary: t1 t2 s i rule: less_induct)
  case less
  have ep: "episode X (quiet c) t2 (forget_logs (s\<lparr>i_episode := i\<rparr>)) =
            quiet_result (succ_de t2) (episode X c t1 (s\<lparr>i_episode := i\<rparr>))"
    using episode_quiet [OF less.prems] .
  show ?case
  proof (cases "episode X c t1 (s\<lparr>i_episode := i\<rparr>)" rule: option.exhaust)
    case None
    with ep show ?thesis by (simp add: train_loop_unfold [of X _ _ _ i])
  next
    case (Some r)
    show ?thesis
    proof (cases r)
      case (Inl err)
      with Some ep show ?thesis by (simp add: train_loop_unfold [of X _ _ _ i])
    next
      case (Inr p)
      obtain s' t' where p: "p = (s', t')" by fastforce
      show ?thesis
      proof (cases "max_episodes c - 1 \<le> i")
        case True
        with Some Inr p ep show ?thesis by (simp add: train_loop_unfold [of X _ _ _ i])
      next
        case False
        then have "max_episodes c - Suc i < max_episodes c - i" by simp
        have "train_loop X (quiet c) (t'\<lparr>succ_de := succ_de t2\<rparr>) (forget_logs s') (Suc i) =
           quiet_result (succ_de (t'\<lparr>succ_de := succ_de t2\<rparr>)) (train_loop X c t' s' (Suc i))"
          by (rule less.hyps [OF \<open>max_episodes c - Suc i < max_episodes c - i\<close>]) simp_all
        with False Some Inr p ep show ?thesis by (simp add: train_loop_unfold [of X _ _ _ i])
      qed
    qed
  qed
qed


section \<open>Properties of logging\<close>

text \<open>
  C25. Logging is inert (spec section 5: logging is an observer). For every
  configuration, the run with \<^verbatim>\<open>wandb_log\<close> off, from the same state with its log
  forgotten, returns exactly what the logged run returns with its log forgotten and its
  success deque left empty: same outcome (normal, raised error, or no return), same
  collaborator states, counters, memory, call record and scheduler state.
\<close>

theorem logging_inert: "train X (quiet c) (forget_logs s) = quiet_result [] (train X c s)"
  using train_loop_quiet [of "\<lparr>frequency_flag = Exploratory, reach_count = 0, succ_de = []\<rparr>"
      "\<lparr>frequency_flag = Exploratory, reach_count = 0, succ_de = []\<rparr>" X c s 1]
  by (simp add: train_def)


end
