(* ===== verification/Phases.thy ===== *)
theory Phases
  imports Scheduler
begin

text \<open>
  The scheduler as spec section 9 describes it: an explicit tagged phase, Exploratory
  with its reach counter or Converged, that carries its own configuration, with the
  flip condition a pure predicate on the reach counter. The code keeps an integer flag
  and a separate counter, and reads the configuration fields in two sequential
  \<^verbatim>\<open>if\<close>s (\<^verbatim>\<open>src/main.py\<close> lines 256--266, \<open>frequency_block\<close>). The refinement
  lemma shows that the code implements the tagged design, for one evaluation and for a
  whole sequence of episode returns.
\<close>

section \<open>The tagged design\<close>

datatype phase = PExploratory nat | PConverged

text \<open>The configuration each phase carries: \<open>(learn_frequency, num_to_rank)\<close>.\<close>

fun phase_config :: "cfg \<Rightarrow> phase \<Rightarrow> nat \<times> nat" where
  "phase_config c (PExploratory rc) = (learn_reward_frequency_1 c, num_to_rank_1 c)"
| "phase_config c PConverged = (learn_reward_frequency c, num_to_rank c)"

text \<open>The flip condition: the reach counter exceeds 8.\<close>

definition reached :: "nat \<Rightarrow> bool" where
  "reached rc \<longleftrightarrow> 8 < rc"

text \<open>One episode with return \<open>r\<close>: an Exploratory phase counts a return above the
  threshold and flips once the counter is reached; Converged is final.\<close>

fun phase_step :: "cfg \<Rightarrow> real \<Rightarrow> phase \<Rightarrow> phase" where
  "phase_step c r (PExploratory rc) =
     (let rc' = (if change_flag_reward c < r then Suc rc else rc)
      in if reached rc' then PConverged else PExploratory rc')"
| "phase_step c r PConverged = PConverged"

text \<open>The phase a state of the code stands for; a converged counter is not read again.\<close>

fun abs_phase :: "freq_flag \<times> nat \<Rightarrow> phase" where
  "abs_phase (Exploratory, rc) = PExploratory rc"
| "abs_phase (Converged, rc) = PConverged"

section \<open>Refinement\<close>

lemma frequency_block_step:
  "abs_phase (fst (frequency_block c r f rc), fst (snd (frequency_block c r f rc))) =
     phase_step c r (abs_phase (f, rc)) \<and>
   snd (snd (frequency_block c r f rc)) = phase_config c (phase_step c r (abs_phase (f, rc)))"
  by (cases f) (simp_all add: frequency_block_Exploratory reached_def Let_def)

text \<open>
  C30. The scheduler refines the tagged design of spec section 9. For every return
  and every state, the code's new flag and counter stand for the tagged phase's
  successor. The configuration the code hands out is the one that phase carries. Over
  any sequence of returns, \<open>sched_run\<close> stands for the fold of the phase step.
\<close>

theorem frequency_block_refines:
  "abs_phase (fst (frequency_block c r f rc), fst (snd (frequency_block c r f rc))) =
     phase_step c r (abs_phase (f, rc)) \<and>
   snd (snd (frequency_block c r f rc)) = phase_config c (phase_step c r (abs_phase (f, rc))) \<and>
   abs_phase (sched_run c rs (f, rc)) = fold (phase_step c) rs (abs_phase (f, rc))"
proof -
  have "abs_phase (sched_run c rs st) = fold (phase_step c) rs (abs_phase st)" for st
  proof (induction rs arbitrary: st)
    case Nil
    then show ?case by simp
  next
    case (Cons r' rs)
    obtain f' rc' where st: "st = (f', rc')" by fastforce
    obtain f'' rc'' lf n where fb: "frequency_block c r' f' rc' = (f'', rc'', lf, n)"
      by (metis prod_cases4)
    have "abs_phase (f'', rc'') = phase_step c r' (abs_phase (f', rc'))"
      using frequency_block_step [of c r' f' rc'] fb by simp
    then show ?case using Cons.IH [of "(f'', rc'')"] st fb by simp
  qed
  then show ?thesis using frequency_block_step by blast
qed

end
