(* ===== verification/Success.thy ===== *)
theory Success
  imports Invariants
begin

text \<open>
  Success detection and the terminal mask (\<^verbatim>\<open>src/main.py\<close> lines 215 and 228--240).
  For RLBench the code infers success after the fact: an episode succeeded when it ended
  before \<open>episode_len\<close> steps (line 233). The same test decides the terminal mask of the
  last transition (line 215): 0 for an episode the environment ended, 1 for one cut at
  the step budget. Composing the step loop (\<open>Steps\<close>), the relabelling and the
  pretrain exit (which keep masks) and the episode log (\<open>Train\<close>) shows that the
  success flag the logger records always agrees with the memory's newest mask, and that
  the window holds the flags of the newest 50 episodes, in order.
\<close>

section \<open>Runs end with an episode\<close>

text \<open>A run that returns returns the result of its last episode.\<close>

lemma train_loop_last:
  assumes "train_loop X c t s i = Some (Inr (s', t'))"
  shows "\<exists>t0 s0 j. episode X c t0 (s0\<lparr>i_episode := j\<rparr>) = Some (Inr (s', t'))"
  using assms
proof (induction "max_episodes c - i" arbitrary: t s i rule: less_induct)
  case less
  obtain s1 t1 where ep: "episode X c t (s\<lparr>i_episode := i\<rparr>) = Some (Inr (s1, t1))"
    using less.prems
    by (auto simp: train_loop_unfold [of X c t s i] split: option.splits sum.splits)
  show ?case
  proof (cases "max_episodes c - 1 \<le> i")
    case True
    with less.prems ep show ?thesis by (auto simp: train_loop_unfold [of X c t s i])
  next
    case False
    with less.prems ep have "train_loop X c t1 s1 (Suc i) = Some (Inr (s', t'))"
      by (simp add: train_loop_unfold [of X c t s i])
    moreover from False have "max_episodes c - Suc i < max_episodes c - i" by simp
    ultimately show ?thesis using less.hyps by blast
  qed
qed

section \<open>One episode\<close>

lemma deque_append_nonempty [simp]: "0 < maxlen \<Longrightarrow> deque_append maxlen xs x \<noteq> []"
  by (simp add: deque_append_def)

text \<open>After an RLBench episode with logging on, the newest success flag says whether
  the newest transition in the memory has mask 0.\<close>

lemma episode_rlbench_success:
  assumes "env_type c = RLBench" and "wandb_log c"
    and "episode X c t s = Some (Inr (s', t'))"
  shows "succ_de t' \<noteq> [] \<and> agent_memory s' \<noteq> [] \<and>
         last (succ_de t') = (t_mask (last (agent_memory s')) = 0)"
proof -
  obtain n ms l where m: "map t_mask (agent_memory s') = map t_mask (agent_memory s) @ ms"
    and len: "length ms = n" "1 \<le> n" and lm: "last ms = (if n < episode_len c then 0 else 1)"
    and n: "episode_steps l = n" and de: "succ_de t' = snd (episode_log c l (succ_de t) s)"
    using episode_memory [OF assms(3)] by blast
  have ne: "ms \<noteq> []" using len by auto
  have de': "succ_de t' = deque_append 50 (succ_de t) (n < episode_len c)"
    using de n assms(1,2) by (simp add: episode_log_def Let_def)
  have "agent_memory s' \<noteq> []" using arg_cong [OF m, of length] ne by auto
  moreover have "t_mask (last (agent_memory s')) = last ms"
    using arg_cong [OF m, of last] ne calculation by (simp add: last_map)
  ultimately show ?thesis using de' lm by (simp add: deque_append_last)
qed

section \<open>Properties of success detection\<close>

text \<open>
  C26. Contents of the success window (spec section 3, Success Window; section 4.1,
  success detection). For RLBench with logging on, over a run that returns, the deque
  \<^verbatim>\<open>succ_de\<close> holds exactly one flag for each of the newest (at most 50) episodes of
  the run, oldest first, and the flag of an episode is True exactly when it ended before
  \<open>episode_len\<close> steps. The episodes are those whose lengths the run appends to
  \<^verbatim>\<open>episode_len_list\<close>, so the success rate the code logs is the share of those
  episodes that ended early.
\<close>

theorem success_window_content:
  assumes "env_type c = RLBench" and "wandb_log c"
    and "train X c s = Some (Inr (s', t'))"
  shows "\<exists>ns. episode_len_list s' = episode_len_list s @ ns \<and>
           succ_de t' = drop (length ns - 50) (map (\<lambda>n. n < episode_len c) ns)"
proof -
  let ?f = "\<lambda>n. n < episode_len c"
  have "\<exists>ns. episode_len_list s' = episode_len_list s @ ns \<and>
          succ_de t' = foldl (deque_append 50) [] (map ?f ns)"
    using assms(3) [unfolded train_def]
  proof (rule train_loop_invariant [where P = "\<lambda>s1 t1. \<exists>ns. episode_len_list s1 = episode_len_list s @ ns \<and>
          succ_de t1 = foldl (deque_append 50) [] (map ?f ns)"])
    show "\<exists>ns. episode_len_list s = episode_len_list s @ ns \<and>
          succ_de \<lparr>frequency_flag = Exploratory, reach_count = 0, succ_de = []\<rparr> =
            foldl (deque_append 50) [] (map ?f ns)"
      by (rule exI [of _ "[]"]) simp
  next
    fix s0 t0 s1 t1 j
    assume "\<exists>ns. episode_len_list s0 = episode_len_list s @ ns \<and>
          succ_de t0 = foldl (deque_append 50) [] (map ?f ns)"
      and ep: "episode X c t0 (s0\<lparr>i_episode := j\<rparr>) = Some (Inr (s1, t1))"
    then obtain ns where ns: "episode_len_list s0 = episode_len_list s @ ns"
      and de: "succ_de t0 = foldl (deque_append 50) [] (map ?f ns)" by blast
    obtain n l where len0: "episode_len_list s1 = episode_len_list (s0\<lparr>i_episode := j\<rparr>) @ [n]"
      and n: "episode_steps l = n"
      and de1: "succ_de t1 = snd (episode_log c l (succ_de t0) (s0\<lparr>i_episode := j\<rparr>))"
      using episode_memory [OF ep] by (elim exE conjE) (rule that; assumption)
    then have len: "episode_len_list s1 = episode_len_list s0 @ [n]" by simp
    have "succ_de t1 = deque_append 50 (succ_de t0) (?f n)"
      using de1 n assms(1,2) by (simp add: episode_log_def Let_def)
    then show "\<exists>ns. episode_len_list s1 = episode_len_list s @ ns \<and>
          succ_de t1 = foldl (deque_append 50) [] (map ?f ns)"
      using ns len de by (intro exI [of _ "ns @ [n]"]) simp
  qed
  then obtain ns where "episode_len_list s' = episode_len_list s @ ns"
    and "succ_de t' = foldl (deque_append 50) [] (map ?f ns)" by blast
  then show ?thesis using foldl_deque_append [of "[]" 50 "map ?f ns"] by auto
qed

theorem success_window_content_witness:
  "env_type (toy_cfg\<lparr>env_type := RLBench\<rparr>) = RLBench \<and> wandb_log (toy_cfg\<lparr>env_type := RLBench\<rparr>) \<and>
   (\<exists>s' t'. train toy_ext (toy_cfg\<lparr>env_type := RLBench\<rparr>) toy_state = Some (Inr (s', t')) \<and>
      (\<exists>ns. episode_len_list s' = episode_len_list toy_state @ ns \<and>
        succ_de t' = drop (length ns - 50)
          (map (\<lambda>n. n < episode_len (toy_cfg\<lparr>env_type := RLBench\<rparr>)) ns)))"
proof -
  let ?c = "toy_cfg\<lparr>env_type := RLBench\<rparr>"
  have h: "0 < episode_len ?c" "0 < learn_reward_frequency_1 ?c"
    "0 < learn_reward_frequency ?c" "0 < eval_per_episode ?c"
    and e: "env_type ?c = RLBench" "wandb_log ?c"
    by (simp_all add: toy_cfg_def)
  obtain s' t' where r: "train toy_ext ?c toy_state = Some (Inr (s', t'))"
    using train_loop_runs [OF h, of toy_ext "\<lparr>frequency_flag = Exploratory, reach_count = 0,
        succ_de = []\<rparr>" toy_state 1]
    unfolding train_def by blast
  show ?thesis using success_window_content [OF e r] r e by blast
qed

text \<open>
  C33. First success wins (spec section 4.1, success detection). Over the step loop of
  an episode whose flag and success start equal, as \<open>reset_episode\<close> leaves them, they
  stay equal. A success once seen is never lost. Only Metaworld sets it, from the
  step's info flag (lines 203--206); for the other environments the step loop never
  changes it.
\<close>

theorem step_loop_success:
  assumes "run_steps X c s l = Inr (s', l')" and "episode_flag l = episode_succ l"
  shows "episode_flag l' = episode_succ l' \<and> (episode_succ l \<longrightarrow> episode_succ l') \<and>
         (env_type c \<noteq> Metaworld \<longrightarrow> episode_succ l' = episode_succ l)"
  using assms
proof (induction X c s l arbitrary: s' l' rule: run_steps.induct)
  case (1 X c s l)
  show ?case
  proof (cases "ep_done l")
    case True
    with "1.prems" show ?thesis by (simp add: run_steps_stop)
  next
    case False
    with "1.prems"(1) obtain s1 l1 where st: "step_once X c s l = Inr (s1, l1)"
      and rs: "run_steps X c s1 l1 = Inr (s', l')"
      by (auto simp: run_steps_unfold [of X c s l] sbind_eq_Inr)
    have l1: "episode_flag l1 = episode_succ l1 \<and> (episode_succ l \<longrightarrow> episode_succ l1) \<and>
        (env_type c \<noteq> Metaworld \<longrightarrow> episode_succ l1 = episode_succ l)"
      using st "1.prems"(2) by (elim step_once_InrE) auto
    with "1.IH" [OF False st _ rs] show ?thesis by auto
  qed
qed

theorem step_loop_success_witness:
  "\<exists>s' l'. run_steps toy_ext toy_cfg (fst (reset_episode toy_ext toy_state))
              (snd (reset_episode toy_ext toy_state)) = Inr (s', l') \<and>
     episode_flag (snd (reset_episode toy_ext toy_state)) =
       episode_succ (snd (reset_episode toy_ext toy_state)) \<and>
     episode_flag l' = episode_succ l' \<and>
     (episode_succ (snd (reset_episode toy_ext toy_state)) \<longrightarrow> episode_succ l') \<and>
     (env_type toy_cfg \<noteq> Metaworld \<longrightarrow>
        episode_succ l' = episode_succ (snd (reset_episode toy_ext toy_state)))"
proof -
  have pos: "0 < episode_len toy_cfg" by (simp add: toy_cfg_def)
  then obtain s' l' where r: "run_steps toy_ext toy_cfg (fst (reset_episode toy_ext toy_state))
      (snd (reset_episode toy_ext toy_state)) = Inr (s', l')"
    using run_steps_total by blast
  have h: "episode_flag (snd (reset_episode toy_ext toy_state)) =
       episode_succ (snd (reset_episode toy_ext toy_state))"
    by (simp add: reset_episode_def split: prod.splits)
  show ?thesis using step_loop_success [OF r h] r h by blast
qed

text \<open>
  C32. Success flag and terminal mask (spec section 4.1, success detection, and section
  3, transition tuple). For RLBench with logging on, a run that returns has a non-empty
  success window. Its newest flag is True exactly when the newest transition in the
  replay memory has terminal mask 0, that is when the last episode ended before its step
  budget. Reward relabelling and the pretrain exit in between do not disturb this.
\<close>

theorem rlbench_success_mask:
  assumes "env_type c = RLBench" and "wandb_log c"
    and "train X c s = Some (Inr (s', t'))"
  shows "succ_de t' \<noteq> [] \<and> agent_memory s' \<noteq> [] \<and>
         last (succ_de t') = (t_mask (last (agent_memory s')) = 0)"
proof -
  obtain t0 s0 j where "episode X c t0 (s0\<lparr>i_episode := j\<rparr>) = Some (Inr (s', t'))"
    using train_loop_last [OF assms(3) [unfolded train_def]] by blast
  then show ?thesis by (rule episode_rlbench_success [OF assms(1,2)])
qed

theorem rlbench_success_mask_witness:
  "env_type (toy_cfg\<lparr>env_type := RLBench\<rparr>) = RLBench \<and> wandb_log (toy_cfg\<lparr>env_type := RLBench\<rparr>) \<and>
   (\<exists>s' t'. train toy_ext (toy_cfg\<lparr>env_type := RLBench\<rparr>) toy_state = Some (Inr (s', t')) \<and>
      succ_de t' \<noteq> [] \<and> agent_memory s' \<noteq> [] \<and>
      last (succ_de t') = (t_mask (last (agent_memory s')) = 0))"
proof -
  let ?c = "toy_cfg\<lparr>env_type := RLBench\<rparr>"
  have h: "0 < episode_len ?c" "0 < learn_reward_frequency_1 ?c"
    "0 < learn_reward_frequency ?c" "0 < eval_per_episode ?c"
    and e: "env_type ?c = RLBench" "wandb_log ?c"
    by (simp_all add: toy_cfg_def)
  obtain s' t' where r: "train toy_ext ?c toy_state = Some (Inr (s', t'))"
    using train_loop_runs [OF h, of toy_ext "\<lparr>frequency_flag = Exploratory, reach_count = 0,
        succ_de = []\<rparr>" toy_state 1]
    unfolding train_def by blast
  show ?thesis using rlbench_success_mask [OF e r] r e by blast
qed

end
