(* ===== verification/Spec2Isabelle.thy ===== *)
theory Spec2Isabelle
  imports Schedule Outcome Logging Phases Success
begin

text \<open>
  \<^bold>\<open>A verification model of the training orchestrator of off-policy
  scoring-based RL\<close> (\<^verbatim>\<open>src/main.py\<close>, class \<^verbatim>\<open>OPRRL\<close>).

  \<^bold>\<open>The program.\<close> \<^verbatim>\<open>OPRRL.train\<close> runs episodes of an environment. In each
  step it chooses an action (random during the \<open>start_episodes\<close> warm-up episodes,
  the SAC agent's afterwards), makes \<open>updates_per_step\<close> agent updates when the replay
  memory holds more than \<open>batch_size\<close> transitions, steps the environment, scores the
  transition with the learned reward network, computes the terminal mask, forces the
  end of the episode at \<open>episode_len\<close> steps, and pushes the transition with the
  predicted reward to the replay memory and with the true reward to the reward
  network's trajectory log. After each episode a two-state scheduler (Exploratory,
  Converged) picks the reward-learning frequency and batch, a ranking round refits the
  reward network and relabels the memory (\<^verbatim>\<open>learn_reward\<close>), a one-time
  pretrain-exit event refits, relabels, resets the agent and runs a burst of updates,
  and an evaluation runs every \<open>eval_per_episode\<close> episodes. The agent, the reward
  network, the replay memory and the environments are imported modules that are not
  part of the repository's sources.

  \<^bold>\<open>The library.\<close>
  \<^item> \<open>Prelude\<close>: Python's \<open>%\<close> with its \<open>ZeroDivisionError\<close> (\<open>py_mod\<close>),
    numpy's mean (\<open>np_mean\<close>, \<open>None\<close> for NaN), the bounded deque
    (\<open>deque_append\<close>), a bind for results that may raise (\<open>sbind\<close>).
  \<^item> \<open>ReplayMemory\<close>: the replay memory, modelled from the spec (\<open>push\<close>,
    \<open>relabel_memory\<close>); relabelling recomputes every reward and keeps state, action,
    next state and mask.
  \<^item> \<open>Interfaces\<close>: the configuration \<open>cfg\<close>, the dispatch on the environment type
    (\<open>parse_env_type\<close>: the three string tests of \<^verbatim>\<open>__init__\<close> lines 40, 44
    and 53 and the raise of lines 62--63), and the collaborators as a
    record of operations \<open>ext\<close> over their own state types; every theorem is stated
    for an arbitrary \<open>ext\<close>. The datatype \<open>call\<close> records, in order, every call the
    orchestrator makes on a collaborator, and \<open>log_entry\<close> what it logs; the
    predicates \<open>stale\<close> and \<open>fresh_updates\<close> state the spec's ordering guarantee
    that the agent never trains on labels older than the reward model's last fit.
    The concrete instances \<open>toy_ext\<close> and \<open>toy_cfg\<close> serve the witnesses.
  \<^item> \<open>Steps\<close>: the orchestrator's state \<open>oprrl\<close> (the fields of \<^verbatim>\<open>OPRRL\<close> and
    the collaborators' states), the episode-local variables \<open>ep_locals\<close>, and the
    step session of \<^verbatim>\<open>train\<close> (lines 161--223): \<open>choose_action\<close>,
    \<open>update_rule\<close>, \<open>sac_update\<close>/\<open>sac_updates\<close> (the update loop),
    \<open>step_once\<close> (one iteration) and \<open>run_steps\<close> (the \<^verbatim>\<open>while not done\<close> loop,
    a \<^theory_text>\<open>function\<close> with a termination proof by the measure
    \<open>episode_len - episode_steps mod episode_len\<close>).
  \<^item> \<open>Scheduler\<close>: the frequency block of lines 258--268 (\<open>frequency_block\<close>), its
    reachable states as the inductive predicate \<open>sched_reach\<close>, and \<open>sched_run\<close>,
    the scheduler over a sequence of episode returns.
  \<^item> \<open>RewardLearning\<close>: \<^verbatim>\<open>learn_reward\<close> (lines 133--150: \<open>learn_soft_once\<close>,
    \<open>soft_fits\<close>, \<open>relabel_step\<close>, \<open>learn_reward\<close>), the ranking round
    (\<open>learn_block\<close>, lines 270--284) and the pretrain-exit event (\<open>pretrain_exit\<close>,
    \<open>update_burst\<close>, lines 288--297).
  \<^item> \<open>Evaluation\<close>: \<^verbatim>\<open>evaluate\<close> (lines 106--131); its inner loop \<open>eval_steps\<close>
    is a \<^theory_text>\<open>partial_function (option)\<close>, since with \<open>episode_len = 0\<close> only the
    environment can end it; \<open>None\<close> is an evaluation that never returns.
  \<^item> \<open>Train\<close>: the rest of an episode (\<open>episode_log\<close>, \<open>record_episode\<close>,
    \<open>eval_hook\<close>, \<open>episode_tail\<close>, lines 228--300), one episode (\<open>episode\<close>), the
    loop over episodes (\<open>train_loop\<close>, a \<^theory_text>\<open>function\<close> terminating by the measure
    \<open>max_episodes - i\<close>), \<open>train\<close>, and the construction \<open>oprrl_init\<close>
    (the dispatch, the RLBench reset of line 42, the counters and lists of lines
    89--101); \<open>env_type_name\<close> names the string each environment type is tested
    against. A run's result is \<open>None\<close> (an evaluation that does not return),
    \<open>Some (Inl e)\<close> (the run raises \<open>e\<close>) or \<open>Some (Inr (s, t))\<close>.
  \<^item> \<open>Invariants\<close>: the well-formedness predicate \<open>oprrl_wf\<close> on the state (one memory
    transition per environment step, masks 0 or 1, one entry per episode in the three
    episode lists, recorded lengths adding up to \<^verbatim>\<open>total_numsteps\<close>) and the bounds
    of the step loop (\<open>run_steps_bounds\<close>) and of an episode (\<open>episode_memory\<close>).
  \<^item> \<open>Logging\<close>: noninterference of the wandb log. \<open>forget_logs\<close> drops the log,
    \<open>quiet c\<close> turns logging off; every operation of the model satisfies
    \<open>op (quiet c) (forget_logs s) = forget_logs (op c s)\<close> (the \<open>_quiet\<close> lemmas),
    composed up to \<open>train_loop_quiet\<close>.
  \<^item> \<open>Phases\<close>: the scheduler as spec section 9 designs it, a tagged phase
    (\<open>PExploratory rc | PConverged\<close>) carrying its configuration
    (\<open>phase_config\<close>), stepped by \<open>phase_step\<close> with the flip condition
    \<open>reached\<close>; \<open>abs_phase\<close> maps the code's flag and counter to it.
  \<^item> \<open>Success\<close>: RLBench success detection composed with the terminal mask and
    with the 50-slot success deque;
    \<open>train_loop_last\<close> says a run that returns returns its last episode's result.
  \<^item> \<open>Schedule\<close>: the per-episode schedule of a run. A trace \<open>ep_trace\<close> of one
    episode records its return, its steps, \<^verbatim>\<open>rank_num\<close> after it, and its calls.
    \<open>episode_ok\<close> says what the code makes of one episode, \<open>schedule_ok\<close> carries
    the scheduler state through a list of episodes, and \<open>scenario_cfg\<close> is the
    scenario configuration of spec section 8. The lemma \<open>episode_updates\<close> relates
    the update counter to the update calls of an episode.
  \<^item> \<open>Outcome\<close>: how a run ends when \<open>episode_len\<close> and \<open>eval_per_episode\<close> are
    positive: \<open>episode_outcome\<close> for one episode, \<open>train_loop_outcome\<close> for the loop.

  Every call on a collaborator appends a \<open>call\<close> to the state's call record, so the
  ordering properties of the spec are statements about that list. No fuel is used
  anywhere: the step loop and the training loop are total functions with termination
  proofs, and the one loop that may not return is a \<^theory_text>\<open>partial_function\<close>.

  \<^bold>\<open>What is proved.\<close> C1--C3 (\<open>Steps\<close>): terminal masks, the order of the calls
  within a step, termination of the step loop (and \<open>ZeroDivisionError\<close> for
  \<open>episode_len = 0\<close>). C4--C6 (\<open>Scheduler\<close>): the reachable scheduler states, the
  one-way transition, the flip on the ninth qualifying return. C7--C10
  (\<open>RewardLearning\<close>): the number of fits of \<^verbatim>\<open>learn_reward\<close>, the labels after a
  relabel, the ranking round, the pretrain-exit event. C11--C12 (\<open>Evaluation\<close>):
  evaluation returns for positive \<open>episode_len\<close> and touches only the environment and
  the agent; it does not return for \<open>episode_len = 0\<close> with an environment that never
  ends an episode. C13--C21 (\<open>Train\<close>): a run returns after
  \<open>max 1 (max_episodes - 1)\<close> episodes when its divisors are positive and raises
  when one of them is 0; the pretrain exit fires at most once; no update ever reads
  stale labels; \<^verbatim>\<open>rank_count\<close> counts the ranking calls and none happens above the
  ceiling; memory size and \<^verbatim>\<open>total_numsteps\<close> grow by the recorded episode lengths;
  the scheduler's state is \<open>sched_run\<close> over the recorded returns; the state
  \<^verbatim>\<open>__init__\<close> constructs, or its error on an unknown environment type. The run-level properties
  are proved from \<open>episode_effect\<close>, which describes one episode, and
  \<open>train_loop_invariant\<close>, which lifts a property preserved by every episode to the run.
  C22 (\<open>RewardLearning\<close>): the fit loop with early break equals a reference that runs
  every fit and cuts the accuracies after the first above 0.97. C23--C24
  (\<open>Invariants\<close>): every episode takes between 1 and \<open>episode_len\<close> steps; every
  run keeps the state well-formed (a separate lemma, \<open>oprrl_init_wf\<close>, shows that
  \<^verbatim>\<open>__init__\<close> builds a well-formed state). C25 (\<open>Logging\<close>): a run with
  logging off is the logged run with its log forgotten. C26 (\<open>Success\<close>): for
  RLBench with logging on, the success window holds the flags of the newest 50
  episodes of the run, in order, each True exactly when its episode ended before
  \<open>episode_len\<close> steps. C27
  (\<open>Schedule\<close>): the calls of a run split into one segment per episode; each segment
  takes random actions exactly in the warm-up episodes and ranks exactly on the
  multiples of the frequency the scheduler chose, under the ceiling. C28
  (\<open>Outcome\<close>): with \<open>episode_len\<close> and \<open>eval_per_episode\<close> positive, a run ends
  either by returning or by raising \<open>ZeroDivisionError\<close>, and a run that returns used
  a positive learning frequency in its final phase. C29 (\<open>Schedule\<close>): the update
  counter grows by the number of agent updates of the run, less the 100 of the
  pretrain-exit burst. C30 (\<open>Phases\<close>): \<open>frequency_block\<close> and \<open>sched_run\<close> refine
  the tagged phase design, with the configuration the phase carries. C31
  (\<open>Schedule\<close>): the scenario of spec section 8 on \<open>scenario_cfg\<close>: random actions
  in episodes 1--5, the policy in 6--7, ranking only in episodes 3 and 6. C32
  (\<open>Success\<close>): for RLBench with logging, the newest success flag is True exactly
  when the newest memory transition has terminal mask 0. C33 (\<open>Success\<close>): the
  Metaworld success of an episode, once seen, stays, and no other environment sets it.

  \<^bold>\<open>Not modelled.\<close> Printing to stdout; the environment construction details of
  \<^verbatim>\<open>__init__\<close> (gym/metaworld/RLBench options, seeding), which only configure the
  collaborators, and the construction of the agent, the replay memory and the reward
  network (lines 65--86, which \<open>oprrl_init\<close> takes as given initial states); the
  capacity \<^verbatim>\<open>replay_size\<close> of the replay memory; rendering; the command-line entry point (\<^verbatim>\<open>__main__\<close>, hydra);
  the internals of the agent, the reward network and the simulators, which are not
  in the repository; the replay memory (also outside the sources) is modelled from the
  spec's interface. The loop-carried locals \<^verbatim>\<open>max_succ_rate\<close>,
  \<^verbatim>\<open>extra_update_reward_flag\<close> and \<^verbatim>\<open>print_flag\<close> only feed printing or
  commented-out code and are left out; the wandb log is modelled as a list of entries.
\<close>

end
